(* ===== verification/Prelude.thy ===== *)
theory Prelude
  imports Main "HOL-Library.Word" "HOL-Library.Char_ord" "HOL-Library.List_Lexorder"
begin

text \<open>
  Shared ground of the development: the names of the machine types, the ways a C++
  call can end (return, \<open>std::runtime_error\<close>, process abort), the result codes of the
  RAFT layer, UUID printing and parsing as a parameter, and the generic lemmas and
  named collections the components use.
\<close>

section \<open>Collections of facts\<close>

named_theorems result_codes \<open>the numeric values of the result codes\<close>
named_theorems run_simps \<open>equations of the run type\<close>

section \<open>Machine types\<close>

type_synonym byte = "8 word"
type_synonym u16 = "16 word"
type_synonym u32 = "32 word"
type_synonym u64 = "64 word"
type_synonym i32 = "32 word"

text \<open>
  \<open>i32\<close> is read with \<open>sint\<close>, \<open>u32\<close> with \<open>unat\<close>: the bits are the same, which is
  what the casts of the source between \<open>int32_t\<close>, \<open>uint32_t\<close> and enumerations keep.
\<close>

type_synonym buffer = "byte list"

text \<open>A \<open>boost::uuids::uuid\<close> is sixteen bytes, compared in byte order.\<close>

type_synonym uuid = "128 word"
type_synonym peer_id = uuid
type_synonym group_id = uuid
type_synonym group_type = string
type_synonym svr_id = i32

section \<open>How a call ends\<close>

text \<open>
  \<open>Ret\<close> is a normal return, \<open>Runtime_error\<close> a thrown \<open>std::runtime_error\<close> with its
  message, \<open>Crash\<close> a failed assertion, \<open>abort()\<close> or the use of a null pointer.
\<close>

datatype 'a run = Ret 'a | Runtime_error string | Crash

fun run_bind :: "'a run \<Rightarrow> ('a \<Rightarrow> 'b run) \<Rightarrow> 'b run" where
  "run_bind (Ret x) f = f x"
| "run_bind (Runtime_error e) f = Runtime_error e"
| "run_bind Crash f = Crash"

lemma run_bind_Ret_iff [run_simps]:
  "run_bind m f = Ret y \<longleftrightarrow> (\<exists>x. m = Ret x \<and> f x = Ret y)"
  by (cases m) auto

lemma run_bind_Crash_iff [run_simps]:
  "run_bind m f = Crash \<longleftrightarrow> m = Crash \<or> (\<exists>x. m = Ret x \<and> f x = Crash)"
  by (cases m) auto

text \<open>A null pointer that is used: \<open>deref\<close> of \<open>None\<close> is a crash.\<close>

definition deref :: "'a option \<Rightarrow> 'a run" where
  "deref p = (case p of None \<Rightarrow> Crash | Some x \<Rightarrow> Ret x)"

lemma deref_simps [simp]: "deref (Some x) = Ret x" "deref None = Crash"
  by (simp_all add: deref_def)

section \<open>Result codes\<close>

text \<open>
  The codes of \<open>nuraft::cmd_result_code\<close>, with the values the schema of the repository
  gives them. A code is a 32-bit integer: the casts of the source also produce values
  that have no name.
\<close>

type_synonym cmd_result_code = i32

definition OK :: cmd_result_code where [result_codes]: "OK = 0"
definition CANCELLED :: cmd_result_code where [result_codes]: "CANCELLED = -1"
definition TIMEOUT :: cmd_result_code where [result_codes]: "TIMEOUT = -2"
definition NOT_LEADER :: cmd_result_code where [result_codes]: "NOT_LEADER = -3"
definition BAD_REQUEST :: cmd_result_code where [result_codes]: "BAD_REQUEST = -4"
definition SERVER_ALREADY_EXISTS :: cmd_result_code where
  [result_codes]: "SERVER_ALREADY_EXISTS = -5"
definition CONFIG_CHANGING :: cmd_result_code where [result_codes]: "CONFIG_CHANGING = -6"
definition SERVER_IS_JOINING :: cmd_result_code where [result_codes]: "SERVER_IS_JOINING = -7"
definition SERVER_NOT_FOUND :: cmd_result_code where [result_codes]: "SERVER_NOT_FOUND = -8"
definition CANNOT_REMOVE_LEADER :: cmd_result_code where
  [result_codes]: "CANNOT_REMOVE_LEADER = -9"
definition SERVER_IS_LEAVING :: cmd_result_code where [result_codes]: "SERVER_IS_LEAVING = -10"
definition TERM_MISMATCH :: cmd_result_code where [result_codes]: "TERM_MISMATCH = -11"
definition RESULT_NOT_EXIST_YET :: cmd_result_code where
  [result_codes]: "RESULT_NOT_EXIST_YET = -10000"
definition FAILED :: cmd_result_code where [result_codes]: "FAILED = -32768"

text \<open>\<open>Result<T>\<close> is \<open>folly::Expected<T, cmd_result_code>\<close>: the error is on the left.\<close>

type_synonym 'a result = "cmd_result_code + 'a"
type_synonym null_result = "unit result"

definition null_result_of :: "cmd_result_code \<Rightarrow> null_result" where
  "null_result_of c = (if c = OK then Inr () else Inl c)"

lemma null_result_of_OK [simp]: "null_result_of OK = Inr ()"
  by (simp add: null_result_of_def)

lemma null_result_of_Inr [simp]: "null_result_of c = Inr u \<longleftrightarrow> c = OK"
  by (simp add: null_result_of_def)

lemma null_result_of_Inl [simp]: "null_result_of c = Inl e \<longleftrightarrow> c \<noteq> OK \<and> e = c"
  by (auto simp: null_result_of_def)

section \<open>UUIDs as text\<close>

text \<open>
  \<open>boost::uuids::to_string\<close> and \<open>boost::uuids::string_generator\<close> are library code:
  they are an argument of the model. \<open>string_generator\<close> is \<open>None\<close> where the library
  throws \<open>std::runtime_error\<close>.
\<close>

record uuid_io =
  to_string :: "uuid \<Rightarrow> string"
  string_generator :: "string \<Rightarrow> uuid option"

text \<open>
  What the code relies on: a printed UUID parses back to itself, the empty string is no
  UUID, and a printed UUID is made of digits and dashes, so it holds no vertical bar.
\<close>

definition uuid_io_ok :: "uuid_io \<Rightarrow> bool" where
  "uuid_io_ok io \<longleftrightarrow>
     (\<forall>u. string_generator io (to_string io u) = Some u) \<and>
     string_generator io [] = None \<and>
     (\<forall>u. CHR ''|'' \<notin> set (to_string io u))"

lemma uuid_io_okD:
  assumes "uuid_io_ok io"
  shows uuid_parse_print: "string_generator io (to_string io u) = Some u"
    and uuid_parse_empty: "string_generator io [] = None"
    and uuid_no_bar: "CHR ''|'' \<notin> set (to_string io u)"
  using assms by (auto simp: uuid_io_ok_def)

text \<open>A concrete printing, one digit per bit, that satisfies the three laws.\<close>

definition bits_uuid_io :: uuid_io where
  "bits_uuid_io =
     \<lparr>to_string = (\<lambda>u. map (\<lambda>b. if b then CHR ''1'' else CHR ''0'') (map (bit u) [0..<128])),
      string_generator = (\<lambda>s. if length s = 128 \<and> set s \<subseteq> {CHR ''0'', CHR ''1''}
         then Some (horner_sum of_bool 2 (map (\<lambda>c. c = CHR ''1'') s)) else None)\<rparr>"

lemma bits_uuid_io_ok: "uuid_io_ok bits_uuid_io"
proof -
  have parse: "horner_sum of_bool 2 (map (bit u) [0..<128]) = u" for u :: uuid
    by (simp only: horner_sum_bit_eq_take_bit) (simp add: take_bit_word_eq_self)
  have digits: "map ((\<lambda>c. c = CHR ''1'') \<circ> ((\<lambda>b. if b then CHR ''1'' else CHR ''0'') \<circ> bit u))
      [0..<128] = map (bit u) [0..<128]" for u :: uuid
    by (rule map_cong) auto
  show ?thesis
    unfolding uuid_io_ok_def bits_uuid_io_def
    by (auto simp: digits parse simp del: upt_Suc split: if_splits)
qed

end
