(* ===== verification/Std_Map.thy ===== *)
theory Std_Map
  imports Prelude
begin

text \<open>
  \<open>std::map\<close>: the ordered associative container the sources use for the client cache,
  the state managers, the group types, the leadership flags and the in-memory log. A
  map is the list of its entries in iteration order; the invariant is that the keys
  ascend strictly. The contract of the container is a locale, interpreted on the list
  representation.
\<close>

section \<open>The container\<close>

type_synonym ('k, 'v) omap = "('k \<times> 'v) list"

text \<open>\<open>m.find(k)\<close>, with \<open>m.end()\<close> as \<open>None\<close>.\<close>

definition om_find :: "('k, 'v) omap \<Rightarrow> 'k \<Rightarrow> 'v option" where
  "om_find m k = map_of m k"

text \<open>\<open>m[k] = v\<close> and the write through an iterator, \<open>it->second = v\<close>.\<close>

fun om_assign :: "'k::linorder \<Rightarrow> 'v \<Rightarrow> ('k, 'v) omap \<Rightarrow> ('k, 'v) omap" where
  "om_assign k v [] = [(k, v)]"
| "om_assign k v ((k', v') # m) =
     (if k < k' then (k, v) # (k', v') # m
      else if k = k' then (k, v) # m
      else (k', v') # om_assign k v m)"

text \<open>\<open>m.emplace(k, v)\<close> and \<open>m.insert\<close>: no effect on a key that is there.\<close>

definition om_emplace :: "'k::linorder \<Rightarrow> 'v \<Rightarrow> ('k, 'v) omap \<Rightarrow> ('k, 'v) omap \<times> bool" where
  "om_emplace k v m = (if om_find m k = None then (om_assign k v m, True) else (m, False))"

definition om_erase :: "'k \<Rightarrow> ('k, 'v) omap \<Rightarrow> ('k, 'v) omap" where
  "om_erase k m = filter (\<lambda>e. fst e \<noteq> k) m"

text \<open>\<open>while (it != end()) it = m.erase(it)\<close> from \<open>it = m.lower_bound(k)\<close>.\<close>

definition om_erase_from :: "'k::linorder \<Rightarrow> ('k, 'v) omap \<Rightarrow> ('k, 'v) omap" where
  "om_erase_from k m = filter (\<lambda>e. fst e < k) m"

text \<open>\<open>m.upper_bound(k)\<close>: the first entry with a greater key.\<close>

fun om_upper_bound :: "'k::linorder \<Rightarrow> ('k, 'v) omap \<Rightarrow> ('k \<times> 'v) option" where
  "om_upper_bound k [] = None"
| "om_upper_bound k (e # m) = (if k < fst e then Some e else om_upper_bound k m)"

definition om_keys :: "('k, 'v) omap \<Rightarrow> 'k set" where
  "om_keys m = fst ` set m"

definition om_inv :: "('k::linorder, 'v) omap \<Rightarrow> bool" where
  "om_inv m \<longleftrightarrow> sorted_wrt (<) (map fst m)"

section \<open>Laws\<close>

lemma om_find_Nil [simp]: "om_find [] k = None"
  by (simp add: om_find_def)

lemma om_find_Cons [simp]: "om_find ((k, v) # m) k' = (if k = k' then Some v else om_find m k')"
  by (simp add: om_find_def)

lemma om_find_assign [simp]:
  "om_find (om_assign k v m) k' = (if k = k' then Some v else om_find m k')"
  by (induction k v m rule: om_assign.induct) auto

lemma om_find_erase [simp]:
  "om_find (om_erase k m) k' = (if k = k' then None else om_find m k')"
  by (induction m) (auto simp: om_erase_def)

lemma om_find_emplace [simp]:
  "om_find (fst (om_emplace k v m)) k' =
     (if k = k' then Some (case om_find m k of None \<Rightarrow> v | Some w \<Rightarrow> w) else om_find m k')"
  by (auto simp: om_emplace_def)

lemma om_emplace_happened [simp]: "snd (om_emplace k v m) \<longleftrightarrow> om_find m k = None"
  by (simp add: om_emplace_def)

lemma om_find_erase_from [simp]:
  "om_find (om_erase_from k m) k' = (if k' < k then om_find m k' else None)"
  by (induction m) (auto simp: om_erase_from_def)

lemma om_keys_iff: "k \<in> om_keys m \<longleftrightarrow> om_find m k \<noteq> None"
  by (induction m) (auto simp: om_keys_def)

lemma om_keys_find: "om_keys m = dom (om_find m)"
  by (auto simp: om_keys_iff)

lemma om_keys_simps [simp]:
  "om_keys [] = {}"
  "om_keys (om_assign k v m) = insert k (om_keys m)"
  "om_keys (om_erase k m) = om_keys m - {k}"
  by (auto simp: om_keys_find split: if_splits)

lemma om_keys_emplace [simp]: "om_keys (fst (om_emplace k v m)) = insert k (om_keys m)"
  by (auto simp: om_emplace_def om_keys_iff)

lemma om_keys_Cons: "om_keys ((k, v) # m) = insert k (om_keys m)"
  by (simp add: om_keys_def)

lemma om_inv_Nil [simp]: "om_inv []"
  by (simp add: om_inv_def)

lemma om_inv_Cons: "om_inv ((k, v) # m) \<longleftrightarrow> (\<forall>k' \<in> om_keys m. k < k') \<and> om_inv m"
  by (auto simp: om_inv_def om_keys_def)

lemma om_inv_assign [simp]: "om_inv m \<Longrightarrow> om_inv (om_assign k v m)"
  by (induction k v m rule: om_assign.induct) (auto simp: om_inv_Cons om_keys_Cons)

lemma om_inv_filter: "om_inv m \<Longrightarrow> om_inv (filter P m)"
  by (induction m) (auto simp: om_inv_Cons om_keys_def)

lemma om_inv_erase [simp]: "om_inv m \<Longrightarrow> om_inv (om_erase k m)"
  by (simp add: om_erase_def om_inv_filter)

lemma om_inv_erase_from [simp]: "om_inv m \<Longrightarrow> om_inv (om_erase_from k m)"
  by (simp add: om_erase_from_def om_inv_filter)

lemma om_inv_emplace [simp]: "om_inv m \<Longrightarrow> om_inv (fst (om_emplace k v m))"
  by (simp add: om_emplace_def)

lemma om_inv_distinct: "om_inv m \<Longrightarrow> distinct (map fst m)"
  by (simp add: om_inv_def strict_sorted_iff)

lemma om_size: "om_inv m \<Longrightarrow> length m = card (om_keys m)"
  using distinct_card [OF om_inv_distinct, of m] by (simp add: om_keys_def)

lemma om_upper_bound_Some:
  assumes "om_inv m" and "om_upper_bound k m = Some (k', v)"
  shows "k < k' \<and> om_find m k' = Some v \<and> (\<forall>j \<in> om_keys m. k < j \<longrightarrow> k' \<le> j)"
  using assms
proof (induction m)
  case Nil
  then show ?case by simp
next
  case (Cons e m)
  obtain j w where e: "e = (j, w)" by (cases e)
  with Cons show ?case
    by (cases "k < j") (auto simp: om_inv_Cons om_keys_def om_find_def dest: less_imp_le map_of_SomeD)
qed

lemma om_upper_bound_None: "om_upper_bound k m = None \<longleftrightarrow> (\<forall>j \<in> om_keys m. \<not> k < j)"
  by (induction m) (auto simp: om_keys_def)

lemma om_set_find: "om_inv m \<Longrightarrow> (k, v) \<in> set m \<longleftrightarrow> om_find m k = Some v"
  by (simp add: om_find_def om_inv_distinct)

lemma om_entries: "om_inv m \<Longrightarrow> m = map (\<lambda>k. (k, the (om_find m k))) (map fst m)"
  by (rule sym) (auto simp: om_find_def om_inv_distinct intro!: map_idI)

lemma om_ext:
  assumes "om_inv m" and "om_inv m'" and "\<And>k. om_find m k = om_find m' k"
  shows "m = m'"
proof -
  have "set m = set m'"
    using assms om_set_find [OF assms(1)] om_set_find [OF assms(2)] by auto
  then have "map fst m = map fst m'"
    using assms(1,2) by (intro sorted_distinct_set_unique)
      (auto simp: om_inv_def strict_sorted_iff)
  then show ?thesis
    using om_entries [OF assms(1)] om_entries [OF assms(2)] assms(3) by simp
qed

section \<open>The contract of the container\<close>

locale assoc_container =
  fixes empty :: 'm
    and find :: "'m \<Rightarrow> 'k::linorder \<Rightarrow> 'v option"
    and assign :: "'k \<Rightarrow> 'v \<Rightarrow> 'm \<Rightarrow> 'm"
    and erase :: "'k \<Rightarrow> 'm \<Rightarrow> 'm"
    and invar :: "'m \<Rightarrow> bool"
  assumes find_empty: "find empty k = None"
    and find_assign: "invar m \<Longrightarrow> find (assign k v m) k' = (if k = k' then Some v else find m k')"
    and find_erase: "invar m \<Longrightarrow> find (erase k m) k' = (if k = k' then None else find m k')"
    and invar_empty: "invar empty"
    and invar_assign: "invar m \<Longrightarrow> invar (assign k v m)"
    and invar_erase: "invar m \<Longrightarrow> invar (erase k m)"
    and find_inject: "invar m \<Longrightarrow> invar m' \<Longrightarrow> (\<And>k. find m k = find m' k) \<Longrightarrow> m = m'"
begin

lemma assign_assign: "invar m \<Longrightarrow> assign k v (assign k w m) = assign k v m"
  by (rule find_inject) (simp_all add: find_assign invar_assign)

lemma assign_commute:
  "invar m \<Longrightarrow> k \<noteq> j \<Longrightarrow> assign k v (assign j w m) = assign j w (assign k v m)"
  by (rule find_inject) (auto simp: find_assign invar_assign)

lemma erase_assign: "invar m \<Longrightarrow> find m k = None \<Longrightarrow> erase k (assign k v m) = m"
  by (rule find_inject) (auto simp: find_assign find_erase invar_assign invar_erase)

lemma erase_absent: "invar m \<Longrightarrow> find m k = None \<Longrightarrow> erase k m = m"
  by (rule find_inject) (auto simp: find_erase invar_erase)

lemma assign_same: "invar m \<Longrightarrow> find m k = Some v \<Longrightarrow> assign k v m = m"
  by (rule find_inject) (auto simp: find_assign invar_assign)

end

interpretation om: assoc_container "[]" om_find om_assign om_erase om_inv
  by unfold_locales (auto intro: om_ext)

end
