(* ===== verification/Wire.thy ===== *)
theory Wire
  imports Std_Map
begin

text \<open>
  The messages on the wire and their translation to and from the RAFT library's own
  messages: \<open>src/proto/utils.hpp\<close>, the conversions of \<open>src/proto/proto_service.cpp\<close>
  (server side) and \<open>src/proto/proto_mesg_factory.cpp\<close> (client side). The protobuf
  messages follow \<open>raft_types.proto\<close> and \<open>messaging_service.proto\<close> field by field.
\<close>

section \<open>Messages of the RAFT library\<close>

text \<open>
  The fields the code reads and writes through the getters and constructors of
  \<open>nuraft::log_entry\<close>, \<open>nuraft::req_msg\<close> and \<open>nuraft::resp_msg\<close>. A message type and a
  log value type are the bits of their enumeration; a buffer is its bytes.
\<close>

record log_entry =
  le_term :: u64
  le_buf :: buffer
  le_val_type :: u32
  le_timestamp :: u64

record msg_base =
  m_term :: u64
  m_type :: u32
  m_src :: i32
  m_dst :: i32

record req_msg = msg_base +
  last_log_term :: u64
  last_log_idx :: u64
  commit_idx :: u64
  log_entries :: "log_entry list"

record resp_msg = msg_base +
  next_idx :: u64
  accepted :: bool
  resp_ctx :: "buffer option"
  next_batch_size_hint :: u64
  result_code :: cmd_result_code

text \<open>\<open>grpc_resp\<close> of \<open>src/lib/client.hpp\<close>: a response and the address of the leader.\<close>

record grpc_resp = resp_msg +
  dest_addr :: string

section \<open>Protocol buffers\<close>

record LogEntry =
  pl_term :: u64
  pl_type :: u32
  pl_buffer :: buffer
  pl_timestamp :: u64

record RCMsgBase =
  pb_term :: u64
  pb_type :: u32
  pb_src :: i32
  pb_dest :: i32

record RCRequest =
  pq_last_log_term :: u64
  pq_last_log_index :: u64
  pq_commit_index :: u64
  pq_log_entries :: "LogEntry list"

record RCResponse =
  pr_next_index :: u64
  pr_accepted :: bool
  pr_context :: buffer
  pr_dest_addr :: string
  pr_result_code :: i32
  pr_batch_size_hint :: u64

text \<open>The \<open>oneof req_resp\<close> of a \<open>RaftMessage\<close>, which may also be unset.\<close>

datatype req_resp = Rc_request RCRequest | Rc_response RCResponse | Req_resp_not_set

record RaftMessage =
  rm_base :: RCMsgBase
  rm_req_resp :: req_resp

record RaftGroupMsg =
  gm_group_id :: string
  gm_msg :: RaftMessage
  gm_intended_addr :: string
  gm_group_type :: string

text \<open>Default instances: what an absent field reads as.\<close>

definition RCMsgBase_default :: RCMsgBase where
  "RCMsgBase_default = \<lparr>pb_term = 0, pb_type = 0, pb_src = 0, pb_dest = 0\<rparr>"

definition RaftMessage_default :: RaftMessage where
  "RaftMessage_default = \<lparr>rm_base = RCMsgBase_default, rm_req_resp = Req_resp_not_set\<rparr>"

definition RaftGroupMsg_default :: RaftGroupMsg where
  "RaftGroupMsg_default =
     \<lparr>gm_group_id = [], gm_msg = RaftMessage_default, gm_intended_addr = [], gm_group_type = []\<rparr>"

definition has_rc_response :: "RaftMessage \<Rightarrow> bool" where
  "has_rc_response m = (case rm_req_resp m of Rc_response _ \<Rightarrow> True | _ \<Rightarrow> False)"

section \<open>gRPC status\<close>

datatype StatusCode = S_OK | S_CANCELLED | S_UNKNOWN | S_INVALID_ARGUMENT | S_DEADLINE_EXCEEDED
  | S_NOT_FOUND | S_ALREADY_EXISTS | S_PERMISSION_DENIED | S_UNAUTHENTICATED
  | S_RESOURCE_EXHAUSTED | S_FAILED_PRECONDITION | S_ABORTED | S_OUT_OF_RANGE
  | S_UNIMPLEMENTED | S_INTERNAL | S_UNAVAILABLE | S_DATA_LOSS

record grpc_status =
  error_code :: StatusCode
  error_message :: string

definition status_ok :: "grpc_status \<Rightarrow> bool" where
  "status_ok s \<longleftrightarrow> error_code s = S_OK"

definition Status_OK :: grpc_status where
  "Status_OK = \<lparr>error_code = S_OK, error_message = []\<rparr>"

text \<open>\<open>grpc_status_to_nuraft_code\<close>, case by case.\<close>

definition grpc_status_to_nuraft_code :: "grpc_status \<Rightarrow> cmd_result_code" where
  "grpc_status_to_nuraft_code s =
     (if status_ok s then OK
      else case error_code s of
        S_DEADLINE_EXCEEDED \<Rightarrow> TIMEOUT
      | S_UNAVAILABLE \<Rightarrow> SERVER_NOT_FOUND
      | S_NOT_FOUND \<Rightarrow> SERVER_NOT_FOUND
      | S_CANCELLED \<Rightarrow> CANCELLED
      | S_ABORTED \<Rightarrow> CANCELLED
      | S_FAILED_PRECONDITION \<Rightarrow> TERM_MISMATCH
      | S_ALREADY_EXISTS \<Rightarrow> SERVER_ALREADY_EXISTS
      | S_INVALID_ARGUMENT \<Rightarrow> BAD_REQUEST
      | S_UNIMPLEMENTED \<Rightarrow> BAD_REQUEST
      | S_UNAUTHENTICATED \<Rightarrow> BAD_REQUEST
      | S_PERMISSION_DENIED \<Rightarrow> BAD_REQUEST
      | S_RESOURCE_EXHAUSTED \<Rightarrow> BAD_REQUEST
      | S_OUT_OF_RANGE \<Rightarrow> BAD_REQUEST
      | S_DATA_LOSS \<Rightarrow> FAILED
      | _ \<Rightarrow> FAILED)"

section \<open>Conversions\<close>

definition fromBaseRequest :: "'a msg_base_scheme \<Rightarrow> RCMsgBase" where
  "fromBaseRequest rcbase =
     \<lparr>pb_term = m_term rcbase, pb_type = m_type rcbase,
      pb_src = m_src rcbase, pb_dest = m_dst rcbase\<rparr>"

definition fromLogEntry :: "log_entry \<Rightarrow> LogEntry" where
  "fromLogEntry e =
     \<lparr>pl_term = le_term e, pl_type = le_val_type e, pl_buffer = le_buf e,
      pl_timestamp = le_timestamp e\<rparr>"

definition fromRCRequest :: "req_msg \<Rightarrow> RCRequest" where
  "fromRCRequest rcmsg =
     \<lparr>pq_last_log_term = last_log_term rcmsg, pq_last_log_index = last_log_idx rcmsg,
      pq_commit_index = commit_idx rcmsg,
      pq_log_entries = map fromLogEntry (log_entries rcmsg)\<rparr>"

text \<open>The loop body of \<open>toRequest\<close>: the entry copied out of the protobuf message.\<close>

definition toLogEntry :: "LogEntry \<Rightarrow> log_entry" where
  "toLogEntry l =
     \<lparr>le_term = pl_term l, le_buf = pl_buffer l, le_val_type = pl_type l,
      le_timestamp = pl_timestamp l\<rparr>"

text \<open>\<open>toRequest\<close> asserts that the message holds a request.\<close>

definition toRequest :: "RaftMessage \<Rightarrow> req_msg run" where
  "toRequest raft_msg =
     (case rm_req_resp raft_msg of
        Rc_request req \<Rightarrow>
          (let base = rm_base raft_msg in
           Ret \<lparr>m_term = pb_term base, m_type = pb_type base, m_src = pb_src base,
                m_dst = pb_dest base, last_log_term = pq_last_log_term req,
                last_log_idx = pq_last_log_index req, commit_idx = pq_commit_index req,
                log_entries = map toLogEntry (pq_log_entries req)\<rparr>)
      | _ \<Rightarrow> Crash)"

definition fromRCResponse :: "'a resp_msg_scheme \<Rightarrow> RCResponse" where
  "fromRCResponse rcmsg =
     \<lparr>pr_next_index = next_idx rcmsg, pr_accepted = accepted rcmsg,
      pr_context = (case resp_ctx rcmsg of None \<Rightarrow> [] | Some ctx \<Rightarrow> ctx),
      pr_dest_addr = [], pr_result_code = 0 - result_code rcmsg,
      pr_batch_size_hint = next_batch_size_hint rcmsg\<rparr>"

text \<open>
  \<open>toResponse\<close> on the client: null without a response part; the leader's address is
  read only under \<open>NOT_LEADER\<close>, the context only when it is not empty.
\<close>

definition toResponse :: "RaftMessage \<Rightarrow> grpc_resp option" where
  "toResponse raft_msg =
     (case rm_req_resp raft_msg of
        Rc_response resp \<Rightarrow>
          (let base = rm_base raft_msg; code = 0 - pr_result_code resp in
           Some \<lparr>m_term = pb_term base, m_type = pb_type base, m_src = pb_src base,
                 m_dst = pb_dest base, next_idx = pr_next_index resp,
                 accepted = pr_accepted resp,
                 resp_ctx = (if 0 < length (pr_context resp) then Some (pr_context resp) else None),
                 next_batch_size_hint = pr_batch_size_hint resp, result_code = code,
                 dest_addr = (if code = NOT_LEADER then pr_dest_addr resp else [])\<rparr>)
      | _ \<Rightarrow> None)"

section \<open>Sending a request, completing it\<close>

text \<open>The \<open>RaftMessage\<close> that \<open>grpc_base_client::send\<close> builds.\<close>

definition grpc_request :: "req_msg \<Rightarrow> RaftMessage" where
  "grpc_request req =
     \<lparr>rm_base = fromBaseRequest req, rm_req_resp = Rc_request (fromRCRequest req)\<rparr>"

text \<open>The envelope \<open>grpc_proto_client::send_raft\<close> puts around it.\<close>

definition group_msg ::
  "uuid_io \<Rightarrow> string \<Rightarrow> group_id \<Rightarrow> group_type \<Rightarrow> RaftMessage \<Rightarrow> RaftGroupMsg" where
  "group_msg io client_addr gid gtype message =
     \<lparr>gm_group_id = to_string io gid, gm_msg = message, gm_intended_addr = client_addr,
      gm_group_type = gtype\<rparr>"

text \<open>
  The completion of \<open>grpc_base_client::send\<close>: the response pointer and the exception
  pointer handed to the RAFT library's handler.
\<close>

record rpc_exception =
  ex_what :: string
  ex_req :: req_msg

definition send_complete ::
  "req_msg \<Rightarrow> RaftMessage \<Rightarrow> grpc_status \<Rightarrow> grpc_resp option \<times> rpc_exception option" where
  "send_complete req response status =
     (if status_ok status then
        (case toResponse response of
           None \<Rightarrow> (None, Some \<lparr>ex_what = ''missing response'', ex_req = req\<rparr>)
         | Some resp \<Rightarrow> (Some resp, None))
      else (None, Some \<lparr>ex_what = error_message status, ex_req = req\<rparr>))"

lemmas wire_defs = fromBaseRequest_def fromLogEntry_def fromRCRequest_def toLogEntry_def
  toRequest_def fromRCResponse_def toResponse_def grpc_request_def group_msg_def

section \<open>Facts\<close>

lemma toLogEntry_fromLogEntry [simp]: "toLogEntry (fromLogEntry e) = e"
  by (simp add: toLogEntry_def fromLogEntry_def)

lemma toRequest_grpc_request [simp]: "toRequest (grpc_request req) = Ret req"
  by (simp add: grpc_request_def toRequest_def fromBaseRequest_def fromRCRequest_def Let_def
      map_idI comp_def)

lemma toRequest_Ret_iff:
  "(\<exists>r. toRequest m = Ret r) \<longleftrightarrow> (\<exists>q. rm_req_resp m = Rc_request q)"
  by (cases "rm_req_resp m") (auto simp: toRequest_def Let_def)

lemma toRequest_not_thrown [simp]: "toRequest m \<noteq> Runtime_error e"
  by (simp add: toRequest_def Let_def split: req_resp.splits)

lemma toRequest_fields:
  "toRequest m = Ret r \<Longrightarrow> m_type r = pb_type (rm_base m) \<and> m_src r = pb_src (rm_base m)
     \<and> m_dst r = pb_dest (rm_base m) \<and> m_term r = pb_term (rm_base m)"
  by (auto simp: toRequest_def Let_def split: req_resp.splits)

lemma toResponse_None_iff: "toResponse m = None \<longleftrightarrow> \<not> has_rc_response m"
  by (simp add: toResponse_def has_rc_response_def Let_def split: req_resp.splits)

lemma grpc_status_to_nuraft_code_OK [simp]:
  "grpc_status_to_nuraft_code s = OK \<longleftrightarrow> status_ok s"
  by (cases "error_code s") (simp_all add: grpc_status_to_nuraft_code_def result_codes)

lemma send_complete_one_pointer:
  "(fst (send_complete req response status) = None) \<noteq> (snd (send_complete req response status) = None)"
  by (simp add: send_complete_def split: option.split)

end
