(* ===== verification/Data_Service.thy ===== *)
theory Data_Service
  imports Std_Map
begin

text \<open>
  The data channel: \<open>src/lib/data_service_grpc.cpp\<close> and \<open>src/lib/common_lib.hpp\<close>.
  Handlers are kept per (request name, group) under one concatenated method name and
  are registered with the gRPC server when they are bound and again, all of them, each
  time the server is restarted.
\<close>

section \<open>Method names\<close>

definition get_generic_method_name :: "uuid_io \<Rightarrow> string \<Rightarrow> group_id \<Rightarrow> string" where
  "get_generic_method_name io request_name gid = request_name @ ''|'' @ to_string io gid"

lemma append_bar_inject:
  assumes "xs @ c # ys = xs' @ c # ys'" and "c \<notin> set ys" and "c \<notin> set ys'"
  shows "xs = xs' \<and> ys = ys'"
proof -
  have split: "rev (takeWhile (\<lambda>d. d \<noteq> c) (rev (zs @ c # ws))) = ws" if "c \<notin> set ws" for zs ws
  proof -
    have "rev (zs @ c # ws) = rev ws @ c # rev zs" by simp
    moreover have "takeWhile (\<lambda>d. d \<noteq> c) (rev ws @ c # rev zs) = rev ws"
      using that by (subst takeWhile_append2) auto
    ultimately show ?thesis by simp
  qed
  have "ys = ys'" using split [OF assms(2), of xs] split [OF assms(3), of xs'] assms(1) by simp
  with assms(1) show ?thesis by simp
qed

lemma get_generic_method_name_inject:
  assumes "uuid_io_ok io"
  shows "get_generic_method_name io n g = get_generic_method_name io n' g' \<longleftrightarrow> n = n' \<and> g = g'"
proof
  assume "get_generic_method_name io n g = get_generic_method_name io n' g'"
  then have "n = n' \<and> to_string io g = to_string io g'"
    unfolding get_generic_method_name_def
    using uuid_no_bar [OF assms] by (intro append_bar_inject) auto
  then show "n = n' \<and> g = g'"
    by (metis assms option.inject uuid_parse_print)
qed simp

section \<open>The gRPC server seen by the service\<close>

text \<open>
  \<open>sisl::GrpcServer\<close> is library code. Its state is what has been registered with it;
  whether a registration is accepted is an argument of the model.
\<close>

record grpc_env =
  register_async_generic_ok :: bool
  register_generic_rpc_ok :: "string \<Rightarrow> bool"
  register_async_service_ok :: bool
  register_rpc_ok :: bool

record 'h grpc_srv =
  gs_generic_service :: bool
  gs_async_service :: bool
  gs_running :: bool
  gs_raft_step :: bool
  gs_rpcs :: "(string \<times> 'h) list"

definition grpc_srv_new :: "'h grpc_srv" where
  "grpc_srv_new = \<lparr>gs_generic_service = False, gs_async_service = False, gs_running = False,
     gs_raft_step = False, gs_rpcs = []\<rparr>"

definition register_generic_rpc ::
  "grpc_env \<Rightarrow> string \<Rightarrow> 'h \<Rightarrow> 'h grpc_srv \<Rightarrow> bool \<times> 'h grpc_srv" where
  "register_generic_rpc env name cb srv =
     (if register_generic_rpc_ok env name then (True, srv\<lparr>gs_rpcs := gs_rpcs srv @ [(name, cb)]\<rparr>)
      else (False, srv))"

section \<open>The service\<close>

text \<open>
  The state of \<open>data_service_grpc\<close>. The request map is the list of its entries in
  iteration order. The server pointer is not initialised by the constructor:
  \<open>ds_server_set\<close> says whether \<open>set_grpc_server\<close> has been called; the server itself is
  passed to the operations.
\<close>

record 'h data_service =
  ds_request_map :: "(string \<times> 'h) list"
  ds_server_set :: bool

definition data_service_new :: "'h data_service" where
  "data_service_new = \<lparr>ds_request_map = [], ds_server_set = False\<rparr>"

definition ds_set_grpc_server :: "'h data_service \<Rightarrow> 'h data_service" where
  "ds_set_grpc_server ds = ds\<lparr>ds_server_set := True\<rparr>"

definition ds_associate :: "grpc_env \<Rightarrow> 'h grpc_srv \<Rightarrow> 'h grpc_srv run" where
  "ds_associate env srv =
     (if register_async_generic_ok env then Ret (srv\<lparr>gs_generic_service := True\<rparr>)
      else Runtime_error ''Could not register generic service with gRPC!'')"

text \<open>\<open>bind()\<close>: the loop over the request map stops at the first refusal by throwing.\<close>

definition bind_error :: "string \<Rightarrow> string" where
  "bind_error request_name = ''Could not register generic rpc '' @ request_name @ '' with gRPC!''"

fun ds_bind_loop :: "grpc_env \<Rightarrow> (string \<times> 'h) list \<Rightarrow> 'h grpc_srv \<Rightarrow> unit run \<times> 'h grpc_srv" where
  "ds_bind_loop env [] srv = (Ret (), srv)"
| "ds_bind_loop env ((request_name, cb) # rest) srv =
     (case register_generic_rpc env request_name cb srv of
        (True, srv') \<Rightarrow> ds_bind_loop env rest srv'
      | (False, srv') \<Rightarrow> (Runtime_error (bind_error request_name), srv'))"

definition ds_bind_all :: "grpc_env \<Rightarrow> 'h data_service \<Rightarrow> 'h grpc_srv \<Rightarrow> unit run \<times> 'h grpc_srv" where
  "ds_bind_all env ds srv = ds_bind_loop env (ds_request_map ds) srv"

text \<open>
  \<open>bind(request_name, group_id, request_cb)\<close>: a null handler is refused, a name that is
  bound is refused, a new name is put in the map and registered. The map keeps the
  entry even when the registration throws.
\<close>

definition ds_bind ::
  "uuid_io \<Rightarrow> grpc_env \<Rightarrow> string \<Rightarrow> group_id \<Rightarrow> 'h option \<Rightarrow> 'h data_service \<times> 'h grpc_srv
   \<Rightarrow> bool run \<times> 'h data_service \<times> 'h grpc_srv" where
  "ds_bind io env request_name gid request_cb st =
     (let (ds, srv) = st; name = get_generic_method_name io request_name gid in
      if \<not> ds_server_set ds then (Crash, ds, srv)
      else case request_cb of
        None \<Rightarrow> (Ret False, ds, srv)
      | Some cb \<Rightarrow>
          (if map_of (ds_request_map ds) name = None then
             (let ds' = ds\<lparr>ds_request_map := ds_request_map ds @ [(name, cb)]\<rparr> in
              case register_generic_rpc env name cb srv of
                (True, srv') \<Rightarrow> (Ret True, ds', srv')
              | (False, srv') \<Rightarrow> (Runtime_error (bind_error request_name), ds', srv'))
           else (Ret False, ds, srv)))"

text \<open>
  The callback that is registered: it calls the handler and returns false, because the call
  is finished by the handler's response. A handler is a function on the call.
\<close>

definition generic_handler_cb :: "('rpc \<Rightarrow> 'rpc run) \<Rightarrow> 'rpc \<Rightarrow> ('rpc \<times> bool) run" where
  "generic_handler_cb request_cb rpc_data = run_bind (request_cb rpc_data) (\<lambda>d. Ret (d, False))"

section \<open>Facts\<close>

definition ds_inv :: "'h data_service \<Rightarrow> bool" where
  "ds_inv ds \<longleftrightarrow> distinct (map fst (ds_request_map ds))"

lemma ds_inv_new [simp]: "ds_inv data_service_new"
  by (simp add: ds_inv_def data_service_new_def)

lemma ds_bind_inv:
  assumes "ds_bind io env n g cb (ds, srv) = (r, ds', srv')" and "ds_inv ds"
  shows "ds_inv ds'"
proof -
  have "get_generic_method_name io n g \<notin> fst ` set (ds_request_map ds)"
    if "map_of (ds_request_map ds) (get_generic_method_name io n g) = None"
    using that by (simp add: map_of_eq_None_iff)
  with assms show ?thesis
    by (auto simp: ds_bind_def ds_inv_def Let_def split: if_splits option.splits prod.splits bool.splits)
qed

lemma ds_bind_loop_rpcs:
  "ds_bind_loop env entries srv = (Ret (), srv') \<Longrightarrow> srv' = srv\<lparr>gs_rpcs := gs_rpcs srv @ entries\<rparr>"
  by (induction env entries srv rule: ds_bind_loop.induct)
    (auto simp: register_generic_rpc_def split: if_splits)

lemma ds_bind_loop_Ret_iff:
  "fst (ds_bind_loop env entries srv) = Ret () \<longleftrightarrow>
     (\<forall>e \<in> set entries. register_generic_rpc_ok env (fst e))"
  by (induction env entries srv rule: ds_bind_loop.induct)
    (auto simp: register_generic_rpc_def)

lemma ds_bind_loop_no_crash [simp]: "fst (ds_bind_loop env entries srv) \<noteq> Crash"
  by (induction env entries srv rule: ds_bind_loop.induct)
    (auto simp: register_generic_rpc_def)

section \<open>Properties\<close>

text \<open>
  Handlers are kept apart by request name and group. A successful \<open>bind\<close> adds exactly
  the handler of its own (name, group) pair to the request map and to the gRPC server:
  whatever two pairs differ, even when the names contain the separator, their method names
  differ and the other pair's handler stays. A second \<open>bind\<close> of the pair is refused and
  changes nothing.
\<close>

lemma bind_separates_groups:
  assumes "uuid_io_ok io" and "ds_bind io env rn g (Some cb) (ds, srv) = (Ret True, ds', srv')"
  shows "map_of (ds_request_map ds') (get_generic_method_name io rn g) = Some cb
    \<and> (\<forall>rn' g'. (rn', g') \<noteq> (rn, g) \<longrightarrow>
         map_of (ds_request_map ds') (get_generic_method_name io rn' g') =
         map_of (ds_request_map ds) (get_generic_method_name io rn' g'))
    \<and> srv' = srv\<lparr>gs_rpcs := gs_rpcs srv @ [(get_generic_method_name io rn g, cb)]\<rparr>
    \<and> (\<forall>cb' srv''. ds_bind io env rn g cb' (ds', srv'') = (Ret False, ds', srv''))"
proof -
  have set: "ds_server_set ds" and new: "map_of (ds_request_map ds) (get_generic_method_name io rn g) = None"
    and res: "ds' = ds\<lparr>ds_request_map := ds_request_map ds @ [(get_generic_method_name io rn g, cb)]\<rparr>"
      "srv' = srv\<lparr>gs_rpcs := gs_rpcs srv @ [(get_generic_method_name io rn g, cb)]\<rparr>"
    using assms(2)
    by (auto simp: ds_bind_def register_generic_rpc_def Let_def split: if_splits)
  have "map_of (ds_request_map ds') (get_generic_method_name io rn g) = Some cb"
    using new by (simp add: res(1) map_add_def)
  moreover have "ds_bind io env rn g cb' (ds', srv'') = (Ret False, ds', srv'')" for cb' srv''
    using set new by (simp add: ds_bind_def res(1) Let_def map_add_def split: option.splits)
  ultimately show ?thesis
    using get_generic_method_name_inject [OF assms(1)] by (auto simp: res map_add_def split: option.splits)
qed

lemma bind_separates_groups_witness:
  "map_of (ds_request_map (fst (snd (ds_bind bits_uuid_io \<lparr>register_async_generic_ok = True,
      register_generic_rpc_ok = (\<lambda>_. True), register_async_service_ok = True, register_rpc_ok = True\<rparr>
      ''put'' 3 (Some (8 :: nat)) (ds_set_grpc_server data_service_new, grpc_srv_new)))))
    (get_generic_method_name bits_uuid_io ''put'' 3) = Some 8"
proof -
  let ?r = "ds_bind bits_uuid_io \<lparr>register_async_generic_ok = True,
      register_generic_rpc_ok = (\<lambda>_. True), register_async_service_ok = True, register_rpc_ok = True\<rparr>
      ''put'' 3 (Some (8 :: nat)) (ds_set_grpc_server data_service_new, grpc_srv_new)"
  have "?r = (Ret True, fst (snd ?r), snd (snd ?r))"
    by (simp add: ds_bind_def ds_set_grpc_server_def data_service_new_def register_generic_rpc_def Let_def)
  from bind_separates_groups [OF bits_uuid_io_ok this] show ?thesis by blast
qed

end
