(* ===== verification/Raft_Api.thy ===== *)
theory Raft_Api
  imports Wire Data_Service
begin

text \<open>
  What the service layer sees of the code it is linked with: the RAFT server of
  \<open>libnuraft\<close> and the application. Both are records of functions, passed to every
  definition that calls them; nothing is assumed about them here. The thin wrapper
  \<open>grpc_server\<close> (\<open>src/lib/grpc_server.cpp\<close>) around a RAFT server is modelled on top.
\<close>

section \<open>The RAFT server\<close>

record srv_config =
  sc_id :: i32
  sc_dc_id :: i32
  sc_endpoint :: string
  sc_aux :: string
  sc_learner :: bool
  sc_priority :: i32
  sc_new_joiner :: bool

text \<open>A \<open>nuraft::cmd_result\<close>: the code it has now and the code it completes with.\<close>

record cmd_result =
  cr_code :: cmd_result_code
  cr_final_code :: cmd_result_code

record raft_peer_info =
  pi_id :: i32
  pi_last_log_idx :: u64
  pi_last_succ_resp_us :: u64

text \<open>
  The context a RAFT server is built from, as far as the layer sets it: the state
  manager, the parameters of the group type, the group and type its client factory was
  made for, the metrics object and the group its listener reports to.
\<close>

record 'p raft_context =
  cx_state_mgr :: nat
  cx_params :: 'p
  cx_group :: group_id
  cx_group_type :: group_type
  cx_metrics :: "nat option"
  cx_listener :: "group_id option"

text \<open>
  The operations of \<open>nuraft::raft_server\<close> the layer calls. \<open>api_shutdown_releases\<close> says
  that \<open>shutdown()\<close> drops the server's reference to its listener,
  \<open>api_dtor_releases\<close> that destroying a server that never was shut down does.
\<close>

record ('p, 'srv) raft_api =
  api_new_server :: "'p raft_context \<Rightarrow> 'srv"
  api_process_req :: "req_msg \<Rightarrow> 'srv \<Rightarrow> resp_msg option run \<times> 'srv"
  api_add_srv :: "srv_config \<Rightarrow> 'srv \<Rightarrow> cmd_result run \<times> 'srv"
  api_remove_srv :: "i32 \<Rightarrow> 'srv \<Rightarrow> cmd_result run \<times> 'srv"
  api_append_entries :: "buffer list \<Rightarrow> 'srv \<Rightarrow> cmd_result run \<times> 'srv"
  api_request_leadership :: "'srv \<Rightarrow> bool run \<times> 'srv"
  api_yield_leadership :: "bool \<Rightarrow> i32 \<Rightarrow> 'srv \<Rightarrow> 'srv"
  api_get_srv_config_all :: "'srv \<Rightarrow> srv_config list run"
  api_get_srv_config :: "'srv \<Rightarrow> i32 \<Rightarrow> srv_config option"
  api_config_servers :: "'srv \<Rightarrow> srv_config list"
  api_config_server :: "'srv \<Rightarrow> i32 \<Rightarrow> srv_config option"
  api_get_leader :: "'srv \<Rightarrow> i32"
  api_is_leader :: "'srv \<Rightarrow> bool"
  api_get_id :: "'srv \<Rightarrow> i32"
  api_get_last_log_idx :: "'srv \<Rightarrow> u64"
  api_get_peer_info_all :: "'srv \<Rightarrow> raft_peer_info list"
  api_stop_server :: "'srv \<Rightarrow> 'srv"
  api_shutdown :: "'srv \<Rightarrow> 'srv"
  api_shutdown_releases :: "'srv \<Rightarrow> bool"
  api_dtor_releases :: bool

text \<open>
  The enumerators of \<open>nuraft::msg_type\<close> the layer names. Their numbers are the
  library's; what the layer relies on is that they differ.
\<close>

record msg_types =
  append_entries_request :: u32
  install_snapshot_request :: u32
  join_cluster_request :: u32
  add_server_request :: u32
  remove_server_request :: u32
  client_request :: u32

definition msg_types_ok :: "msg_types \<Rightarrow> bool" where
  "msg_types_ok mt \<longleftrightarrow>
     distinct [append_entries_request mt, install_snapshot_request mt, join_cluster_request mt,
       add_server_request mt, remove_server_request mt, client_request mt]"

section \<open>The wrapper around it\<close>

definition grpc_server_add_srv ::
  "('p, 'srv) raft_api \<Rightarrow> srv_config \<Rightarrow> 'srv \<Rightarrow> cmd_result run \<times> 'srv" where
  "grpc_server_add_srv api cfg srv = api_add_srv api cfg srv"

definition grpc_server_yield_leadership ::
  "('p, 'srv) raft_api \<Rightarrow> bool \<Rightarrow> 'srv \<Rightarrow> 'srv" where
  "grpc_server_yield_leadership api immediate srv = api_yield_leadership api immediate (-1) srv"

definition grpc_server_request_leadership ::
  "('p, 'srv) raft_api \<Rightarrow> 'srv \<Rightarrow> bool run \<times> 'srv" where
  "grpc_server_request_leadership api srv = api_request_leadership api srv"

definition grpc_server_get_srv_config_all ::
  "('p, 'srv) raft_api \<Rightarrow> srv_config list \<Rightarrow> 'srv \<Rightarrow> srv_config list run" where
  "grpc_server_get_srv_config_all api configs_out srv =
     run_bind (api_get_srv_config_all api srv) (\<lambda>cs. Ret (configs_out @ cs))"

definition grpc_server_rem_srv ::
  "('p, 'srv) raft_api \<Rightarrow> i32 \<Rightarrow> 'srv \<Rightarrow> cmd_result run \<times> 'srv" where
  "grpc_server_rem_srv api member_id srv = api_remove_srv api member_id srv"

definition grpc_server_append_entries ::
  "('p, 'srv) raft_api \<Rightarrow> buffer list \<Rightarrow> 'srv \<Rightarrow> cmd_result run \<times> 'srv" where
  "grpc_server_append_entries api logs srv = api_append_entries api logs srv"

section \<open>State managers and the application\<close>

text \<open>
  A \<open>mesg_state_mgr\<close> belongs to the application. The layer calls its virtual methods,
  which is recorded in order, sets its back pointer to the manager and gives it the
  context of the data channel: the RAFT server and the group of the client factory.
\<close>

datatype sm_call = Become_ready | Get_state_machine | Set_manager_impl | Leave | Permanent_destroy

record mesg_state_mgr =
  sm_calls :: "sm_call list"
  sm_manager_set :: bool
  sm_repl_ctx :: "(nat \<times> group_id \<times> group_type) option"

definition mesg_state_mgr_new :: mesg_state_mgr where
  "mesg_state_mgr_new = \<lparr>sm_calls = [], sm_manager_set = False, sm_repl_ctx = None\<rparr>"

record application =
  app_alive :: bool
  app_create_state_mgr :: "i32 \<Rightarrow> group_id \<Rightarrow> mesg_state_mgr option"
  app_lookup_peer :: "peer_id \<Rightarrow> string"

text \<open>\<open>mesg_state_mgr::make_repl_ctx\<close>.\<close>

definition make_repl_ctx :: "nat \<Rightarrow> group_id \<times> group_type \<Rightarrow> mesg_state_mgr \<Rightarrow> mesg_state_mgr" where
  "make_repl_ctx server cli_factory sm = sm\<lparr>sm_repl_ctx := Some (server, cli_factory)\<rparr>"

end
