(* ===== verification/Client_Factory.thy ===== *)
theory Client_Factory
  imports Std_Map
begin

text \<open>
  The client cache: \<open>grpc_factory\<close> (\<open>src/lib/factory.cpp\<close>) with its two subclasses of
  \<open>src/proto/proto_mesg_factory.cpp\<close>. \<open>group_factory\<close>, one per process, keeps one
  connection (\<open>messaging_client\<close>) per peer; \<open>mesg_factory\<close>, one per RAFT group, keeps
  one wrapper (\<open>grpc_proto_client\<close>) per peer around the shared connection. The objects
  are cells of a store, so that sharing and the identity of a client are explicit.
\<close>

section \<open>Client objects\<close>

datatype client_obj =
    Messaging_client (obj_id: u64) (mc_addr: string) (mc_bad_service: u32)
  | Proto_client (obj_id: u64) (pc_client: "nat option") (pc_client_addr: string)
      (pc_group: group_id) (pc_group_type: group_type)
  | Error_client (obj_id: u64)

text \<open>
  The store, and the static \<open>_client_counter\<close> that \<open>grpc_base_client()\<close> takes its id
  from and increments.
\<close>

record client_heap =
  h_counter :: u64
  h_objs :: "client_obj list"

definition new_obj :: "(u64 \<Rightarrow> client_obj) \<Rightarrow> client_heap \<Rightarrow> nat \<times> client_heap" where
  "new_obj mk h =
     (length (h_objs h), \<lparr>h_counter = h_counter h + 1, h_objs = h_objs h @ [mk (h_counter h)]\<rparr>)"

definition upd_obj :: "nat \<Rightarrow> client_obj \<Rightarrow> client_heap \<Rightarrow> client_heap" where
  "upd_obj a ob h = h\<lparr>h_objs := (h_objs h)[a := ob]\<rparr>"

definition obj_at :: "client_heap \<Rightarrow> nat \<Rightarrow> client_obj option" where
  "obj_at h a = (if a < length (h_objs h) then Some (h_objs h ! a) else None)"

definition is_messaging_at :: "client_heap \<Rightarrow> nat \<Rightarrow> bool" where
  "is_messaging_at h a = (case obj_at h a of Some (Messaging_client _ _ _) \<Rightarrow> True | _ \<Rightarrow> False)"

definition is_error_at :: "client_heap \<Rightarrow> nat \<Rightarrow> bool" where
  "is_error_at h a = (case obj_at h a of Some (Error_client _) \<Rightarrow> True | _ \<Rightarrow> False)"

section \<open>The common base class\<close>

type_synonym clients = "(peer_id, nat option) omap"

text \<open>
  \<open>grpc_factory::create_or_reinit_client(peer, force)\<close>. The two virtual functions get the
  pointer in the map slot by reference and return a code; a failure gives the caller an
  error client, and a slot left null is erased. \<open>mk_error\<close> makes the error client.
\<close>

definition create_or_reinit_client ::
  "(peer_id \<Rightarrow> nat option \<Rightarrow> 's \<Rightarrow> (cmd_result_code \<times> nat option \<times> 's) run)
   \<Rightarrow> (peer_id \<Rightarrow> nat option \<Rightarrow> 's \<Rightarrow> (cmd_result_code \<times> nat option \<times> 's) run)
   \<Rightarrow> ('s \<Rightarrow> nat \<times> 's) \<Rightarrow> peer_id \<Rightarrow> bool \<Rightarrow> clients \<times> 's \<Rightarrow> (nat option \<times> clients \<times> 's) run" where
  "create_or_reinit_client create reinit mk_error client force_recreate st =
     (let (cl, s) = st; (cl1, happened) = om_emplace client None cl;
          slot = the (om_find cl1 client); do_create = happened \<or> force_recreate in
      run_bind (if do_create then create client slot s else reinit client slot s)
        (\<lambda>(err, slot', s1).
           let (new_client, s2) =
                 (if err \<noteq> OK then let (e, s') = mk_error s1 in (Some e, s') else (slot', s1));
               cl2 = om_assign client slot' cl1;
               cl3 = (if slot' = None then om_erase client cl2 else cl2)
           in Ret (new_client, cl3, s2)))"

text \<open>\<open>create_client(string)\<close> and \<open>create_or_reinit_client(string)\<close>: null for no UUID.\<close>

definition client_by_name ::
  "uuid_io \<Rightarrow> (peer_id \<Rightarrow> bool \<Rightarrow> clients \<times> 's \<Rightarrow> (nat option \<times> clients \<times> 's) run)
   \<Rightarrow> bool \<Rightarrow> string \<Rightarrow> clients \<times> 's \<Rightarrow> (nat option \<times> clients \<times> 's) run" where
  "client_by_name io cri force_recreate name st =
     (case string_generator io name of
        None \<Rightarrow> Ret (None, fst st, snd st)
      | Some p \<Rightarrow> cri p force_recreate st)"

section \<open>The factory of the process\<close>

text \<open>
  What the surroundings answer: the endpoint of a peer, whether
  \<open>sisl::GrpcAsyncClient::make\<close> returns null for an endpoint (and how many client ids it
  used up), and whether the connection of a client object is ready.
\<close>

record client_env =
  ce_lookup_endpoint :: "peer_id \<Rightarrow> string"
  ce_make_fails :: "string \<Rightarrow> nat option"
  ce_ready :: "nat \<Rightarrow> bool"

definition gf_create_client ::
  "client_env \<Rightarrow> peer_id \<Rightarrow> nat option \<Rightarrow> client_heap \<Rightarrow> (cmd_result_code \<times> nat option \<times> client_heap) run" where
  "gf_create_client env client raft_client h =
     (let endpoint = ce_lookup_endpoint env client in
      if endpoint = [] then Ret (BAD_REQUEST, raft_client, h)
      else case ce_make_fails env endpoint of
        Some k \<Rightarrow> Ret (CANCELLED, None, h\<lparr>h_counter := h_counter h + of_nat k\<rparr>)
      | None \<Rightarrow> (let (a, h') = new_obj (\<lambda>i. Messaging_client i endpoint 0) h in Ret (OK, Some a, h')))"

definition gf_reinit_client ::
  "client_env \<Rightarrow> peer_id \<Rightarrow> nat option \<Rightarrow> client_heap \<Rightarrow> (cmd_result_code \<times> nat option \<times> client_heap) run" where
  "gf_reinit_client env client raft_client h =
     run_bind (deref raft_client) (\<lambda>a.
       case obj_at h a of
         Some (Messaging_client _ _ bad) \<Rightarrow>
           (if \<not> ce_ready env a \<or> 0 < bad then gf_create_client env client raft_client h
            else Ret (OK, raft_client, h))
       | _ \<Rightarrow> Crash)"

definition gf_error :: "client_heap \<Rightarrow> nat \<times> client_heap" where
  "gf_error h = new_obj Error_client h"

definition gf_create_or_reinit ::
  "client_env \<Rightarrow> peer_id \<Rightarrow> bool \<Rightarrow> clients \<times> client_heap \<Rightarrow> (nat option \<times> clients \<times> client_heap) run" where
  "gf_create_or_reinit env =
     create_or_reinit_client (gf_create_client env) (gf_reinit_client env) gf_error"

text \<open>\<open>engine_factory::lookupEndpoint\<close>: nothing once the application is gone.\<close>

definition engine_lookupEndpoint :: "(peer_id \<Rightarrow> string) option \<Rightarrow> peer_id \<Rightarrow> string" where
  "engine_lookupEndpoint application client =
     (case application of Some lookup_peer \<Rightarrow> lookup_peer client | None \<Rightarrow> [])"

section \<open>The factory of a group\<close>

record mesg_factory =
  mf_group_id :: group_id
  mf_group_type :: group_type

text \<open>
  The state a \<open>mesg_factory\<close> changes besides its own map: the cache of the process's
  factory and the store.
\<close>

type_synonym shared_clients = "clients \<times> client_heap"

definition mf_error :: "shared_clients \<Rightarrow> nat \<times> shared_clients" where
  "mf_error s = (let (gcl, h) = s; (a, h') = new_obj Error_client h in (a, gcl, h'))"

text \<open>The shared connection, or null when the process's factory only has an error client.\<close>

definition mf_messaging_client ::
  "client_env \<Rightarrow> peer_id \<Rightarrow> shared_clients \<Rightarrow> (nat option \<times> shared_clients) run" where
  "mf_messaging_client env client s =
     run_bind (gf_create_or_reinit env client False s)
       (\<lambda>(p, gcl, h). Ret (case p of None \<Rightarrow> None | Some a \<Rightarrow> (if is_messaging_at h a then Some a else None), gcl, h))"

definition mf_create_client ::
  "uuid_io \<Rightarrow> client_env \<Rightarrow> mesg_factory \<Rightarrow> peer_id \<Rightarrow> nat option \<Rightarrow> shared_clients
   \<Rightarrow> (cmd_result_code \<times> nat option \<times> shared_clients) run" where
  "mf_create_client io env mf client raft_client s =
     run_bind (mf_messaging_client env client s)
       (\<lambda>(m_client, gcl, h).
          case m_client of
            None \<Rightarrow> Ret (CANCELLED, raft_client, gcl, h)
          | Some m \<Rightarrow>
              (let (a, h') = new_obj (\<lambda>i. Proto_client i (Some m) (to_string io client) (mf_group_id mf) (mf_group_type mf)) h
               in Ret (OK, Some a, gcl, h')))"

definition mf_reinit_client ::
  "client_env \<Rightarrow> peer_id \<Rightarrow> nat option \<Rightarrow> shared_clients
   \<Rightarrow> (cmd_result_code \<times> nat option \<times> shared_clients) run" where
  "mf_reinit_client env client raft_client s =
     (case (case raft_client of None \<Rightarrow> None | Some a \<Rightarrow> obj_at (snd s) a) of
        Some (Proto_client i _ addr g t) \<Rightarrow>
          run_bind (mf_messaging_client env client s)
            (\<lambda>(m_client, gcl, h).
               case m_client of
                 None \<Rightarrow> Ret (CANCELLED, raft_client, gcl, h)
               | Some m \<Rightarrow> Ret (OK, raft_client, gcl, upd_obj (the raft_client) (Proto_client i (Some m) addr g t) h))
      | _ \<Rightarrow> Ret (BAD_REQUEST, raft_client, s))"

definition mf_create_or_reinit ::
  "uuid_io \<Rightarrow> client_env \<Rightarrow> mesg_factory \<Rightarrow> peer_id \<Rightarrow> bool \<Rightarrow> clients \<times> shared_clients
   \<Rightarrow> (nat option \<times> clients \<times> shared_clients) run" where
  "mf_create_or_reinit io env mf =
     create_or_reinit_client (mf_create_client io env mf) (mf_reinit_client env) mf_error"

section \<open>The contract of the virtual functions\<close>

text \<open>A cache in which every pointer is a proper client of its peer.\<close>

definition clients_ok :: "('s \<Rightarrow> peer_id \<Rightarrow> nat \<Rightarrow> bool) \<Rightarrow> clients \<Rightarrow> 's \<Rightarrow> bool" where
  "clients_ok proper cl s \<longleftrightarrow>
     om_inv cl \<and> (\<forall>p v. om_find cl p = Some v \<longrightarrow> (\<exists>a. v = Some a \<and> proper s p a))"

lemma clients_ok_empty [simp]: "clients_ok proper [] s"
  by (simp add: clients_ok_def)

lemma clients_ok_mono:
  "clients_ok proper cl s \<Longrightarrow> (\<And>q a. proper s q a \<Longrightarrow> proper s' q a) \<Longrightarrow> clients_ok proper cl s'"
  unfolding clients_ok_def by blast

lemma clients_ok_update:
  assumes "clients_ok proper cl s" and "om_inv cl'" and "\<And>q a. proper s q a \<Longrightarrow> proper s' q a"
    and "\<And>q. q \<noteq> p \<Longrightarrow> om_find cl' q = om_find cl q"
    and "\<And>v. om_find cl' p = Some v \<Longrightarrow> \<exists>a. v = Some a \<and> proper s' p a"
  shows "clients_ok proper cl' s'"
  using assms unfolding clients_ok_def by metis

lemma create_or_reinit_client_eq:
  "create_or_reinit_client create reinit mk_error p f (cl, s) =
     run_bind (if om_find cl p = None \<or> f then create p (the (om_find (fst (om_emplace p None cl)) p)) s
       else reinit p (the (om_find (fst (om_emplace p None cl)) p)) s)
       (\<lambda>(c, slot', s1). Ret (if c \<noteq> OK then Some (fst (mk_error s1)) else slot',
          if slot' = None then om_erase p (om_assign p slot' (fst (om_emplace p None cl)))
          else om_assign p slot' (fst (om_emplace p None cl)),
          if c \<noteq> OK then snd (mk_error s1) else s1))"
  unfolding create_or_reinit_client_def
  by (simp add: Let_def case_prod_unfold if_distrib [of fst] if_distrib [of snd] del: om_find_emplace cong: if_cong)

lemma create_or_reinit_client_Ret:
  assumes "create_or_reinit_client create reinit mk_error p f (cl, s) = Ret (q, cl', s')"
  obtains c slot slot' s1
  where "(if om_find cl p = None \<or> f then create p slot s else reinit p slot s) = Ret (c, slot', s1)"
    and "q = (if c \<noteq> OK then Some (fst (mk_error s1)) else slot')"
    and "s' = (if c \<noteq> OK then snd (mk_error s1) else s1)"
proof -
  obtain r where r: "(if om_find cl p = None \<or> f then create p (the (om_find (fst (om_emplace p None cl)) p)) s
        else reinit p (the (om_find (fst (om_emplace p None cl)) p)) s) = Ret r"
    using assms unfolding create_or_reinit_client_eq run_bind_Ret_iff by blast
  obtain c slot' s1 where "r = (c, slot', s1)" by (cases r)
  with r assms show ?thesis unfolding create_or_reinit_client_eq by (intro that [of _ c slot' s1]) simp_all
qed

text \<open>
  What the base class relies on: \<open>create\<close> and \<open>reinit\<close> return, keep the invariant of the
  shared state and every proper client, and leave in the slot either nothing or a proper
  client of the peer, one if they report \<open>OK\<close>. What it gives: the cache holds proper
  clients only, and the caller always gets a client, a proper one or an error client.
\<close>

locale client_factory =
  fixes create :: "peer_id \<Rightarrow> nat option \<Rightarrow> 's \<Rightarrow> (cmd_result_code \<times> nat option \<times> 's) run"
    and reinit :: "peer_id \<Rightarrow> nat option \<Rightarrow> 's \<Rightarrow> (cmd_result_code \<times> nat option \<times> 's) run"
    and mk_error :: "'s \<Rightarrow> nat \<times> 's"
    and inv :: "'s \<Rightarrow> bool"
    and proper :: "'s \<Rightarrow> peer_id \<Rightarrow> nat \<Rightarrow> bool"
    and failed :: "'s \<Rightarrow> nat \<Rightarrow> bool"
    and ext :: "'s \<Rightarrow> 's \<Rightarrow> bool"
  assumes create_law: "inv s \<Longrightarrow> (\<And>a. slot = Some a \<Longrightarrow> proper s p a) \<Longrightarrow>
      \<exists>c slot' s'. create p slot s = Ret (c, slot', s') \<and> inv s' \<and> (c = OK \<longrightarrow> slot' \<noteq> None)
        \<and> (\<forall>a. slot' = Some a \<longrightarrow> proper s' p a) \<and> ext s s'"
    and reinit_law: "inv s \<Longrightarrow> proper s p a \<Longrightarrow>
      \<exists>c slot' s'. reinit p (Some a) s = Ret (c, slot', s') \<and> inv s' \<and> (c = OK \<longrightarrow> slot' \<noteq> None)
        \<and> (\<forall>a. slot' = Some a \<longrightarrow> proper s' p a) \<and> ext s s'"
    and error_law: "inv s \<Longrightarrow> mk_error s = (e, s') \<Longrightarrow>
      inv s' \<and> failed s' e \<and> ext s s'"
    and ext_proper: "ext s s' \<Longrightarrow> proper s q a \<Longrightarrow> proper s' q a"
    and ext_trans: "ext s s' \<Longrightarrow> ext s' s'' \<Longrightarrow> ext s s''"
begin

lemma call_law:
  assumes "inv s" and "clients_ok proper cl s"
  shows "\<exists>c slot' s'. (if om_find cl p = None \<or> f then create p (the (om_find (fst (om_emplace p None cl)) p)) s
        else reinit p (the (om_find (fst (om_emplace p None cl)) p)) s) = Ret (c, slot', s')
      \<and> inv s' \<and> (c = OK \<longrightarrow> slot' \<noteq> None)
      \<and> (\<forall>a. slot' = Some a \<longrightarrow> proper s' p a) \<and> ext s s'"
proof (cases "om_find cl p")
  case None
  then show ?thesis using create_law [OF assms(1), of None p] by simp
next
  case (Some v)
  then obtain a where "v = Some a" and "proper s p a" using assms(2) by (auto simp: clients_ok_def)
  then show ?thesis using create_law [OF assms(1), of "Some a" p] reinit_law [OF assms(1), of p a] Some by auto
qed

theorem create_or_reinit_safe:
  assumes "inv s" and "clients_ok proper cl s"
  shows "\<exists>a cl' s'. create_or_reinit_client create reinit mk_error p f (cl, s) = Ret (Some a, cl', s')
    \<and> inv s' \<and> clients_ok proper cl' s' \<and> ext s s'
    \<and> (om_find cl' p = Some (Some a) \<or> failed s' a)
    \<and> (\<forall>q. q \<noteq> p \<longrightarrow> om_find cl' q = om_find cl q)"
proof -
  obtain c slot' s1 where call: "(if om_find cl p = None \<or> f then create p (the (om_find (fst (om_emplace p None cl)) p)) s
        else reinit p (the (om_find (fst (om_emplace p None cl)) p)) s) = Ret (c, slot', s1)"
    and s1: "inv s1" "c = OK \<longrightarrow> slot' \<noteq> None" "\<forall>a. slot' = Some a \<longrightarrow> proper s1 p a"
      "ext s s1"
    using call_law [OF assms, of p f] by blast
  define cl' where "cl' = (if slot' = None then om_erase p (om_assign p slot' (fst (om_emplace p None cl)))
    else om_assign p slot' (fst (om_emplace p None cl)))"
  obtain e s2 where err: "mk_error s1 = (e, s2)" by (cases "mk_error s1")
  note e = error_law [OF s1(1) err]
  have ret: "create_or_reinit_client create reinit mk_error p f (cl, s) =
      (if c \<noteq> OK then Ret (Some e, cl', s2) else Ret (slot', cl', s1))"
    unfolding create_or_reinit_client_eq call cl'_def by (simp add: err)
  have find: "om_find cl' q = (if q = p then map_option Some slot' else om_find cl q)" for q
    by (cases slot') (auto simp: cl'_def)
  have inv': "om_inv cl'" using assms(2) by (auto simp: cl'_def clients_ok_def)
  have ok: "clients_ok proper cl' s'"
    if "\<And>q a. proper s1 q a \<Longrightarrow> proper s' q a" for s'
    using that s1(3) ext_proper [OF s1(4)] find
    by (intro clients_ok_update [OF assms(2) inv', of s' p]) auto
  show ?thesis
  proof (cases "c = OK")
    case True
    then obtain a where "slot' = Some a" using s1(2) by blast
    with True ret s1 find ok [of s1] show ?thesis by auto
  next
    case False
    with ret e find ok [of s2] ext_proper [of s1 s2] ext_trans [OF s1(4), of s2] show ?thesis by auto
  qed
qed

text \<open>Where the virtual functions succeed, the caller gets the client that is cached.\<close>

theorem create_or_reinit_ok:
  assumes "inv s" and "clients_ok proper cl s"
    and ok: "\<And>slot c slot' s'. (if om_find cl p = None \<or> f then create p slot s else reinit p slot s) = Ret (c, slot', s')
      \<Longrightarrow> c = OK"
  shows "\<exists>a cl' s'. create_or_reinit_client create reinit mk_error p f (cl, s) = Ret (Some a, cl', s')
    \<and> inv s' \<and> clients_ok proper cl' s' \<and> om_find cl' p = Some (Some a)"
proof -
  obtain c slot' s1 where call: "(if om_find cl p = None \<or> f then create p (the (om_find (fst (om_emplace p None cl)) p)) s
        else reinit p (the (om_find (fst (om_emplace p None cl)) p)) s) = Ret (c, slot', s1)"
    and s1: "c = OK \<longrightarrow> slot' \<noteq> None"
    using call_law [OF assms(1,2), of p f] by blast
  with ok obtain a where "slot' = Some a" "c = OK" by blast
  with call create_or_reinit_safe [OF assms(1,2), of p f] show ?thesis
    by (auto simp: create_or_reinit_client_eq)
qed

end

text \<open>
  A factory whose \<open>reinit\<close> repairs the client in place: a caller that does not force a new
  client keeps the identity of the one in the cache.
\<close>

locale identity_factory = client_factory +
  assumes reinit_keeps: "inv s \<Longrightarrow> proper s p a \<Longrightarrow> reinit p (Some a) s = Ret (c, slot', s') \<Longrightarrow> slot' = Some a"
begin

theorem lookup_keeps_client:
  assumes "inv s" and "clients_ok proper cl s" and "om_find cl p = Some (Some a)"
  shows "\<exists>b s'. create_or_reinit_client create reinit mk_error p False (cl, s) = Ret (Some b, cl, s')
    \<and> inv s' \<and> ext s s' \<and> (b = a \<or> failed s' b)"
proof -
  have a: "proper s p a" using assms(2,3) by (auto simp: clients_ok_def)
  obtain c s1 where call: "reinit p (Some a) s = Ret (c, Some a, s1)" and s1: "inv s1" "ext s s1"
    using reinit_law [OF assms(1) a] reinit_keeps [OF assms(1) a] by blast
  obtain e s2 where err: "mk_error s1 = (e, s2)" by (cases "mk_error s1")
  have "om_assign p (Some a) cl = cl"
    using assms(2,3) by (intro om.assign_same) (auto simp: clients_ok_def)
  then have "create_or_reinit_client create reinit mk_error p False (cl, s) =
      (if c \<noteq> OK then Ret (Some e, cl, s2) else Ret (Some a, cl, s1))"
    using call err by (simp add: create_or_reinit_client_eq assms(3) om_emplace_def)
  with s1 error_law [OF s1(1) err] ext_trans [OF s1(2), of s2] show ?thesis by auto
qed

end

section \<open>The two factories meet the contract\<close>

lemma new_obj_simps [simp]:
  "obj_at (snd (new_obj mk h)) a = (if a = length (h_objs h) then Some (mk (h_counter h)) else obj_at h a)"
  "fst (new_obj mk h) = length (h_objs h)"
  "h_counter (snd (new_obj mk h)) = h_counter h + 1"
  by (auto simp: new_obj_def obj_at_def nth_append)

lemma obj_at_counter [simp]: "obj_at (h\<lparr>h_counter := c\<rparr>) a = obj_at h a"
  by (simp add: obj_at_def)

lemma obj_at_upd [simp]:
  "obj_at (upd_obj a ob h) b = (if a = b \<and> obj_at h a \<noteq> None then Some ob else obj_at h b)"
  by (auto simp: obj_at_def upd_obj_def)

lemma counter_upd [simp]: "h_counter (upd_obj a ob h) = h_counter h"
  by (simp add: upd_obj_def)

lemma obj_at_fresh [simp]: "obj_at h (length (h_objs h)) = None"
  by (simp add: obj_at_def)

definition gf_proper :: "client_heap \<Rightarrow> peer_id \<Rightarrow> nat \<Rightarrow> bool" where
  "gf_proper h p a = is_messaging_at h a"

lemma is_messaging_iff: "is_messaging_at h a \<longleftrightarrow> (\<exists>i ad b. obj_at h a = Some (Messaging_client i ad b))"
  by (auto simp: is_messaging_at_def split: option.splits client_obj.splits)

text \<open>The process's factory makes objects and never changes one.\<close>

definition heap_ext :: "client_heap \<Rightarrow> client_heap \<Rightarrow> bool" where
  "heap_ext h h' \<longleftrightarrow> (\<forall>a ob. obj_at h a = Some ob \<longrightarrow> obj_at h' a = Some ob)"

lemma heap_ext_new [simp]: "heap_ext h (snd (new_obj mk h))" "heap_ext h (h\<lparr>h_counter := c\<rparr>)" "heap_ext h h"
  by (auto simp: heap_ext_def)

lemma heap_ext_messaging: "heap_ext h h' \<Longrightarrow> is_messaging_at h a \<Longrightarrow> is_messaging_at h' a"
  by (auto simp: heap_ext_def is_messaging_iff)

lemma gf_create_law:
  assumes "\<And>a. slot = Some a \<Longrightarrow> gf_proper h p a"
  shows "\<exists>c slot' h'. gf_create_client env p slot h = Ret (c, slot', h') \<and> (c = OK \<longrightarrow> slot' \<noteq> None)
    \<and> (\<forall>a. slot' = Some a \<longrightarrow> gf_proper h' p a) \<and> heap_ext h h'"
  using assms
  by (auto simp: gf_create_client_def Let_def case_prod_unfold gf_proper_def is_messaging_iff result_codes
      split: option.splits)

interpretation gf: client_factory "gf_create_client env" "gf_reinit_client env" gf_error
  "\<lambda>h. True" gf_proper is_error_at heap_ext for env
proof unfold_locales
  fix h p a
  assume a: "gf_proper h p a"
  then obtain i ad b where ob: "obj_at h a = Some (Messaging_client i ad b)"
    by (auto simp: gf_proper_def is_messaging_iff)
  show "\<exists>c slot' h'. gf_reinit_client env p (Some a) h = Ret (c, slot', h') \<and> True \<and> (c = OK \<longrightarrow> slot' \<noteq> None)
    \<and> (\<forall>a. slot' = Some a \<longrightarrow> gf_proper h' p a) \<and> heap_ext h h'"
    using a gf_create_law [of "Some a" h p env] by (simp add: gf_reinit_client_def ob)
next
  fix h e h'
  assume "gf_error h = (e, h')"
  then have e: "e = fst (new_obj Error_client h)" "h' = snd (new_obj Error_client h)"
    by (simp_all add: gf_error_def)
  show "True \<and> is_error_at h' e \<and> heap_ext h h'"
    by (auto simp: e is_error_at_def)
next
  fix h h' h'' p a
  show "heap_ext h h' \<Longrightarrow> gf_proper h p a \<Longrightarrow> gf_proper h' p a"
    by (simp add: gf_proper_def heap_ext_messaging)
  show "heap_ext h h' \<Longrightarrow> heap_ext h' h'' \<Longrightarrow> heap_ext h h''"
    by (simp add: heap_ext_def)
qed (use gf_create_law in simp)

definition mf_proper :: "uuid_io \<Rightarrow> mesg_factory \<Rightarrow> shared_clients \<Rightarrow> peer_id \<Rightarrow> nat \<Rightarrow> bool" where
  "mf_proper io mf s p a =
     (case obj_at (snd s) a of
        Some (Proto_client i (Some m) addr g t) \<Rightarrow>
          is_messaging_at (snd s) m \<and> addr = to_string io p \<and> g = mf_group_id mf \<and> t = mf_group_type mf
      | _ \<Rightarrow> False)"

definition mf_inv :: "shared_clients \<Rightarrow> bool" where
  "mf_inv s = clients_ok gf_proper (fst s) (snd s)"

definition mf_failed :: "shared_clients \<Rightarrow> nat \<Rightarrow> bool" where
  "mf_failed s = is_error_at (snd s)"

lemma mf_proper_obj:
  "mf_proper io mf s p a \<longleftrightarrow> (\<exists>i m. obj_at (snd s) a =
     Some (Proto_client i (Some m) (to_string io p) (mf_group_id mf) (mf_group_type mf)) \<and> is_messaging_at (snd s) m)"
  by (auto simp: mf_proper_def split: option.splits client_obj.splits)

text \<open>Under the invariant, the shared connection is found or known to be out of reach.\<close>

lemma mf_messaging_law:
  assumes "mf_inv s"
  shows "\<exists>m s'. mf_messaging_client env p s = Ret (m, s') \<and> mf_inv s'
    \<and> (\<forall>a. m = Some a \<longrightarrow> is_messaging_at (snd s') a) \<and> heap_ext (snd s) (snd s')"
  using gf.create_or_reinit_safe [where s = "snd s" and cl = "fst s" and env = env and p = p and f = False] assms
  by (cases s) (auto simp: mf_inv_def mf_messaging_client_def gf_create_or_reinit_def)

text \<open>
  A group's factory may put a new connection into a wrapper that exists; the wrapper's
  id, peer and group stay.
\<close>

definition mf_ext :: "shared_clients \<Rightarrow> shared_clients \<Rightarrow> bool" where
  "mf_ext s s' \<longleftrightarrow> (\<forall>a ob. obj_at (snd s) a = Some ob \<longrightarrow> obj_at (snd s') a = Some ob \<or>
     (\<exists>i m m' ad g t. ob = Proto_client i m ad g t \<and> obj_at (snd s') a = Some (Proto_client i (Some m') ad g t)
        \<and> is_messaging_at (snd s') m'))"

lemma mf_ext_messaging: "mf_ext s s' \<Longrightarrow> is_messaging_at (snd s) a \<Longrightarrow> is_messaging_at (snd s') a"
  unfolding mf_ext_def is_messaging_iff by blast

lemma mf_ext_heap: "heap_ext (snd s) (snd s') \<Longrightarrow> mf_ext s s'"
  by (simp add: heap_ext_def mf_ext_def)

lemma mf_ext_trans:
  assumes "mf_ext s s'" and "mf_ext s' s''"
  shows "mf_ext s s''"
  unfolding mf_ext_def
proof (intro allI impI)
  fix a ob
  assume "obj_at (snd s) a = Some ob"
  then show "obj_at (snd s'') a = Some ob \<or>
     (\<exists>i m m' ad g t. ob = Proto_client i m ad g t \<and> obj_at (snd s'') a = Some (Proto_client i (Some m') ad g t)
        \<and> is_messaging_at (snd s'') m')"
    using assms mf_ext_messaging [OF assms(2)] unfolding mf_ext_def by (smt (verit) client_obj.inject(2))
qed

lemma mf_proper_ext: "mf_ext s s' \<Longrightarrow> mf_proper io mf s p a \<Longrightarrow> mf_proper io mf s' p a"
  unfolding mf_proper_obj using mf_ext_messaging [of s s'] unfolding mf_ext_def
  by (elim exE conjE) (smt (verit) client_obj.inject(2))

lemma mf_inv_ext:
  assumes "mf_inv s" and "mf_ext s s'" and "fst s' = fst s"
  shows "mf_inv s'"
  using assms(1,3) mf_ext_messaging [OF assms(2)] unfolding mf_inv_def
  by (auto simp: gf_proper_def elim!: clients_ok_mono)

lemma mf_create_law:
  assumes "mf_inv s" and slot: "\<And>a. slot = Some a \<Longrightarrow> mf_proper io mf s p a"
  shows "\<exists>c slot' s'. mf_create_client io env mf p slot s = Ret (c, slot', s') \<and> mf_inv s'
    \<and> (c = OK \<longrightarrow> slot' \<noteq> None) \<and> (\<forall>a. slot' = Some a \<longrightarrow> mf_proper io mf s' p a) \<and> mf_ext s s'"
proof -
  obtain m s1 where m: "mf_messaging_client env p s = Ret (m, s1)" "mf_inv s1"
      "\<forall>a. m = Some a \<longrightarrow> is_messaging_at (snd s1) a" "mf_ext s s1"
    using mf_messaging_law [OF assms(1)] mf_ext_heap by blast
  obtain gcl h where s1: "s1 = (gcl, h)" by (cases s1)
  show ?thesis
  proof (cases m)
    case None
    with m s1 slot mf_proper_ext [OF m(4)] show ?thesis
      by (auto simp: mf_create_client_def result_codes)
  next
    case (Some a)
    define h' where "h' = snd (new_obj (\<lambda>i. Proto_client i (Some a) (to_string io p) (mf_group_id mf) (mf_group_type mf)) h)"
    have ext: "mf_ext s1 (gcl, h')" by (rule mf_ext_heap) (simp add: s1 h'_def)
    have "mf_proper io mf (gcl, h') p (length (h_objs h))"
      using m(3) Some s1 mf_ext_messaging [OF ext] by (simp add: mf_proper_obj h'_def)
    then show ?thesis
      using m(1) Some s1 ext mf_ext_trans [OF m(4) ext] mf_inv_ext [OF m(2) ext]
      by (auto simp: mf_create_client_def h'_def Let_def case_prod_unfold)
  qed
qed

lemma mf_reinit_law:
  assumes "mf_inv s" and "mf_proper io mf s p a"
  shows "\<exists>c s'. mf_reinit_client env p (Some a) s = Ret (c, Some a, s') \<and> mf_inv s'
    \<and> mf_proper io mf s' p a \<and> mf_ext s s'"
proof -
  obtain m s1 where m: "mf_messaging_client env p s = Ret (m, s1)" "mf_inv s1"
      "\<forall>a. m = Some a \<longrightarrow> is_messaging_at (snd s1) a" "heap_ext (snd s) (snd s1)"
    using mf_messaging_law [OF assms(1)] by blast
  note ext1 = mf_ext_heap [OF m(4)]
  obtain gcl h where s1: "s1 = (gcl, h)" by (cases s1)
  obtain i c where ob: "obj_at (snd s) a = Some (Proto_client i c (to_string io p) (mf_group_id mf) (mf_group_type mf))"
    using assms(2) by (auto simp: mf_proper_obj)
  show ?thesis
  proof (cases m)
    case None
    with m s1 ob ext1 mf_proper_ext [OF ext1 assms(2)] show ?thesis
      by (auto simp: mf_reinit_client_def)
  next
    case (Some b)
    define h' where "h' = upd_obj a (Proto_client i (Some b) (to_string io p) (mf_group_id mf) (mf_group_type mf)) h"
    have ob1: "obj_at h a = Some (Proto_client i c (to_string io p) (mf_group_id mf) (mf_group_type mf))"
      using ob m(4) s1 by (simp add: heap_ext_def)
    have "is_messaging_at h' b" using m(3) Some s1 ob1 by (auto simp: is_messaging_iff h'_def)
    then have ext: "mf_ext s1 (gcl, h')" using s1 ob1 by (auto simp: mf_ext_def h'_def)
    show ?thesis
      using m(1) Some s1 ob ext mf_ext_trans [OF ext1 ext] mf_inv_ext [OF m(2) ext]
        mf_proper_ext [OF ext mf_proper_ext [OF ext1 assms(2)]]
      by (auto simp: mf_reinit_client_def h'_def)
  qed
qed

interpretation mf: identity_factory "mf_create_client io env mf" "mf_reinit_client env" mf_error
  mf_inv "mf_proper io mf" mf_failed mf_ext for io env mf
proof unfold_locales
  fix s p slot
  show "mf_inv s \<Longrightarrow> (\<And>a. slot = Some a \<Longrightarrow> mf_proper io mf s p a) \<Longrightarrow>
    \<exists>c slot' s'. mf_create_client io env mf p slot s = Ret (c, slot', s') \<and> mf_inv s'
    \<and> (c = OK \<longrightarrow> slot' \<noteq> None) \<and> (\<forall>a. slot' = Some a \<longrightarrow> mf_proper io mf s' p a) \<and> mf_ext s s'"
    by (rule mf_create_law)
next
  fix s p a
  assume "mf_inv s" and "mf_proper io mf s p a"
  from mf_reinit_law [OF this]
  show "\<exists>c slot' s'. mf_reinit_client env p (Some a) s = Ret (c, slot', s') \<and> mf_inv s'
    \<and> (c = OK \<longrightarrow> slot' \<noteq> None) \<and> (\<forall>a. slot' = Some a \<longrightarrow> mf_proper io mf s' p a) \<and> mf_ext s s'"
    by (metis option.distinct(1) option.inject)
next
  fix s e s'
  assume inv: "mf_inv s" and "mf_error s = (e, s')"
  then have e: "e = fst (new_obj Error_client (snd s))" "s' = (fst s, snd (new_obj Error_client (snd s)))"
    by (simp_all add: mf_error_def Let_def case_prod_unfold)
  have "mf_ext s s'" by (rule mf_ext_heap) (simp add: e)
  with mf_inv_ext [OF inv this] show "mf_inv s' \<and> mf_failed s' e \<and> mf_ext s s'"
    by (simp add: e mf_failed_def is_error_at_def)
next
  fix s p a c slot' s'
  assume "mf_inv s" and "mf_proper io mf s p a" and "mf_reinit_client env p (Some a) s = Ret (c, slot', s')"
  with mf_reinit_law [OF this(1,2), of env] show "slot' = Some a" by auto
qed (auto intro: mf_proper_ext mf_ext_trans)

section \<open>What one lookup does\<close>

lemma gf_lookup_healthy:
  assumes "om_inv gcl" and "om_find gcl p = Some (Some m)" and "obj_at h m = Some (Messaging_client i ad 0)"
    and "ce_ready env m"
  shows "gf_create_or_reinit env p False (gcl, h) = Ret (Some m, gcl, h)"
  using assms
  by (simp add: gf_create_or_reinit_def create_or_reinit_client_eq gf_reinit_client_def om_emplace_def om.assign_same)

lemma gf_lookup_renews:
  assumes "om_inv gcl" and "om_find gcl p = Some (Some m)" and "obj_at h m = Some (Messaging_client i ad b)"
    and "\<not> ce_ready env m \<or> 0 < b"
    and "ce_lookup_endpoint env p \<noteq> []" and "ce_make_fails env (ce_lookup_endpoint env p) = None"
  shows "gf_create_or_reinit env p False (gcl, h) =
    Ret (Some (length (h_objs h)), om_assign p (Some (length (h_objs h))) gcl,
      snd (new_obj (\<lambda>i. Messaging_client i (ce_lookup_endpoint env p) 0) h))"
  using assms
  by (simp add: gf_create_or_reinit_def create_or_reinit_client_eq gf_reinit_client_def gf_create_client_def
      om_emplace_def case_prod_unfold)

lemma gf_lookup_unreachable:
  assumes "om_inv gcl" and "om_find gcl p = None" and "ce_lookup_endpoint env p = []"
  shows "gf_create_or_reinit env p f (gcl, h) = Ret (Some (length (h_objs h)), gcl, snd (new_obj Error_client h))"
  using assms
  by (simp add: gf_create_or_reinit_def create_or_reinit_client_eq gf_create_client_def gf_error_def
      om_emplace_def om.assign_assign om.erase_assign result_codes)

lemma mf_lookup_renews:
  assumes "clients_ok gf_proper gcl h" and "clients_ok (mf_proper io mf) cl (gcl, h)"
    and "om_find cl p = Some (Some a)" and "obj_at h a = Some (Proto_client i c ad g t)"
    and "om_find gcl p = Some (Some m)" and "obj_at h m = Some (Messaging_client j ad' bad)"
    and "\<not> ce_ready env m \<or> 0 < bad"
    and "ce_lookup_endpoint env p \<noteq> []" and "ce_make_fails env (ce_lookup_endpoint env p) = None"
  shows "\<exists>m' h'. mf_create_or_reinit io env mf p False (cl, gcl, h) = Ret (Some a, cl, om_assign p (Some m') gcl, h')
    \<and> obj_at h m' = None \<and> obj_at h' m' = Some (Messaging_client (h_counter h) (ce_lookup_endpoint env p) 0)
    \<and> obj_at h' a = Some (Proto_client i (Some m') ad g t)
    \<and> (\<forall>b ob. b \<noteq> a \<longrightarrow> obj_at h b = Some ob \<longrightarrow> obj_at h' b = Some ob)"
proof -
  have inv: "om_inv gcl" "om_inv cl" using assms(1,2) by (simp_all add: clients_ok_def)
  note look = gf_lookup_renews [OF inv(1) assms(5-9)]
  define h1 where "h1 = snd (new_obj (\<lambda>i. Messaging_client i (ce_lookup_endpoint env p) 0) h)"
  have "obj_at h1 (length (h_objs h)) = Some (Messaging_client (h_counter h) (ce_lookup_endpoint env p) 0)"
    by (simp add: h1_def)
  moreover have "a \<noteq> length (h_objs h)" using assms(4) by auto
  moreover from this have "obj_at h1 b = obj_at h b" if "b \<noteq> length (h_objs h)" for b
    using that by (simp add: h1_def)
  moreover from this have "obj_at h1 b = Some ob" if "obj_at h b = Some ob" for b ob
    using that by (cases "b = length (h_objs h)") auto
  ultimately show ?thesis
    using inv(2) look assms(3,4)
    by (auto simp: mf_create_or_reinit_def create_or_reinit_client_eq mf_reinit_client_def mf_messaging_client_def
        om_emplace_def om.assign_same h1_def [symmetric] is_messaging_iff)
qed

lemma mf_lookup_unreachable:
  assumes "om_inv gcl" and "om_inv cl" and "om_find cl p = None" and "om_find gcl p = None"
    and "ce_lookup_endpoint env p = []"
  shows "\<exists>a h'. mf_create_or_reinit io env mf p f (cl, gcl, h) = Ret (Some a, cl, gcl, h')
    \<and> obj_at h a = None \<and> is_error_at h' a"
proof -
  define h1 where "h1 = snd (new_obj Error_client h)"
  note look = gf_lookup_unreachable [OF assms(1,4,5), of False h, folded h1_def]
  have err: "obj_at h1 (length (h_objs h)) = Some (Error_client (h_counter h))" by (simp add: h1_def)
  have len: "length (h_objs h1) = Suc (length (h_objs h))" by (simp add: h1_def new_obj_def)
  have fresh: "obj_at h (Suc (length (h_objs h))) = None" by (simp add: obj_at_def)
  show ?thesis
    using assms(2,3) look err fresh
    by (auto simp: mf_create_or_reinit_def create_or_reinit_client_eq mf_create_client_def mf_messaging_client_def
        mf_error_def om_emplace_def om.erase_assign om.assign_assign is_messaging_iff is_error_at_def len
        Let_def case_prod_unfold result_codes)
qed

section \<open>Fresh ids\<close>

text \<open>
  \<open>grows d h h'\<close>: up to \<open>d\<close> ids were handed out and the counter did not wrap, so what was
  there keeps its id and what is new has an id the old store never saw.
\<close>

definition grows :: "nat \<Rightarrow> client_heap \<Rightarrow> client_heap \<Rightarrow> bool" where
  "grows d h h' \<longleftrightarrow> (\<forall>a. obj_at h a \<noteq> None \<longrightarrow> obj_at h' a \<noteq> None) \<and>
     (unat (h_counter h) + d < 2 ^ 64 \<longrightarrow>
       unat (h_counter h) \<le> unat (h_counter h') \<and> unat (h_counter h') \<le> unat (h_counter h) + d \<and>
       (\<forall>a ob. obj_at h' a = Some ob \<longrightarrow>
          (\<exists>ob0. obj_at h a = Some ob0 \<and> obj_id ob0 = obj_id ob) \<or>
          obj_at h a = None \<and> unat (h_counter h) \<le> unat (obj_id ob) \<and> unat (obj_id ob) < unat (h_counter h')))"

lemma grows_refl: "grows d h h"
  by (simp add: grows_def)

lemma grows_trans:
  assumes "grows d h h'" and "grows e h' h''"
  shows "grows (d + e) h h''"
proof -
  let ?new = "\<lambda>(h :: client_heap) (h' :: client_heap) ob. unat (h_counter h) \<le> unat (obj_id ob) \<and> unat (obj_id ob) < unat (h_counter h')"
  {
    assume c: "unat (h_counter h) + (d + e) < 2 ^ 64"
    then have 1: "unat (h_counter h) + d < 2 ^ 64" by simp
    note g1 = assms(1) [unfolded grows_def, THEN conjunct2, rule_format, OF 1]
    have 2: "unat (h_counter h') + e < 2 ^ 64" using c g1 by linarith
    note g2 = assms(2) [unfolded grows_def, THEN conjunct2, rule_format, OF 2]
    have "(\<exists>ob0. obj_at h a = Some ob0 \<and> obj_id ob0 = obj_id ob) \<or> obj_at h a = None \<and> ?new h h'' ob"
      if ob: "obj_at h'' a = Some ob" for a ob
    proof -
      consider ob1 where "obj_at h' a = Some ob1" "obj_id ob1 = obj_id ob" | "obj_at h' a = None" "?new h' h'' ob"
        using g2 [THEN conjunct2, THEN conjunct2, rule_format, OF ob] by auto
      then show ?thesis
      proof cases
        case 1
        then show ?thesis
          using g1 [THEN conjunct2, THEN conjunct2, rule_format, OF 1(1)] g2 [THEN conjunct1] by auto
      next
        case 2
        moreover have "obj_at h a = None" using assms(1) 2(1) unfolding grows_def by blast
        ultimately show ?thesis using g1 [THEN conjunct1] by simp
      qed
    qed
    then have "unat (h_counter h) \<le> unat (h_counter h'') \<and> unat (h_counter h'') \<le> unat (h_counter h) + (d + e) \<and>
       (\<forall>a ob. obj_at h'' a = Some ob \<longrightarrow>
          (\<exists>ob0. obj_at h a = Some ob0 \<and> obj_id ob0 = obj_id ob) \<or> obj_at h a = None \<and> ?new h h'' ob)"
      using g1 [THEN conjunct1] g1 [THEN conjunct2, THEN conjunct1]
        g2 [THEN conjunct1] g2 [THEN conjunct2, THEN conjunct1] by simp
  }
  then show ?thesis using assms unfolding grows_def by blast
qed

lemma unat_counter_add: "unat (c :: u64) + k < 2 ^ 64 \<Longrightarrow> unat (c + of_nat k) = unat c + k"
  by (simp add: unat_word_ariths unat_of_nat)

lemma grows_new:
  assumes "\<And>i. obj_id (mk i) = i"
  shows "grows 1 h (snd (new_obj mk h))"
  using unat_counter_add [of "h_counter h" 1] assms unfolding grows_def by auto

lemma grows_counter: "k \<le> d \<Longrightarrow> grows d h (h\<lparr>h_counter := h_counter h + of_nat k\<rparr>)"
  using unat_counter_add [of "h_counter h" k] unfolding grows_def by auto

lemma grows_upd:
  "obj_at h a = Some ob0 \<Longrightarrow> obj_id ob = obj_id ob0 \<Longrightarrow> grows d h (upd_obj a ob h)"
  unfolding grows_def by auto

lemma grows_mono: "grows d h h' \<Longrightarrow> d \<le> e \<Longrightarrow> grows e h h'"
  using grows_trans [OF _ grows_refl, of d h h' "e - d"] by simp

text \<open>\<open>make\<close> constructs one client at most, so a failure uses up one id at most.\<close>

definition make_ids_ok :: "client_env \<Rightarrow> bool" where
  "make_ids_ok env \<longleftrightarrow> (\<forall>e k. ce_make_fails env e = Some k \<longrightarrow> k \<le> 1)"

lemma gf_create_grows:
  "make_ids_ok env \<Longrightarrow> gf_create_client env p slot h = Ret (c, slot', h') \<Longrightarrow> grows 1 h h'"
  by (auto simp: gf_create_client_def Let_def case_prod_unfold make_ids_ok_def grows_refl
      simp del: One_nat_def intro!: grows_new grows_counter split: if_splits option.splits)

lemma gf_reinit_grows:
  "make_ids_ok env \<Longrightarrow> gf_reinit_client env p slot h = Ret (c, slot', h') \<Longrightarrow> grows 1 h h'"
  by (cases slot) (auto simp: gf_reinit_client_def grows_refl
      split: option.splits client_obj.splits if_splits dest: gf_create_grows)

lemma gf_error_grows: "grows 1 h (snd (gf_error h))"
  unfolding gf_error_def by (rule grows_new) simp

lemma gf_create_or_reinit_grows:
  assumes "make_ids_ok env" and "gf_create_or_reinit env p f (gcl, h) = Ret (a, gcl', h')"
  shows "grows 2 h h'"
proof -
  obtain c slot slot' h1 where "(if om_find gcl p = None \<or> f then gf_create_client env p slot h
      else gf_reinit_client env p slot h) = Ret (c, slot', h1)"
    and h': "h' = (if c \<noteq> OK then snd (gf_error h1) else h1)"
    using assms(2) [unfolded gf_create_or_reinit_def] by (rule create_or_reinit_client_Ret)
  then have "grows 1 h h1" using gf_create_grows gf_reinit_grows assms(1) by (metis (full_types))
  from grows_trans [OF this gf_error_grows] grows_mono [OF this, of 2] show ?thesis by (simp add: h' numeral_2_eq_2)
qed

lemma mf_messaging_grows:
  "make_ids_ok env \<Longrightarrow> mf_messaging_client env p s = Ret (m, s') \<Longrightarrow> grows 2 (snd s) (snd s')"
  by (cases s) (auto simp: mf_messaging_client_def run_simps dest: gf_create_or_reinit_grows)

lemma mf_create_grows:
  assumes "make_ids_ok env" and "mf_create_client io env mf p slot s = Ret (c, slot', s')"
  shows "grows 3 (snd s) (snd s') \<and> (c = OK \<longrightarrow> (\<exists>a. slot' = Some a \<and> obj_at (snd s) a = None \<and> obj_at (snd s') a \<noteq> None))"
proof -
  obtain m s1 where m: "mf_messaging_client env p s = Ret (m, s1)"
    using assms(2) by (auto simp: mf_create_client_def run_simps)
  note g = mf_messaging_grows [OF assms(1) m]
  show ?thesis
  proof (cases m)
    case None
    with m assms(2) grows_mono [OF g, of 3] show ?thesis
      by (cases s1) (auto simp: mf_create_client_def result_codes)
  next
    case (Some b)
    define mk where "mk = (\<lambda>i. Proto_client i (Some b) (to_string io p) (mf_group_id mf) (mf_group_type mf))"
    have "grows 3 (snd s) (snd (new_obj mk (snd s1)))"
      using grows_trans [OF g grows_new [of mk]] by (simp add: mk_def)
    moreover have "obj_at (snd s) (length (h_objs (snd s1))) = None"
      using g obj_at_fresh unfolding grows_def by blast
    ultimately show ?thesis using m Some assms(2)
      by (cases s1) (auto simp: mf_create_client_def mk_def [symmetric] Let_def case_prod_unfold)
  qed
qed

lemma mf_forced_grows:
  assumes "make_ids_ok env" and "mf_create_or_reinit io env mf p True (cl, s) = Ret (Some a, cl', s')"
  shows "grows 4 (snd s) (snd s') \<and> obj_at (snd s) a = None \<and> obj_at (snd s') a \<noteq> None"
proof -
  obtain c slot slot' s1 where call: "mf_create_client io env mf p slot s = Ret (c, slot', s1)"
    and res: "Some a = (if c \<noteq> OK then Some (fst (mf_error s1)) else slot')"
      "s' = (if c \<noteq> OK then snd (mf_error s1) else s1)"
    using assms(2) [unfolded mf_create_or_reinit_def] by (rule create_or_reinit_client_Ret) auto
  note g = mf_create_grows [OF assms(1) call]
  show ?thesis
  proof (cases "c = OK")
    case True
    with g res grows_mono [of 3 "snd s" "snd s1" 4] show ?thesis by auto
  next
    case False
    then have a: "a = length (h_objs (snd s1))" "snd s' = snd (new_obj Error_client (snd s1))"
      using res by (simp_all add: mf_error_def Let_def case_prod_unfold)
    have "obj_at (snd s) a = None"
      using g obj_at_fresh a(1) unfolding grows_def by blast
    with grows_trans [OF conjunct1 [OF g] grows_new [of Error_client]] show ?thesis by (simp add: a)
  qed
qed

lemma grows_ids:
  assumes "grows d h h'" and "unat (h_counter h) + d < 2 ^ 64"
    and "\<forall>b ob. obj_at h b = Some ob \<longrightarrow> unat (obj_id ob) < unat (h_counter h)"
  shows "\<forall>b ob. obj_at h' b = Some ob \<longrightarrow> unat (obj_id ob) < unat (h_counter h')"
    and "obj_at h a = None \<Longrightarrow> obj_at h' a = Some ob \<Longrightarrow> obj_at h b = Some ob' \<Longrightarrow> obj_id ob' \<noteq> obj_id ob"
proof -
  note g = assms(1) [unfolded grows_def, THEN conjunct2, rule_format, OF assms(2)]
  show "\<forall>b ob. obj_at h' b = Some ob \<longrightarrow> unat (obj_id ob) < unat (h_counter h')"
    using g assms(3) by (metis order_less_le_trans)
  show "obj_id ob' \<noteq> obj_id ob" if "obj_at h a = None" "obj_at h' a = Some ob" "obj_at h b = Some ob'"
    using g assms(3) that by (metis linorder_not_le option.distinct(1))
qed

section \<open>A concrete cache\<close>

text \<open>
  A group with a wrapper to peer 7 around connection 0, on which \<open>bad\<close> replies went wrong,
  and an application that knows the endpoint of peer 7 only.
\<close>

definition sample_mf :: mesg_factory where
  "sample_mf = \<lparr>mf_group_id = 3, mf_group_type = ''raft''\<rparr>"

definition sample_heap :: "u32 \<Rightarrow> client_heap" where
  "sample_heap bad = \<lparr>h_counter = 2,
     h_objs = [Messaging_client 0 ''host:1'' bad, Proto_client 1 (Some 0) (to_string bits_uuid_io 7) 3 ''raft'']\<rparr>"

definition sample_cenv :: client_env where
  "sample_cenv = \<lparr>ce_lookup_endpoint = (\<lambda>p. if p = 7 then ''host:2'' else []),
     ce_make_fails = (\<lambda>e. None), ce_ready = (\<lambda>a. True)\<rparr>"

lemma sample_cenv_simps [simp]:
  "ce_lookup_endpoint sample_cenv p = (if p = 7 then ''host:2'' else [])"
  "ce_make_fails sample_cenv e = None" "ce_ready sample_cenv a"
  by (simp_all add: sample_cenv_def)

lemma sample_heap_simps [simp]:
  "obj_at (sample_heap bad) 0 = Some (Messaging_client 0 ''host:1'' bad)"
  "obj_at (sample_heap bad) (Suc 0) = Some (Proto_client 1 (Some 0) (to_string bits_uuid_io 7) 3 ''raft'')"
  "obj_at (sample_heap bad) (Suc (Suc a)) = None" "h_counter (sample_heap bad) = 2"
  by (simp_all add: obj_at_def sample_heap_def)

lemma sample_clients_ok:
  "clients_ok gf_proper [(7, Some 0)] (sample_heap bad)"
  "clients_ok (mf_proper bits_uuid_io sample_mf) [(7, Some 1)] ([(7, Some 0)], sample_heap bad)"
  by (auto simp: clients_ok_def om_inv_def gf_proper_def is_messaging_iff mf_proper_obj sample_mf_def split: if_splits)

lemma sample_ids_below:
  "\<forall>b ob. obj_at (sample_heap bad) b = Some ob \<longrightarrow> unat (obj_id ob) < unat (h_counter (sample_heap bad))"
  by (auto simp: obj_at_def sample_heap_def nth_Cons split: nat.splits)

section \<open>Properties\<close>

text \<open>
  C3: The client cache of a group never goes wrong. From a state in which the cached
  pointers are group wrappers around live connections, \<open>create_or_reinit_client\<close> returns for
  every peer, forced or not, whatever the application's lookup and \<open>make\<close> return, exceptions of
  theirs apart: it neither crashes nor throws, the caller gets a non-null client, namely the one that is now cached or an error client, no other peer's entry
  changes, and both caches again hold only pointers of the right class, never null. The
  unchecked \<open>dynamic_pointer_cast\<close>s of the data service rest on this.
\<close>

theorem client_cache_safe:
  assumes "clients_ok gf_proper gcl h" and "clients_ok (mf_proper io mf) cl (gcl, h)"
  shows "\<exists>a cl' gcl' h'. mf_create_or_reinit io env mf p force (cl, gcl, h) = Ret (Some a, cl', gcl', h')
    \<and> clients_ok gf_proper gcl' h' \<and> clients_ok (mf_proper io mf) cl' (gcl', h')
    \<and> (om_find cl' p = Some (Some a) \<or> is_error_at h' a)
    \<and> (\<forall>q. q \<noteq> p \<longrightarrow> om_find cl' q = om_find cl q)"
  using mf.create_or_reinit_safe [where s = "(gcl, h)" and cl = cl and env = env and p = p and f = force, OF _ assms(2)] assms(1)
  by (fastforce simp: mf_create_or_reinit_def mf_inv_def mf_failed_def)

theorem client_cache_safe_witness:
  "\<exists>a cl' gcl' h'. mf_create_or_reinit bits_uuid_io sample_cenv sample_mf 7 True
      ([(7, Some 1)], [(7, Some 0)], sample_heap 0) = Ret (Some a, cl', gcl', h')
    \<and> clients_ok (mf_proper bits_uuid_io sample_mf) cl' (gcl', h')"
  using client_cache_safe [OF sample_clients_ok, of sample_cenv 7 True 0] by blast

text \<open>
  C16: NuRaft tells a stale callback by the id of the client, so a forced \<open>create_client\<close>
  must hand out an id that no client made before carries. It does, whether the call ends
  in a new wrapper or in an error client, as long as the 64-bit counter does not wrap.
\<close>

theorem forced_client_has_fresh_id:
  assumes "clients_ok gf_proper gcl h" and "clients_ok (mf_proper io mf) cl (gcl, h)"
    and "\<forall>b ob. obj_at h b = Some ob \<longrightarrow> unat (obj_id ob) < unat (h_counter h)"
    and "unat (h_counter h) + 4 < 2 ^ 64" and "make_ids_ok env"
  shows "\<exists>a ob cl' gcl' h'. mf_create_or_reinit io env mf p True (cl, gcl, h) = Ret (Some a, cl', gcl', h')
    \<and> obj_at h' a = Some ob \<and> (\<forall>b ob'. obj_at h b = Some ob' \<longrightarrow> obj_id ob' \<noteq> obj_id ob)
    \<and> (\<forall>b ob'. obj_at h' b = Some ob' \<longrightarrow> unat (obj_id ob') < unat (h_counter h'))"
proof -
  obtain a cl' gcl' h' where ret: "mf_create_or_reinit io env mf p True (cl, gcl, h) = Ret (Some a, cl', gcl', h')"
    using mf.create_or_reinit_safe [where s = "(gcl, h)" and env = env and p = p and f = True, OF _ assms(2)] assms(1)
    by (auto simp: mf_create_or_reinit_def mf_inv_def)
  from mf_forced_grows [OF assms(5) ret] obtain ob where g: "grows 4 h h'" "obj_at h a = None" "obj_at h' a = Some ob"
    by auto
  from ret g grows_ids [OF g(1) assms(4,3)] show ?thesis by blast
qed

theorem forced_client_has_fresh_id_witness:
  "\<exists>a ob cl' gcl' h'. mf_create_or_reinit bits_uuid_io sample_cenv sample_mf 7 True
      ([(7, Some 1)], [(7, Some 0)], sample_heap 0) = Ret (Some a, cl', gcl', h')
    \<and> obj_at h' a = Some ob \<and> obj_id ob \<noteq> 0 \<and> obj_id ob \<noteq> 1"
proof -
  have "make_ids_ok sample_cenv" by (simp add: make_ids_ok_def)
  from forced_client_has_fresh_id [OF sample_clients_ok sample_ids_below _ this, of 0 7]
  obtain a ob cl' gcl' h' where r: "mf_create_or_reinit bits_uuid_io sample_cenv sample_mf 7 True
      ([(7, Some 1)], [(7, Some 0)], sample_heap 0) = Ret (Some a, cl', gcl', h')" "obj_at h' a = Some ob"
    and f: "\<And>b ob'. obj_at (sample_heap 0) b = Some ob' \<Longrightarrow> obj_id ob' \<noteq> obj_id ob"
    by auto
  show ?thesis using r f [of 0] f [of "Suc 0"] by fastforce
qed

text \<open>
  A healthy connection is shared. When the process's factory has a ready connection
  to the peer that no reply has marked bad, a group that asks for the peer for the first
  time gets a new wrapper around that very connection; the connection, the process's cache
  and every existing object stay as they are.
\<close>

lemma healthy_connection_shared:
  assumes "clients_ok gf_proper gcl h" and "om_inv cl" and "om_find cl p = None"
    and "om_find gcl p = Some (Some m)" and "obj_at h m = Some (Messaging_client i ad 0)" and "ce_ready env m"
  shows "\<exists>a h'. mf_create_or_reinit io env mf p f (cl, gcl, h) = Ret (Some a, om_assign p (Some a) cl, gcl, h')
    \<and> obj_at h a = None
    \<and> obj_at h' a = Some (Proto_client (h_counter h) (Some m) (to_string io p) (mf_group_id mf) (mf_group_type mf))
    \<and> (\<forall>b ob. obj_at h b = Some ob \<longrightarrow> obj_at h' b = Some ob)"
proof -
  have inv: "om_inv gcl" using assms(1) by (simp add: clients_ok_def)
  note look = gf_lookup_healthy [OF inv assms(4-6)]
  have msg: "is_messaging_at h m" using assms(5) by (auto simp: is_messaging_iff)
  show ?thesis
    using assms(2,3) look msg
    by (auto simp: mf_create_or_reinit_def create_or_reinit_client_eq mf_create_client_def mf_messaging_client_def
        om_emplace_def Let_def case_prod_unfold om.assign_assign)
qed

lemma healthy_connection_shared_witness:
  "\<exists>a h'. mf_create_or_reinit bits_uuid_io sample_cenv sample_mf 7 False ([], [(7, Some 0)], sample_heap 0)
      = Ret (Some a, [(7, Some a)], [(7, Some 0)], h')
    \<and> obj_at h' a = Some (Proto_client 2 (Some 0) (to_string bits_uuid_io 7) 3 ''raft'')"
  using healthy_connection_shared [OF sample_clients_ok(1) [of 0], where cl = "[]" and p = 7 and m = 0
      and env = sample_cenv and mf = sample_mf and io = bits_uuid_io and f = False]
  by (auto simp: sample_mf_def)

text \<open>
  C15: A connection that is not ready, or on which a reply has raised \<open>bad_service\<close>, is
  replaced on the next lookup without changing the identity NuRaft sees. The lookup returns
  the cached wrapper itself, with its id; behind it there is now a new connection to the
  endpoint the application names today, with a clean \<open>bad_service\<close> counter, which is also
  what the process's cache holds. Every other object is untouched: a wrapper of another
  group keeps the old connection until its own next lookup.
\<close>

theorem bad_connection_replaced:
  assumes "clients_ok gf_proper gcl h" and "clients_ok (mf_proper io mf) cl (gcl, h)"
    and "om_find cl p = Some (Some a)" and "obj_at h a = Some (Proto_client i c ad g t)"
    and "om_find gcl p = Some (Some m)" and "obj_at h m = Some (Messaging_client j ad' bad)"
    and "\<not> ce_ready env m \<or> 0 < bad"
    and "ce_lookup_endpoint env p \<noteq> []" and "ce_make_fails env (ce_lookup_endpoint env p) = None"
  shows "\<exists>m' h'. mf_create_or_reinit io env mf p False (cl, gcl, h) = Ret (Some a, cl, om_assign p (Some m') gcl, h')
    \<and> obj_at h m' = None \<and> obj_at h' m' = Some (Messaging_client (h_counter h) (ce_lookup_endpoint env p) 0)
    \<and> obj_at h' a = Some (Proto_client i (Some m') ad g t)
    \<and> (\<forall>b ob. b \<noteq> a \<longrightarrow> obj_at h b = Some ob \<longrightarrow> obj_at h' b = Some ob)"
  using assms by (rule mf_lookup_renews)

theorem bad_connection_replaced_witness:
  "\<exists>m' h'. mf_create_or_reinit bits_uuid_io sample_cenv sample_mf 7 False
      ([(7, Some 1)], [(7, Some 0)], sample_heap 1) = Ret (Some 1, [(7, Some 1)], [(7, Some m')], h')
    \<and> obj_at h' m' = Some (Messaging_client 2 ''host:2'' 0)
    \<and> obj_at h' 1 = Some (Proto_client 1 (Some m') (to_string bits_uuid_io 7) 3 ''raft'')"
  using bad_connection_replaced [OF sample_clients_ok(1) [of 1] sample_clients_ok(2) [of 1], where p = 7 and a = 1 and m = 0
      and env = sample_cenv and bad = 1 and i = 1 and j = 0
      and c = "Some 0" and ad = "to_string bits_uuid_io 7" and g = 3 and t = "''raft''" and ad' = "''host:1''"]
  by simp blast

end
