(* ===== verification/Client_Requests.thy ===== *)
theory Client_Requests
  imports Raft_Api Client_Factory
begin

text \<open>
  Requests a client sends to a group: \<open>add_server\<close>, \<open>rem_server\<close> and \<open>append_entry\<close> of
  \<open>grpc_factory\<close> (\<open>src/lib/factory.cpp\<close>) with the handler that follows redirections to
  the leader, and the data channel requests of \<open>mesg_factory\<close>
  (\<open>src/proto/proto_mesg_factory.cpp\<close>), over the client cache of \<open>Client_Factory\<close>. The
  network and the other nodes are a function that answers group messages.
\<close>

section \<open>Messages\<close>

text \<open>What the RAFT library provides for building entries.\<close>

record entry_codec =
  ec_srv_config :: "i32 \<Rightarrow> string \<Rightarrow> buffer"
  ec_put_int32 :: "i32 \<Rightarrow> buffer"
  ec_app_log :: u32
  ec_cluster_server :: u32

text \<open>The payload types for which \<open>createMessage\<close> is specialised.\<close>

datatype payload = Add_server u32 | Append_entry buffer | Rem_server i32

definition single_entry_request :: "u32 \<Rightarrow> i32 \<Rightarrow> log_entry \<Rightarrow> req_msg" where
  "single_entry_request type dst log =
     \<lparr>m_term = 0, m_type = type, m_src = 0, m_dst = dst, last_log_term = 0, last_log_idx = 0,
      commit_idx = 0, log_entries = [log]\<rparr>"

fun createMessage :: "uuid_io \<Rightarrow> msg_types \<Rightarrow> entry_codec \<Rightarrow> payload \<Rightarrow> peer_id \<Rightarrow> req_msg" where
  "createMessage io mt ec (Add_server srv_id) srv_addr =
     single_entry_request (add_server_request mt) 0
       \<lparr>le_term = 0, le_buf = ec_srv_config ec srv_id (to_string io srv_addr),
        le_val_type = ec_cluster_server ec, le_timestamp = 0\<rparr>"
| "createMessage io mt ec (Append_entry buf) _ =
     single_entry_request (client_request mt) 1
       \<lparr>le_term = 0, le_buf = buf, le_val_type = ec_app_log ec, le_timestamp = 0\<rparr>"
| "createMessage io mt ec (Rem_server srv_id) _ =
     single_entry_request (remove_server_request mt) 0
       \<lparr>le_term = 0, le_buf = ec_put_int32 ec srv_id, le_val_type = ec_cluster_server ec,
        le_timestamp = 0\<rparr>"

section \<open>The context of a request\<close>

text \<open>
  \<open>client_ctx\<close>; \<open>cc_promise\<close> is the value its current promise was given, if any.
\<close>

record client_ctx =
  cc_cur_dest :: i32
  cc_new_srv_addr :: peer_id
  cc_payload :: payload
  cc_promise :: "null_result option"

definition client_ctx_new :: "payload \<Rightarrow> i32 \<Rightarrow> peer_id \<Rightarrow> client_ctx" where
  "client_ctx_new payload dest new_srv_addr =
     \<lparr>cc_cur_dest = dest, cc_new_srv_addr = new_srv_addr, cc_payload = payload, cc_promise = None\<rparr>"

text \<open>\<open>future()\<close> replaces the promise; a value the old one was given is gone.\<close>

definition ctx_future :: "client_ctx \<Rightarrow> client_ctx" where
  "ctx_future ctx = ctx\<lparr>cc_promise := None\<rparr>"

text \<open>A second value is an exception of the promise that nothing catches.\<close>

definition ctx_set :: "cmd_result_code \<Rightarrow> client_ctx \<Rightarrow> client_ctx run" where
  "ctx_set code ctx =
     (if cc_promise ctx = None then Ret (ctx\<lparr>cc_promise := Some (null_result_of code)\<rparr>) else Crash)"

section \<open>The handler of a response\<close>

text \<open>The factory of a group with the state it works on.\<close>

type_synonym mf_state = "clients \<times> shared_clients"

abbreviation st_heap :: "mf_state \<Rightarrow> client_heap" where
  "st_heap st \<equiv> snd (snd st)"

definition lookup_client ::
  "uuid_io \<Rightarrow> client_env \<Rightarrow> mesg_factory \<Rightarrow> string \<Rightarrow> mf_state \<Rightarrow> (nat option \<times> mf_state) run" where
  "lookup_client io env mf client st = client_by_name io (mf_create_or_reinit io env mf) False client st"

text \<open>
  \<open>respHandler\<close> gives the promise its value, or forwards the request: a new message for
  the client it looked up. A null client is used without a check.
\<close>

datatype handled = Completed client_ctx | Forwarded client_ctx nat req_msg

definition respHandler ::
  "uuid_io \<Rightarrow> msg_types \<Rightarrow> entry_codec \<Rightarrow> client_env \<Rightarrow> mesg_factory \<Rightarrow> client_ctx \<Rightarrow> grpc_resp option
   \<Rightarrow> rpc_exception option \<Rightarrow> mf_state \<Rightarrow> (handled \<times> mf_state) run" where
  "respHandler io mt ec env mf ctx rsp err st =
     (let complete = (\<lambda>code. run_bind (ctx_set code ctx) (\<lambda>ctx'. Ret (Completed ctx', st))) in
      case rsp of
        None \<Rightarrow> complete SERVER_NOT_FOUND
      | Some r \<Rightarrow>
          (if err \<noteq> None then complete (result_code r)
           else if accepted r then complete (result_code r)
           else if cc_cur_dest ctx = m_dst r then complete (result_code r)
           else if sint (m_dst r) < 0 then complete (result_code r)
           else
             (let ctx' = ctx\<lparr>cc_cur_dest := m_dst r\<rparr> in
              run_bind (lookup_client io env mf (dest_addr r) st) (\<lambda>(client, st').
                run_bind (deref client) (\<lambda>a.
                  Ret (Forwarded ctx' a (createMessage io mt ec (cc_payload ctx) (cc_new_srv_addr ctx)), st'))))))"

section \<open>Sending\<close>

text \<open>
  \<open>client->send(req, handler)\<close>: a group message handed to the connection, or the
  immediate completion of an error client. \<open>grpc_base_client::send\<close> casts its object to
  a \<open>grpc_proto_client\<close>; on a bare connection that is undefined.
\<close>

datatype sent = On_wire nat RaftGroupMsg | Failed_now rpc_exception

definition client_send :: "uuid_io \<Rightarrow> client_heap \<Rightarrow> nat \<Rightarrow> req_msg \<Rightarrow> sent run" where
  "client_send io h a req =
     (case obj_at h a of
        Some (Proto_client _ client addr gid gtype) \<Rightarrow>
          run_bind (deref client) (\<lambda>m. Ret (On_wire m (group_msg io addr gid gtype (grpc_request req))))
      | Some (Error_client _) \<Rightarrow> Ret (Failed_now \<lparr>ex_what = ''Bad connection'', ex_req = req\<rparr>)
      | _ \<Rightarrow> Crash)"

text \<open>
  \<open>bad_service.fetch_add(1)\<close> on a connection. A connection that was destroyed meanwhile
  is skipped by the code; in the store its cell is one that nothing reads again.
\<close>

definition mark_bad :: "nat \<Rightarrow> client_heap \<Rightarrow> client_heap" where
  "mark_bad m h =
     (case obj_at h m of
        Some (Messaging_client i addr bad) \<Rightarrow> upd_obj m (Messaging_client i addr (bad + 1)) h
      | _ \<Rightarrow> h)"

text \<open>The completion in \<open>messaging_client::send_grp\<close>: the wrong service is remembered.\<close>

definition send_grp_complete :: "nat \<Rightarrow> grpc_status \<Rightarrow> client_heap \<Rightarrow> client_heap" where
  "send_grp_complete m status h = (if error_code status = S_INVALID_ARGUMENT then mark_bad m h else h)"

text \<open>
  What surrounds a request at its \<open>n\<close>-th message: the answers of the application and of
  the connections, and the reply to a group message.
\<close>

record world =
  w_env :: "nat \<Rightarrow> client_env"
  w_reply :: "nat \<Rightarrow> RaftGroupMsg \<Rightarrow> RaftGroupMsg \<times> grpc_status"

text \<open>A message that is on the wire: answered, completed, handled.\<close>

definition on_reply ::
  "uuid_io \<Rightarrow> msg_types \<Rightarrow> entry_codec \<Rightarrow> world \<Rightarrow> mesg_factory \<Rightarrow> nat \<Rightarrow> client_ctx \<Rightarrow> req_msg \<Rightarrow> nat \<Rightarrow> RaftGroupMsg
   \<Rightarrow> mf_state \<Rightarrow> (handled \<times> mf_state) run" where
  "on_reply io mt ec w mf n ctx req m message st =
     (let (response, status) = w_reply w n message;
          (cl, gcl, h) = st; st1 = (cl, gcl, send_grp_complete m status h);
          (rsp, err) = send_complete req (gm_msg response) status
      in respHandler io mt ec (w_env w n) mf ctx rsp err st1)"

text \<open>One message: sent, answered, completed, handled.\<close>

definition one_hop ::
  "uuid_io \<Rightarrow> msg_types \<Rightarrow> entry_codec \<Rightarrow> world \<Rightarrow> mesg_factory \<Rightarrow> nat \<Rightarrow> client_ctx \<Rightarrow> nat \<Rightarrow> req_msg
   \<Rightarrow> mf_state \<Rightarrow> (handled \<times> mf_state) run" where
  "one_hop io mt ec w mf n ctx a req st =
     run_bind (client_send io (st_heap st) a req) (\<lambda>s.
       case s of
         Failed_now err \<Rightarrow> respHandler io mt ec (w_env w n) mf ctx None (Some err) st
       | On_wire m message \<Rightarrow> on_reply io mt ec w mf n ctx req m message st)"

text \<open>
  The request until it completes; \<open>None\<close> is a request that is forwarded for ever.
\<close>

partial_function (option) request_loop ::
  "uuid_io \<Rightarrow> msg_types \<Rightarrow> entry_codec \<Rightarrow> world \<Rightarrow> mesg_factory \<Rightarrow> nat \<Rightarrow> client_ctx \<Rightarrow> nat \<Rightarrow> req_msg
   \<Rightarrow> mf_state \<Rightarrow> (client_ctx \<times> mf_state) run option" where
  "request_loop io mt ec w mf n ctx a req st =
     (case one_hop io mt ec w mf n ctx a req st of
        Ret (h, st') \<Rightarrow>
          (case h of
             Completed ctx' \<Rightarrow> Some (Ret (ctx', st'))
           | Forwarded ctx' a' req' \<Rightarrow> request_loop io mt ec w mf (Suc n) ctx' a' req' st')
      | Runtime_error e \<Rightarrow> Some (Runtime_error e)
      | Crash \<Rightarrow> Some Crash)"

section \<open>The three requests\<close>

text \<open>
  What the caller gets: a value, a future whose promise was destroyed, or the request in
  flight, with its context after \<open>future()\<close>.
\<close>

datatype async_result =
    Ready null_result
  | Broken_promise
  | In_flight client_ctx nat RaftGroupMsg

text \<open>
  The common body: look up the client, build context and message, send, and only then
  ask the context for the future. If the request completed in between, nothing holds the
  context any more.
\<close>

definition start_request ::
  "uuid_io \<Rightarrow> msg_types \<Rightarrow> entry_codec \<Rightarrow> client_env \<Rightarrow> mesg_factory \<Rightarrow> payload \<Rightarrow> peer_id \<Rightarrow> srv_config
   \<Rightarrow> mf_state \<Rightarrow> (async_result \<times> mf_state) run" where
  "start_request io mt ec env mf payload srv_addr dest_cfg st =
     run_bind (lookup_client io env mf (sc_endpoint dest_cfg) st) (\<lambda>(client, st1).
       case client of
         None \<Rightarrow> Ret (Ready (Inl CANCELLED), st1)
       | Some a \<Rightarrow>
           (let ctx = client_ctx_new payload (sc_id dest_cfg) srv_addr;
                msg = createMessage io mt ec payload srv_addr in
            run_bind (client_send io (st_heap st1) a msg) (\<lambda>s.
              case s of
                On_wire m gm \<Rightarrow> Ret (In_flight (ctx_future ctx) m gm, st1)
              | Failed_now err \<Rightarrow>
                  run_bind (respHandler io mt ec env mf ctx None (Some err) st1)
                    (\<lambda>(_, st2). Ret (Broken_promise, st2)))))"

text \<open>An absent \<open>srv_addr\<close> is \<open>peer_id_t()\<close>.\<close>

definition add_server where
  "add_server io mt ec env mf srv_id srv_addr dest_cfg st =
     start_request io mt ec env mf (Add_server srv_id) srv_addr dest_cfg st"

definition rem_server where
  "rem_server io mt ec env mf (srv_id :: u32) dest_cfg st =
     start_request io mt ec env mf (Rem_server srv_id) 0 dest_cfg st"

definition append_entry where
  "append_entry io mt ec env mf buf dest_cfg st =
     start_request io mt ec env mf (Append_entry buf) 0 dest_cfg st"

section \<open>Data channel requests\<close>

text \<open>\<open>reinitRequired\<close> of a group's wrapper.\<close>

definition reinitRequired :: "client_heap \<Rightarrow> nat option \<Rightarrow> bool" where
  "reinitRequired h client =
     (case client of
        None \<Rightarrow> True
      | Some m \<Rightarrow> (case obj_at h m of Some (Messaging_client _ _ bad) \<Rightarrow> 0 < bad | _ \<Rightarrow> True))"

text \<open>\<open>dynamic_pointer_cast<grpc_proto_client>\<close>: the connection of the wrapper, if it is one.\<close>

definition proto_cast :: "client_heap \<Rightarrow> nat option \<Rightarrow> nat option option" where
  "proto_cast h p =
     (case p of
        None \<Rightarrow> None
      | Some a \<Rightarrow> (case obj_at h a of Some (Proto_client _ client _ _ _) \<Rightarrow> Some client | _ \<Rightarrow> None))"

text \<open>
  A request handed to a wrapper: connection and method name of the generic call. Null
  pointers on the way are crashes.
\<close>

definition proto_data_request :: "client_heap \<Rightarrow> nat option \<Rightarrow> string \<Rightarrow> (nat \<times> string) run" where
  "proto_data_request h p method =
     run_bind (deref (proto_cast h p)) (\<lambda>client. run_bind (deref client) (\<lambda>m. Ret (m, method)))"

fun run_mapM :: "('a \<Rightarrow> 'b run) \<Rightarrow> 'a list \<Rightarrow> 'b list run" where
  "run_mapM f [] = Ret []"
| "run_mapM f (x # xs) = run_bind (f x) (\<lambda>y. run_bind (run_mapM f xs) (\<lambda>ys. Ret (y # ys)))"

text \<open>The tail both requests share: create or repair the client, then send.\<close>

definition data_request_new ::
  "uuid_io \<Rightarrow> client_env \<Rightarrow> mesg_factory \<Rightarrow> peer_id \<Rightarrow> string \<Rightarrow> mf_state
   \<Rightarrow> ((nat \<times> string) list result \<times> mf_state) run" where
  "data_request_new io env mf dest method st =
     run_bind (mf_create_or_reinit io env mf dest False st) (\<lambda>(client, st1).
       case proto_cast (st_heap st1) client of
         None \<Rightarrow> Ret (Inl SERVER_NOT_FOUND, st1)
       | Some _ \<Rightarrow> run_bind (proto_data_request (st_heap st1) client method) (\<lambda>c. Ret (Inr [c], st1)))"

definition data_service_request_unidirectional ::
  "uuid_io \<Rightarrow> client_env \<Rightarrow> mesg_factory \<Rightarrow> peer_id result option \<Rightarrow> string \<Rightarrow> mf_state
   \<Rightarrow> ((nat \<times> string) list result \<times> mf_state) run" where
  "data_service_request_unidirectional io env mf dest request_name st =
     (let method = get_generic_method_name io request_name (mf_group_id mf) in
      case dest of
        Some (Inl e) \<Rightarrow> Ret (Inl e, st)
      | Some (Inr p) \<Rightarrow>
          (case om_find (fst st) p of
             Some client \<Rightarrow> run_bind (proto_data_request (st_heap st) client method) (\<lambda>c. Ret (Inr [c], st))
           | None \<Rightarrow> data_request_new io env mf p method st)
      | None \<Rightarrow>
          run_bind (run_mapM (\<lambda>e. proto_data_request (st_heap st) (snd e) method) (fst st))
            (\<lambda>cs. Ret (Inr cs, st)))"

definition data_service_request_bidirectional ::
  "uuid_io \<Rightarrow> client_env \<Rightarrow> mesg_factory \<Rightarrow> peer_id result option \<Rightarrow> string \<Rightarrow> mf_state
   \<Rightarrow> ((nat \<times> string) list result \<times> mf_state) run" where
  "data_service_request_bidirectional io env mf dest request_name st =
     (let method = get_generic_method_name io request_name (mf_group_id mf) in
      case dest of
        None \<Rightarrow> Ret (Inl BAD_REQUEST, st)
      | Some (Inl e) \<Rightarrow> Ret (Inl e, st)
      | Some (Inr p) \<Rightarrow>
          (case om_find (fst st) p of
             Some client \<Rightarrow>
               run_bind (deref (proto_cast (st_heap st) client)) (\<lambda>c.
                 if \<not> reinitRequired (st_heap st) c
                 then run_bind (proto_data_request (st_heap st) client method) (\<lambda>c. Ret (Inr [c], st))
                 else data_request_new io env mf p method st)
           | None \<Rightarrow> data_request_new io env mf p method st))"

text \<open>
  The completions in \<open>messaging_client\<close>. \<open>'r\<close> is the response of the generic call; only
  the request with a response marks its connection.
\<close>

definition unidirectional_complete :: "grpc_status + 'r \<Rightarrow> client_heap \<Rightarrow> null_result \<times> client_heap" where
  "unidirectional_complete response h =
     (case response of
        Inl error \<Rightarrow> (Inl (grpc_status_to_nuraft_code error), h)
      | Inr _ \<Rightarrow> (Inr (), h))"

definition bidirectional_complete :: "nat \<Rightarrow> grpc_status + 'r \<Rightarrow> client_heap \<Rightarrow> 'r result \<times> client_heap" where
  "bidirectional_complete m response h =
     (case response of
        Inl error \<Rightarrow> (Inl (grpc_status_to_nuraft_code error), mark_bad m h)
      | Inr r \<Rightarrow> (Inr r, h))"

text \<open>The answer to a request to all peers does not depend on the peers' answers.\<close>

definition broadcast_complete :: "null_result list \<Rightarrow> null_result" where
  "broadcast_complete _ = Inr ()"

section \<open>Invariant\<close>

definition st_ok :: "uuid_io \<Rightarrow> mesg_factory \<Rightarrow> mf_state \<Rightarrow> bool" where
  "st_ok io mf st \<longleftrightarrow> mf_inv (snd st) \<and> clients_ok (mf_proper io mf) (fst st) (snd st)"

text \<open>A client a request can be sent on: a wrapper of some peer, or an error client.\<close>

definition usable :: "uuid_io \<Rightarrow> mesg_factory \<Rightarrow> mf_state \<Rightarrow> nat \<Rightarrow> bool" where
  "usable io mf st a \<longleftrightarrow> (\<exists>p. mf_proper io mf (snd st) p a) \<or> is_error_at (st_heap st) a"

lemma mark_bad_obj:
  "obj_at (mark_bad m h) a =
     (case obj_at h a of
        Some (Messaging_client i ad b) \<Rightarrow> Some (Messaging_client i ad (if a = m then b + 1 else b))
      | ob \<Rightarrow> ob)"
  by (auto simp: mark_bad_def split: option.splits client_obj.splits)

lemma mark_bad_messaging [simp]: "is_messaging_at (mark_bad m h) a = is_messaging_at h a"
  by (auto simp: is_messaging_at_def mark_bad_obj split: option.splits client_obj.splits)

lemma mark_bad_error [simp]: "is_error_at (mark_bad m h) a = is_error_at h a"
  by (auto simp: is_error_at_def mark_bad_obj split: option.splits client_obj.splits)

lemma mark_bad_proper [simp]: "mf_proper io mf (gcl, mark_bad m h) p a = mf_proper io mf (gcl, h) p a"
  by (auto simp: mf_proper_def mark_bad_obj split: option.splits client_obj.splits)

lemma mark_bad_ok [simp]: "st_ok io mf (cl, gcl, mark_bad m h) = st_ok io mf (cl, gcl, h)"
  by (simp add: st_ok_def mf_inv_def clients_ok_def gf_proper_def)

lemma send_grp_complete_ok [simp]:
  "st_ok io mf (cl, gcl, send_grp_complete m status h) = st_ok io mf (cl, gcl, h)"
  "mf_proper io mf (gcl, send_grp_complete m status h) p a = mf_proper io mf (gcl, h) p a"
  by (simp_all add: send_grp_complete_def)

lemma clients_ok_find: "clients_ok proper cl s \<Longrightarrow> om_find cl p = Some (Some a) \<Longrightarrow> proper s p a"
  by (auto simp: clients_ok_def)

lemma lookup_client_law:
  assumes "st_ok io mf st"
  shows "\<exists>c st'. lookup_client io env mf name st = Ret (c, st') \<and> st_ok io mf st'
    \<and> (c = None \<longleftrightarrow> string_generator io name = None) \<and> (\<forall>a. c = Some a \<longrightarrow> usable io mf st' a)"
proof (cases "string_generator io name")
  case None
  with assms show ?thesis by (cases st) (simp add: lookup_client_def client_by_name_def)
next
  case (Some p)
  obtain cl s where st: "st = (cl, s)" by (cases st)
  obtain a cl' s' where r: "mf_create_or_reinit io env mf p False st = Ret (Some a, cl', s')"
      "mf_inv s'" "clients_ok (mf_proper io mf) cl' s'" "om_find cl' p = Some (Some a) \<or> mf_failed s' a"
    using mf.create_or_reinit_safe [where s = s and cl = cl and env = env and p = p and f = False
        and io = io and mf = mf] assms
    unfolding st_ok_def st mf_create_or_reinit_def fst_conv snd_conv by blast
  then have "usable io mf (cl', s') a"
    by (auto simp: usable_def clients_ok_def mf_failed_def)
  with r Some show ?thesis by (simp add: lookup_client_def client_by_name_def st_ok_def)
qed

lemma client_send_usable:
  assumes "usable io mf st a"
  shows "(\<exists>p m. mf_proper io mf (snd st) p a \<and> client_send io (st_heap st) a req =
      Ret (On_wire m (group_msg io (to_string io p) (mf_group_id mf) (mf_group_type mf) (grpc_request req)))) \<or>
    client_send io (st_heap st) a req = Ret (Failed_now \<lparr>ex_what = ''Bad connection'', ex_req = req\<rparr>)"
  using assms
  by (auto simp: usable_def client_send_def mf_proper_obj is_error_at_def split: option.splits client_obj.splits)

section \<open>The handler\<close>

text \<open>A response that makes the handler forward the request.\<close>

definition redirects :: "client_ctx \<Rightarrow> grpc_resp \<Rightarrow> bool" where
  "redirects ctx r \<longleftrightarrow> \<not> accepted r \<and> cc_cur_dest ctx \<noteq> m_dst r \<and> 0 \<le> sint (m_dst r)"

lemma respHandler_completes:
  assumes "cc_promise ctx = None" and "rsp = None \<or> err \<noteq> None \<or> \<not> redirects ctx (the rsp)"
  shows "respHandler io mt ec env mf ctx rsp err st =
    Ret (Completed (ctx\<lparr>cc_promise := Some (null_result_of
      (case rsp of None \<Rightarrow> SERVER_NOT_FOUND | Some r \<Rightarrow> result_code r))\<rparr>), st)"
  using assms by (auto simp: respHandler_def ctx_set_def redirects_def Let_def split: option.splits)

lemma respHandler_redirects:
  assumes "redirects ctx r"
  shows "respHandler io mt ec env mf ctx (Some r) None st =
    run_bind (lookup_client io env mf (dest_addr r) st) (\<lambda>(client, st').
      run_bind (deref client) (\<lambda>a. Ret (Forwarded (ctx\<lparr>cc_cur_dest := m_dst r\<rparr>) a
        (createMessage io mt ec (cc_payload ctx) (cc_new_srv_addr ctx)), st')))"
  using assms by (auto simp: respHandler_def redirects_def Let_def)

text \<open>What a handled response leaves behind.\<close>

definition handled_ok :: "uuid_io \<Rightarrow> mesg_factory \<Rightarrow> handled \<times> mf_state \<Rightarrow> bool" where
  "handled_ok io mf hs \<longleftrightarrow> st_ok io mf (snd hs) \<and>
     (case fst hs of
        Completed ctx \<Rightarrow> cc_promise ctx \<noteq> None
      | Forwarded ctx a req \<Rightarrow> cc_promise ctx = None \<and> usable io mf (snd hs) a)"

lemma respHandler_law:
  assumes "st_ok io mf st" and "cc_promise ctx = None"
    and addr: "\<And>r. rsp = Some r \<Longrightarrow> redirects ctx r \<Longrightarrow> string_generator io (dest_addr r) \<noteq> None"
  shows "\<exists>hs. respHandler io mt ec env mf ctx rsp err st = Ret hs \<and> handled_ok io mf hs"
proof (cases "rsp = None \<or> err \<noteq> None \<or> \<not> redirects ctx (the rsp)")
  case True
  then show ?thesis using respHandler_completes [OF assms(2) True] assms(1) by (simp add: handled_ok_def)
next
  case False
  then obtain r where r: "rsp = Some r" "err = None" "redirects ctx r" by auto
  then obtain a st' where "lookup_client io env mf (dest_addr r) st = Ret (Some a, st')" "st_ok io mf st'"
      "usable io mf st' a"
    using lookup_client_law [OF assms(1), of env "dest_addr r"] addr by auto
  then show ?thesis using respHandler_redirects [OF r(3)] r assms(2) by (simp add: handled_ok_def)
qed

section \<open>One message and the whole request\<close>

text \<open>Every redirection names a server that can be looked up.\<close>

definition redirects_named :: "uuid_io \<Rightarrow> world \<Rightarrow> bool" where
  "redirects_named io w \<longleftrightarrow> (\<forall>n gm r. toResponse (gm_msg (fst (w_reply w n gm))) = Some r \<longrightarrow>
     \<not> accepted r \<longrightarrow> 0 \<le> sint (m_dst r) \<longrightarrow> string_generator io (dest_addr r) \<noteq> None)"

lemma send_complete_Some: "fst (send_complete req resp status) = Some r \<Longrightarrow> toResponse resp = Some r"
  by (auto simp: send_complete_def split: if_splits option.splits)

lemma one_hop_law:
  assumes st: "st_ok io mf st" and a: "usable io mf st a" and ctx: "cc_promise ctx = None"
    and named: "redirects_named io w"
  shows "\<exists>hs. one_hop io mt ec w mf n ctx a req st = Ret hs \<and> handled_ok io mf hs"
  using client_send_usable [OF a, of req]
proof (elim disjE exE conjE)
  fix p m
  assume send: "client_send io (st_heap st) a req =
    Ret (On_wire m (group_msg io (to_string io p) (mf_group_id mf) (mf_group_type mf) (grpc_request req)))"
  let ?gm = "group_msg io (to_string io p) (mf_group_id mf) (mf_group_type mf) (grpc_request req)"
  obtain response status where reply: "w_reply w n ?gm = (response, status)" by (rule prod.exhaust)
  obtain rsp err where comp: "send_complete req (gm_msg response) status = (rsp, err)" by (rule prod.exhaust)
  obtain cl gcl h where st3: "st = (cl, gcl, h)" by (cases st)
  have "rsp = Some r \<Longrightarrow> redirects ctx r \<Longrightarrow> string_generator io (dest_addr r) \<noteq> None" for r
    using send_complete_Some [of req "gm_msg response" status r]
      named [unfolded redirects_named_def, rule_format, of n ?gm r]
    by (simp add: reply comp redirects_def)
  with st ctx respHandler_law [of io mf "(cl, gcl, send_grp_complete m status h)" ctx rsp mt ec "w_env w n" err]
  obtain hs where "respHandler io mt ec (w_env w n) mf ctx rsp err (cl, gcl, send_grp_complete m status h) = Ret hs"
      "handled_ok io mf hs"
    by (auto simp: st3)
  with send show ?thesis by (simp add: one_hop_def on_reply_def reply comp st3)
next
  assume "client_send io (st_heap st) a req = Ret (Failed_now \<lparr>ex_what = ''Bad connection'', ex_req = req\<rparr>)"
  with respHandler_law [OF st ctx, of None] show ?thesis by (simp add: one_hop_def on_reply_def)
qed

lemmas request_loop_induct = request_loop.raw_induct [rotated, consumes 1, case_names step]

lemma request_loop_law:
  assumes "request_loop io mt ec w mf n ctx a req st = Some res"
    and "st_ok io mf st" and "usable io mf st a" and "cc_promise ctx = None" and "redirects_named io w"
  shows "\<exists>ctx' st'. res = Ret (ctx', st') \<and> cc_promise ctx' \<noteq> None \<and> st_ok io mf st'"
  using assms
proof (induction rule: request_loop_induct)
  case (step loop io mt ec w mf n ctx a req st res)
  obtain hs where hs: "one_hop io mt ec w mf n ctx a req st = Ret hs" "handled_ok io mf hs"
    using one_hop_law [OF step(3-6)] by blast
  obtain h st' where "hs = (h, st')" by (rule prod.exhaust)
  note hop = hs [unfolded this]
  show ?case
  proof (cases h)
    case (Completed ctx')
    with hop step(2) show ?thesis by (cases st') (auto simp: handled_ok_def)
  next
    case (Forwarded ctx' a' req')
    with hop step(2) have "loop io mt ec w mf (Suc n) ctx' a' req' st' = Some res" by simp
    from step(1) [OF this] hop(2) Forwarded step(6) show ?thesis by (simp add: handled_ok_def)
  qed
qed

section \<open>Following redirections\<close>

text \<open>
  A connection to the peer can always be made: the application knows an endpoint and
  \<open>make\<close> gives a client.
\<close>

definition reachable :: "client_env \<Rightarrow> peer_id \<Rightarrow> bool" where
  "reachable env p \<longleftrightarrow> ce_lookup_endpoint env p \<noteq> [] \<and> ce_make_fails env (ce_lookup_endpoint env p) = None"

lemma gf_reachable_OK:
  assumes "reachable env p"
  shows "gf_create_client env p slot h = Ret (c, slot', h') \<Longrightarrow> c = OK"
    and "gf_reinit_client env p slot h = Ret (c, slot', h') \<Longrightarrow> c = OK"
  using assms
  by (cases slot; auto simp: reachable_def gf_create_client_def gf_reinit_client_def Let_def case_prod_unfold
      split: option.splits client_obj.splits if_splits)+

lemma mf_messaging_reachable:
  assumes "mf_inv s" and "reachable env p"
  shows "\<exists>m s'. mf_messaging_client env p s = Ret (Some m, s')"
proof -
  obtain gcl h where s: "s = (gcl, h)" by (cases s)
  have ok: "(if om_find gcl p = None \<or> False then gf_create_client env p slot h else gf_reinit_client env p slot h)
      = Ret (c, slot', s') \<Longrightarrow> c = OK" for slot c slot' s'
    using gf_reachable_OK [OF assms(2)] by (auto split: if_splits)
  have cl: "clients_ok gf_proper gcl h" using assms(1) by (simp add: mf_inv_def s)
  have "\<exists>m gcl' h'. gf_create_or_reinit env p False (gcl, h) = Ret (Some m, gcl', h') \<and> True \<and>
      clients_ok gf_proper gcl' h' \<and> om_find gcl' p = Some (Some m)"
    unfolding gf_create_or_reinit_def by (rule gf.create_or_reinit_ok [OF TrueI cl]) (rule ok)
  then show ?thesis by (auto simp: mf_messaging_client_def s gf_proper_def dest: clients_ok_find)
qed

lemma mf_lookup_reachable:
  assumes "uuid_io_ok io" and "st_ok io mf st" and "reachable env p"
  shows "\<exists>a st'. lookup_client io env mf (to_string io p) st = Ret (Some a, st') \<and> st_ok io mf st'
    \<and> mf_proper io mf (snd st') p a \<and> om_find (fst st') p = Some (Some a)"
proof -
  obtain cl s where st: "st = (cl, s)" by (cases st)
  have inv: "mf_inv s" "clients_ok (mf_proper io mf) cl s" using assms(2) by (simp_all add: st_ok_def st)
  obtain m s1 where m: "mf_messaging_client env p s = Ret (Some m, s1)"
    using mf_messaging_reachable [OF inv(1) assms(3)] by blast
  have create: "mf_create_client io env mf p slot s = Ret (c, slot', s') \<Longrightarrow> c = OK" for slot c slot' s'
    by (simp add: mf_create_client_def m case_prod_unfold Let_def)
  have "\<exists>a. om_find cl p = None \<or> om_find cl p = Some (Some a) \<and> mf_proper io mf s p a"
    using inv(2) by (cases "om_find cl p") (auto simp: clients_ok_def)
  then obtain a where slot: "om_find cl p = None \<or> om_find cl p = Some (Some a) \<and> mf_proper io mf s p a" by blast
  show ?thesis
  proof (cases "om_find cl p")
    case None
    have "\<exists>a cl' s'. mf_create_or_reinit io env mf p False (cl, s) = Ret (Some a, cl', s') \<and> mf_inv s'
        \<and> clients_ok (mf_proper io mf) cl' s' \<and> om_find cl' p = Some (Some a)"
      unfolding mf_create_or_reinit_def
      by (rule mf.create_or_reinit_ok [OF inv]) (use None create in auto)
    then show ?thesis
      by (auto simp: lookup_client_def client_by_name_def uuid_parse_print [OF assms(1)] st st_ok_def dest: clients_ok_find)
  next
    case (Some v)
    with slot have a: "om_find cl p = Some (Some a)" "mf_proper io mf s p a" by auto
    then obtain i c where ob: "obj_at (snd s) a = Some (Proto_client i c (to_string io p) (mf_group_id mf) (mf_group_type mf))"
      by (auto simp: mf_proper_obj)
    obtain c' s' where r: "mf_reinit_client env p (Some a) s = Ret (c', Some a, s')" "mf_inv s'"
        "mf_proper io mf s' p a" "mf_ext s s'"
      using mf_reinit_law [OF inv(1) a(2)] by blast
    have "c' = OK" using r(1) ob m by (simp add: mf_reinit_client_def case_prod_unfold)
    moreover have "om_assign p (Some a) cl = cl"
      using inv(2) a(1) by (intro om.assign_same) (auto simp: clients_ok_def)
    ultimately have "mf_create_or_reinit io env mf p False (cl, s) = Ret (Some a, cl, s')"
      using r(1) a(1) by (simp add: mf_create_or_reinit_def create_or_reinit_client_eq om_emplace_def)
    moreover have "clients_ok (mf_proper io mf) cl s'"
      using inv(2) mf_proper_ext [OF r(4)] by (rule clients_ok_mono)
    ultimately show ?thesis using r a
      by (auto simp: lookup_client_def client_by_name_def uuid_parse_print [OF assms(1)] st st_ok_def)
  qed
qed

text \<open>
  How a peer answers every request of the group: with \<open>r\<close>, whatever the message and the
  time.
\<close>

definition answers :: "uuid_io \<Rightarrow> world \<Rightarrow> peer_id \<Rightarrow> (grpc_resp \<Rightarrow> bool) \<Rightarrow> bool" where
  "answers io w p Q \<longleftrightarrow> (\<forall>n gm. gm_intended_addr gm = to_string io p \<longrightarrow>
     (\<exists>resp r. w_reply w n gm = (resp, Status_OK) \<and> toResponse (gm_msg resp) = Some r \<and> Q r))"

definition points_to :: "uuid_io \<Rightarrow> i32 \<Rightarrow> peer_id \<Rightarrow> grpc_resp \<Rightarrow> bool" where
  "points_to io sid q r \<longleftrightarrow> \<not> accepted r \<and> m_dst r = sid \<and> dest_addr r = to_string io q"

lemma one_hop_answered:
  assumes "mf_proper io mf (snd st) p a" and "answers io w p Q"
  shows "\<exists>r h. Q r \<and> one_hop io mt ec w mf n ctx a req st =
    respHandler io mt ec (w_env w n) mf ctx (Some r) None (fst st, fst (snd st), h) \<and>
    (st_ok io mf st \<longrightarrow> st_ok io mf (fst st, fst (snd st), h))"
proof -
  obtain m where send: "client_send io (st_heap st) a req =
      Ret (On_wire m (group_msg io (to_string io p) (mf_group_id mf) (mf_group_type mf) (grpc_request req)))"
    using assms(1) by (auto simp: client_send_def mf_proper_obj)
  let ?gm = "group_msg io (to_string io p) (mf_group_id mf) (mf_group_type mf) (grpc_request req)"
  have "gm_intended_addr ?gm = to_string io p" by (simp add: group_msg_def)
  with assms(2) obtain resp r where r: "w_reply w n ?gm = (resp, Status_OK)"
      "toResponse (gm_msg resp) = Some r" "Q r"
    unfolding answers_def by blast
  obtain cl gcl h where st: "st = (cl, gcl, h)" by (cases st)
  have ok: "status_ok Status_OK" by (simp add: status_ok_def Status_OK_def)
  show ?thesis
    using r send
    by (intro exI [of _ r] exI [of _ h])
      (simp add: one_hop_def on_reply_def st send_complete_def ok, simp add: send_grp_complete_def Status_OK_def)
qed

text \<open>One redirection: the request moves on to the peer the answer names.\<close>

lemma one_hop_forwards:
  assumes "uuid_io_ok io" and "st_ok io mf st" and "mf_proper io mf (snd st) p a"
    and "answers io w p (points_to io sid q)" and "cc_cur_dest ctx \<noteq> sid" and "0 \<le> sint sid"
    and "reachable (w_env w n) q"
  shows "\<exists>a' st'. one_hop io mt ec w mf n ctx a req st =
      Ret (Forwarded (ctx\<lparr>cc_cur_dest := sid\<rparr>) a' (createMessage io mt ec (cc_payload ctx) (cc_new_srv_addr ctx)), st')
    \<and> st_ok io mf st' \<and> mf_proper io mf (snd st') q a'"
proof -
  obtain r h where hop: "points_to io sid q r" "one_hop io mt ec w mf n ctx a req st =
      respHandler io mt ec (w_env w n) mf ctx (Some r) None (fst st, fst (snd st), h)"
      "st_ok io mf (fst st, fst (snd st), h)"
    using one_hop_answered [OF assms(3,4)] assms(2) by blast
  then have r: "redirects ctx r" "m_dst r = sid" "dest_addr r = to_string io q"
    using assms(5,6) by (auto simp: redirects_def points_to_def)
  show ?thesis
    using mf_lookup_reachable [OF assms(1) hop(3) assms(7)] r
    by (auto simp: hop(2) respHandler_redirects)
qed

text \<open>An answer with code \<open>c\<close> that names no server other than \<open>sid\<close>, the one asked.\<close>

definition final_answer :: "i32 \<Rightarrow> cmd_result_code \<Rightarrow> grpc_resp \<Rightarrow> bool" where
  "final_answer sid c r \<longleftrightarrow> result_code r = c \<and> (accepted r \<or> m_dst r = sid \<or> sint (m_dst r) < 0)"

text \<open>
  \<open>leads_to io w sid c ps p\<close>: from peer \<open>p\<close> every server names the next of \<open>ps\<close>, with its
  server id, and the last one gives a final answer with code \<open>c\<close>.
\<close>

primrec leads_to ::
  "uuid_io \<Rightarrow> world \<Rightarrow> (peer_id \<Rightarrow> i32) \<Rightarrow> cmd_result_code \<Rightarrow> peer_id list \<Rightarrow> peer_id \<Rightarrow> bool" where
  "leads_to io w sid c [] p = answers io w p (final_answer (sid p) c)"
| "leads_to io w sid c (q # qs) p =
     (answers io w p (points_to io (sid q) q) \<and> sid p \<noteq> sid q \<and> 0 \<le> sint (sid q) \<and> leads_to io w sid c qs q)"

lemma request_chain:
  assumes io: "uuid_io_ok io" and "st_ok io mf st" and "mf_proper io mf (snd st) p a"
    and "cc_promise ctx = None" and "cc_cur_dest ctx = sid p" and "leads_to io w sid c qs p"
    and reach: "\<And>n q. q \<in> set qs \<Longrightarrow> reachable (w_env w n) q"
  shows "\<exists>ctx' st'. request_loop io mt ec w mf n ctx a req st = Some (Ret (ctx', st')) \<and>
    cc_promise ctx' = Some (null_result_of c) \<and> st_ok io mf st'"
  using assms(2-)
proof (induction qs arbitrary: n ctx a req st p)
  case Nil
  obtain r h where r: "final_answer (sid p) c r" "one_hop io mt ec w mf n ctx a req st =
      respHandler io mt ec (w_env w n) mf ctx (Some r) None (fst st, fst (snd st), h)"
      "st_ok io mf (fst st, fst (snd st), h)"
    using one_hop_answered [OF Nil(2), of w "final_answer (sid p) c" mt ec n ctx req] Nil by auto
  then have "one_hop io mt ec w mf n ctx a req st =
      Ret (Completed (ctx\<lparr>cc_promise := Some (null_result_of c)\<rparr>), (fst st, fst (snd st), h))"
    using respHandler_completes [OF Nil(3), of "Some r" None] Nil(4) by (auto simp: redirects_def final_answer_def)
  with r(3) show ?case by (subst request_loop.simps) simp
next
  case (Cons q qs)
  have lead: "answers io w p (points_to io (sid q) q)" "cc_cur_dest ctx \<noteq> sid q" "0 \<le> sint (sid q)"
      "leads_to io w sid c qs q"
    using Cons.prems by auto
  obtain a' st' where hop: "one_hop io mt ec w mf n ctx a req st = Ret (Forwarded (ctx\<lparr>cc_cur_dest := sid q\<rparr>) a'
        (createMessage io mt ec (cc_payload ctx) (cc_new_srv_addr ctx)), st')"
      "st_ok io mf st'" "mf_proper io mf (snd st') q a'"
    using one_hop_forwards [OF io Cons.prems(1,2) lead(1-3)] Cons.prems(6) by (meson list.set_intros(1))
  have "\<exists>ctx' st''. request_loop io mt ec w mf (Suc n) (ctx\<lparr>cc_cur_dest := sid q\<rparr>) a'
      (createMessage io mt ec (cc_payload ctx) (cc_new_srv_addr ctx)) st' = Some (Ret (ctx', st'')) \<and>
    cc_promise ctx' = Some (null_result_of c) \<and> st_ok io mf st''"
    using Cons.prems lead(4) by (intro Cons.IH [OF hop(2,3)]) auto
  then show ?case by (subst request_loop.simps) (simp add: hop(1))
qed

text \<open>Servers that only name each other.\<close>

definition no_leader_among :: "uuid_io \<Rightarrow> world \<Rightarrow> (peer_id \<Rightarrow> i32) \<Rightarrow> peer_id set \<Rightarrow> bool" where
  "no_leader_among io w sid S \<longleftrightarrow> (\<forall>p \<in> S. (\<forall>n. reachable (w_env w n) p) \<and>
     (\<exists>q \<in> S. answers io w p (points_to io (sid q) q) \<and> sid p \<noteq> sid q \<and> 0 \<le> sint (sid q)))"

lemma request_cycle:
  assumes "request_loop io mt ec w mf n ctx a req st = Some res"
    and "uuid_io_ok io" and "no_leader_among io w sid S" and "st_ok io mf st"
    and "p \<in> S" and "mf_proper io mf (snd st) p a" and "cc_cur_dest ctx = sid p"
  shows False
  using assms
proof (induction arbitrary: p rule: request_loop_induct)
  case (step loop io mt ec w mf n ctx a req st res)
  obtain q where q: "q \<in> S" "answers io w p (points_to io (sid q) q)" "cc_cur_dest ctx \<noteq> sid q" "0 \<le> sint (sid q)"
      "reachable (w_env w n) q"
    using step(4,6,8) unfolding no_leader_among_def by metis
  obtain a' st' where hop: "one_hop io mt ec w mf n ctx a req st = Ret (Forwarded (ctx\<lparr>cc_cur_dest := sid q\<rparr>) a'
        (createMessage io mt ec (cc_payload ctx) (cc_new_srv_addr ctx)), st')"
      "st_ok io mf st'" "mf_proper io mf (snd st') q a'"
    using one_hop_forwards [OF step(3,5,7) q(2-5)] by blast
  have "loop io mt ec w mf (Suc n) (ctx\<lparr>cc_cur_dest := sid q\<rparr>) a'
      (createMessage io mt ec (cc_payload ctx) (cc_new_srv_addr ctx)) st' = Some res"
    using step(2) by (simp add: hop(1))
  from step(1) [OF this step(3,4) hop(2) q(1) hop(3)] show ?case by simp
qed

section \<open>Sending the first message\<close>

lemma start_request_reachable:
  assumes "uuid_io_ok io" and "st_ok io mf st" and "reachable env p" and "sc_endpoint cfg = to_string io p"
  shows "\<exists>a m gm st1. lookup_client io env mf (sc_endpoint cfg) st = Ret (Some a, st1) \<and>
    start_request io mt ec env mf payload srv_addr cfg st =
      Ret (In_flight (client_ctx_new payload (sc_id cfg) srv_addr) m gm, st1) \<and>
    st_ok io mf st1 \<and> mf_proper io mf (snd st1) p a \<and>
    client_send io (st_heap st1) a (createMessage io mt ec payload srv_addr) = Ret (On_wire m gm)"
proof -
  obtain a st1 where a: "lookup_client io env mf (sc_endpoint cfg) st = Ret (Some a, st1)" "st_ok io mf st1"
      "mf_proper io mf (snd st1) p a"
    using mf_lookup_reachable [OF assms(1-3)] assms(4) by auto
  then obtain m gm where "client_send io (st_heap st1) a (createMessage io mt ec payload srv_addr) = Ret (On_wire m gm)"
    by (auto simp: client_send_def mf_proper_obj)
  with a show ?thesis
    by (cases st1) (auto simp: start_request_def ctx_future_def client_ctx_new_def)
qed

lemma start_request_unreachable:
  assumes "uuid_io_ok io" and "om_inv gcl" and "om_inv cl" and "om_find cl p = None" and "om_find gcl p = None"
    and "ce_lookup_endpoint env p = []" and "sc_endpoint cfg = to_string io p"
  shows "\<exists>h'. start_request io mt ec env mf payload srv_addr cfg (cl, gcl, h) = Ret (Broken_promise, cl, gcl, h')"
proof -
  obtain a h' where a: "mf_create_or_reinit io env mf p False (cl, gcl, h) = Ret (Some a, cl, gcl, h')" "is_error_at h' a"
    using mf_lookup_unreachable [OF assms(2-6)] by blast
  then have "client_send io h' a req = Ret (Failed_now \<lparr>ex_what = ''Bad connection'', ex_req = req\<rparr>)" for req
    by (auto simp: client_send_def is_error_at_def split: option.splits client_obj.splits)
  with a show ?thesis
    by (simp add: start_request_def lookup_client_def client_by_name_def assms(7) uuid_parse_print [OF assms(1)]
        respHandler_completes client_ctx_new_def)
qed

lemma answers_address:
  "answers io w p Q \<Longrightarrow> answers io w p (\<lambda>r. Q r \<and> (result_code r \<noteq> NOT_LEADER \<longrightarrow> dest_addr r = []))"
  unfolding answers_def
  by (fastforce simp: toResponse_def Let_def split: req_resp.splits)

section \<open>Data requests\<close>

definition data_method :: "uuid_io \<Rightarrow> mesg_factory \<Rightarrow> string \<Rightarrow> string" where
  "data_method io mf name = get_generic_method_name io name (mf_group_id mf)"

text \<open>The call a wrapper of the group makes for a peer.\<close>

definition peer_call :: "uuid_io \<Rightarrow> mesg_factory \<Rightarrow> client_heap \<Rightarrow> string \<Rightarrow> peer_id \<times> nat option \<Rightarrow> nat \<times> string \<Rightarrow> bool" where
  "peer_call io mf h name e c \<longleftrightarrow> snd c = data_method io mf name \<and> is_messaging_at h (fst c) \<and>
     (\<exists>a i. snd e = Some a \<and> obj_at h a =
        Some (Proto_client i (Some (fst c)) (to_string io (fst e)) (mf_group_id mf) (mf_group_type mf)))"

lemma proto_data_request_proper:
  assumes "mf_proper io mf (gcl, h) p a"
  shows "\<exists>c. proto_data_request h (Some a) (data_method io mf name) = Ret c \<and> peer_call io mf h name (p, Some a) c"
  using assms by (auto simp: mf_proper_obj proto_data_request_def proto_cast_def peer_call_def)

lemma broadcast_calls:
  assumes "\<forall>e \<in> set cl. \<exists>a. snd e = Some a \<and> mf_proper io mf (gcl, h) (fst e) a"
  shows "\<exists>cs. run_mapM (\<lambda>e. proto_data_request h (snd e) (data_method io mf name)) cl = Ret cs \<and>
    list_all2 (peer_call io mf h name) cl cs"
  using assms
proof (induction cl)
  case (Cons e cl)
  then obtain a where a: "snd e = Some a" "mf_proper io mf (gcl, h) (fst e) a" by auto
  from proto_data_request_proper [OF a(2), of name] obtain c where
    "proto_data_request h (Some a) (data_method io mf name) = Ret c" "peer_call io mf h name e c"
    using a(1) by (metis prod.collapse)
  with Cons a(1) show ?case by auto
qed simp

lemma data_request_new_law:
  assumes "st_ok io mf st"
  shows "\<exists>r st'. data_request_new io env mf p (data_method io mf name) st = Ret (r, st') \<and> st_ok io mf st'"
proof -
  obtain cl s where st: "st = (cl, s)" by (cases st)
  obtain a cl' s' where r: "mf_create_or_reinit io env mf p False st = Ret (Some a, cl', s')"
      "mf_inv s'" "clients_ok (mf_proper io mf) cl' s'" "om_find cl' p = Some (Some a) \<or> mf_failed s' a"
    using mf.create_or_reinit_safe [where s = s and cl = cl and env = env and p = p and f = False
        and io = io and mf = mf] assms
    unfolding st_ok_def st mf_create_or_reinit_def fst_conv snd_conv by blast
  then have "st_ok io mf (cl', s')" by (simp add: st_ok_def)
  moreover have "proto_cast (snd s') (Some a) = None \<or> (\<exists>c. proto_data_request (snd s') (Some a) (data_method io mf name) = Ret c)"
    using r(4) clients_ok_find [OF r(3), of p a] proto_data_request_proper [of io mf "fst s'" "snd s'" p a name]
    by (auto simp: mf_failed_def is_error_at_def proto_cast_def split: option.splits client_obj.splits)
  ultimately show ?thesis
    using r(1) by (cases s') (auto simp: data_request_new_def split: option.splits)
qed

lemma data_requests_law:
  assumes "st_ok io mf st"
  shows "(\<exists>r st'. data_service_request_unidirectional io env mf dest name st = Ret (r, st') \<and> st_ok io mf st') \<and>
    (\<exists>r st'. data_service_request_bidirectional io env mf dest name st = Ret (r, st') \<and> st_ok io mf st') \<and>
    (\<exists>cs. data_service_request_unidirectional io env mf None name st = Ret (Inr cs, st) \<and>
       list_all2 (peer_call io mf (st_heap st) name) (fst st) cs)"
proof -
  obtain cl gcl h where st: "st = (cl, gcl, h)" by (cases st)
  have ok: "clients_ok (mf_proper io mf) cl (gcl, h)" using assms by (simp add: st_ok_def st)
  have "\<forall>e \<in> set cl. \<exists>a. snd e = Some a \<and> mf_proper io mf (gcl, h) (fst e) a"
    using ok by (auto simp: clients_ok_def om_set_find)
  from broadcast_calls [OF this, of name]
  have all: "\<exists>cs. data_service_request_unidirectional io env mf None name st = Ret (Inr cs, st) \<and>
       list_all2 (peer_call io mf (st_heap st) name) (fst st) cs"
    by (auto simp: data_service_request_unidirectional_def st data_method_def)
  have one: "\<exists>c d. proto_data_request h v (data_method io mf name) = Ret c \<and> proto_cast h v = Some d"
    if v: "om_find cl p = Some v" for p v
  proof -
    obtain a where a: "v = Some a" "mf_proper io mf (gcl, h) p a" using ok v unfolding clients_ok_def by blast
    from proto_data_request_proper [OF a(2), of name] a(2) show ?thesis
      by (auto simp: a(1) proto_cast_def mf_proper_obj)
  qed
  note new = data_request_new_law [OF assms, of env _ name]
  have uni: "\<exists>r st'. data_service_request_unidirectional io env mf (Some d) name st = Ret (r, st') \<and> st_ok io mf st'" for d
  proof (cases d)
    case (Inr p)
    then show ?thesis
      using new [of p] one [of p] assms
      by (cases "om_find cl p") (auto simp: data_service_request_unidirectional_def st data_method_def Let_def)
  qed (use assms in \<open>simp add: data_service_request_unidirectional_def\<close>)
  have bidi: "\<exists>r st'. data_service_request_bidirectional io env mf (Some d) name st = Ret (r, st') \<and> st_ok io mf st'" for d
  proof (cases d)
    case (Inr p)
    then show ?thesis
      using new [of p] one [of p] assms
      by (cases "om_find cl p") (auto simp: data_service_request_bidirectional_def st data_method_def Let_def)
  qed (use assms in \<open>simp add: data_service_request_bidirectional_def\<close>)
  have "data_service_request_bidirectional io env mf None name st = Ret (Inl BAD_REQUEST, st)"
    by (simp add: data_service_request_bidirectional_def)
  with all uni bidi assms show ?thesis by (cases dest) (auto simp: st)
qed

section \<open>A concrete group\<close>

text \<open>
  Peer 7 is a follower that names peer 8, server 2, as the leader; peer 8 accepts. In
  \<open>sample_split\<close> peer 8 names peer 7, server 1, in turn, and in \<open>sample_unnamed\<close> peer 7
  refuses with a code other than \<open>NOT_LEADER\<close>.
\<close>

definition sample_reply :: "bool \<Rightarrow> i32 \<Rightarrow> i32 \<Rightarrow> string \<Rightarrow> RaftGroupMsg" where
  "sample_reply acc dst code addr = RaftGroupMsg_default\<lparr>gm_msg :=
     \<lparr>rm_base = RCMsgBase_default\<lparr>pb_dest := dst\<rparr>,
      rm_req_resp = Rc_response \<lparr>pr_next_index = 0, pr_accepted = acc, pr_context = [], pr_dest_addr = addr,
        pr_result_code = 0 - code, pr_batch_size_hint = 0\<rparr>\<rparr>\<rparr>"

definition sample_world :: "i32 \<Rightarrow> RaftGroupMsg \<Rightarrow> world" where
  "sample_world code other =
     \<lparr>w_env = (\<lambda>n. \<lparr>ce_lookup_endpoint = (\<lambda>p. ''host''), ce_make_fails = (\<lambda>e. None), ce_ready = (\<lambda>a. True)\<rparr>),
      w_reply = (\<lambda>n gm. (if gm_intended_addr gm = to_string bits_uuid_io 7
        then sample_reply False 2 code (to_string bits_uuid_io 8) else other, Status_OK))\<rparr>"

definition sample_led :: world where
  "sample_led = sample_world NOT_LEADER (sample_reply True 2 OK [])"

definition sample_split :: world where
  "sample_split = sample_world NOT_LEADER (sample_reply False 1 NOT_LEADER (to_string bits_uuid_io 7))"

definition sample_unnamed :: world where
  "sample_unnamed = sample_world CONFIG_CHANGING (sample_reply True 2 OK [])"

definition sample_sid :: "peer_id \<Rightarrow> i32" where
  "sample_sid p = (if p = 7 then 1 else 2)"

definition sample_ec :: entry_codec where
  "sample_ec = \<lparr>ec_srv_config = (\<lambda>i e. []), ec_put_int32 = (\<lambda>i. []), ec_app_log = 1, ec_cluster_server = 2\<rparr>"

definition sample_mtypes :: msg_types where
  "sample_mtypes = \<lparr>append_entries_request = 1, install_snapshot_request = 2, join_cluster_request = 3,
     add_server_request = 4, remove_server_request = 5, client_request = 6\<rparr>"

definition sample_dest_cfg :: srv_config where
  "sample_dest_cfg = \<lparr>sc_id = 1, sc_dc_id = 0, sc_endpoint = to_string bits_uuid_io 7, sc_aux = [], sc_learner = False,
     sc_priority = 1, sc_new_joiner = False\<rparr>"

lemma sample_uuid_inject: "to_string bits_uuid_io p = to_string bits_uuid_io q \<longleftrightarrow> p = q"
  by (metis bits_uuid_io_ok option.inject uuid_parse_print)

lemma sample_world_reachable: "reachable (w_env (sample_world code other) n) p"
  by (simp add: reachable_def sample_world_def)

lemma sample_st_ok: "st_ok io mf ([], [], \<lparr>h_counter = 0, h_objs = []\<rparr>)"
  by (simp add: st_ok_def mf_inv_def)

lemma toResponse_sample_reply:
  "toResponse (gm_msg (sample_reply acc dst code addr)) =
     Some \<lparr>m_term = 0, m_type = 0, m_src = 0, m_dst = dst, next_idx = 0, accepted = acc, resp_ctx = None,
       next_batch_size_hint = 0, result_code = code, dest_addr = if code = NOT_LEADER then addr else []\<rparr>"
  by (simp add: toResponse_def sample_reply_def RaftGroupMsg_default_def RCMsgBase_default_def)

lemma sample_answers:
  "answers bits_uuid_io (sample_world code other) 7 Q \<longleftrightarrow>
     Q \<lparr>m_term = 0, m_type = 0, m_src = 0, m_dst = 2, next_idx = 0, accepted = False, resp_ctx = None,
        next_batch_size_hint = 0, result_code = code,
        dest_addr = if code = NOT_LEADER then to_string bits_uuid_io 8 else []\<rparr>"
  "p \<noteq> 7 \<Longrightarrow> toResponse (gm_msg other) = Some r \<Longrightarrow> Q r \<Longrightarrow> answers bits_uuid_io (sample_world code other) p Q"
proof -
  have "\<exists>gm :: RaftGroupMsg. gm_intended_addr gm = to_string bits_uuid_io 7"
    by (rule exI [of _ "RaftGroupMsg_default\<lparr>gm_intended_addr := to_string bits_uuid_io 7\<rparr>"]) simp
  then show "answers bits_uuid_io (sample_world code other) 7 Q \<longleftrightarrow>
     Q \<lparr>m_term = 0, m_type = 0, m_src = 0, m_dst = 2, next_idx = 0, accepted = False, resp_ctx = None,
        next_batch_size_hint = 0, result_code = code,
        dest_addr = if code = NOT_LEADER then to_string bits_uuid_io 8 else []\<rparr>"
    by (auto simp: answers_def sample_world_def toResponse_sample_reply)
qed (auto simp: answers_def sample_world_def sample_uuid_inject)

section \<open>Properties\<close>



text \<open>
  C17: However its messages are answered and whatever happens to the connections, a request
  that comes to an end has given its promise a value, once, and left a sound client cache:
  it neither crashes nor throws, provided every redirection in the replies carries an
  address that is a UUID.
\<close>

theorem request_completes_promise:
  assumes "request_loop io mt ec w mf n ctx a req st = Some res"
    and "st_ok io mf st" and "usable io mf st a" and "cc_promise ctx = None" and "redirects_named io w"
  shows "\<exists>ctx' st'. res = Ret (ctx', st') \<and> cc_promise ctx' \<noteq> None \<and> st_ok io mf st'"
  using assms by (rule request_loop_law)

theorem request_completes_promise_witness:
  "\<exists>ctx' st'. request_loop bits_uuid_io sample_mtypes sample_ec sample_led sample_mf 0 (client_ctx_new (Append_entry [5]) 1 0) 1
     (createMessage bits_uuid_io sample_mtypes sample_ec (Append_entry [5]) 0)
     ([(7, Some 1)], [(7, Some 0)], sample_heap 0) = Some (Ret (ctx', st')) \<and>
     cc_promise ctx' \<noteq> None \<and> st_ok bits_uuid_io sample_mf st'"
proof -
  let ?st = "([(7, Some 1)], [(7, Some 0)], sample_heap 0) :: mf_state"
  let ?run = "request_loop bits_uuid_io sample_mtypes sample_ec sample_led sample_mf 0 (client_ctx_new (Append_entry [5]) 1 0) 1
     (createMessage bits_uuid_io sample_mtypes sample_ec (Append_entry [5]) 0) ?st"
  have lead: "leads_to bits_uuid_io sample_led sample_sid OK [8] 7"
    by (simp add: sample_led_def sample_answers points_to_def sample_sid_def final_answer_def toResponse_sample_reply)
  have proper: "mf_proper bits_uuid_io sample_mf (snd ?st) 7 1"
    using clients_ok_find [OF sample_clients_ok(2)] by simp
  have st: "st_ok bits_uuid_io sample_mf ?st" using sample_clients_ok by (simp add: st_ok_def mf_inv_def)
  have "\<exists>ctx' st'. ?run = Some (Ret (ctx', st')) \<and> cc_promise ctx' = Some (null_result_of OK) \<and> st_ok bits_uuid_io sample_mf st'"
    by (rule request_chain [OF bits_uuid_io_ok st proper _ _ lead])
      (simp_all add: client_ctx_new_def sample_sid_def sample_led_def sample_world_reachable)
  then obtain res where res: "?run = Some res" by blast
  have named: "redirects_named bits_uuid_io sample_led"
    by (auto simp: redirects_named_def sample_led_def sample_world_def toResponse_sample_reply
        uuid_parse_print [OF bits_uuid_io_ok] split: if_splits)
  have "usable bits_uuid_io sample_mf ?st 1" using proper by (auto simp: usable_def)
  from request_completes_promise [OF res st this _ named] res show ?thesis by (simp add: client_ctx_new_def)
qed

text \<open>
  Redirections have to carry an address. The client reads the leader's address only from a reply
  with \<open>NOT_LEADER\<close>; if a server refuses a request with another code and still names a
  server other than the one asked, the handler looks up an empty address and uses the
  null client it gets.
\<close>

lemma redirect_without_address_crashes:
  assumes "uuid_io_ok io" and "mf_proper io mf (snd st) p a"
    and "answers io w p (\<lambda>r. redirects ctx r \<and> result_code r \<noteq> NOT_LEADER)"
  shows "request_loop io mt ec w mf n ctx a req st = Some Crash"
proof -
  obtain r h where r: "redirects ctx r" "dest_addr r = []" "one_hop io mt ec w mf n ctx a req st =
      respHandler io mt ec (w_env w n) mf ctx (Some r) None (fst st, fst (snd st), h)"
    using one_hop_answered [OF assms(2) answers_address [OF assms(3)]] by blast
  then have "one_hop io mt ec w mf n ctx a req st = Crash"
    by (simp add: respHandler_redirects lookup_client_def client_by_name_def uuid_parse_empty [OF assms(1)])
  then show ?thesis by (subst request_loop.simps) simp
qed

lemma redirect_without_address_crashes_witness:
  "request_loop bits_uuid_io sample_mtypes sample_ec sample_unnamed sample_mf 0 (client_ctx_new (Append_entry [5]) 1 0) 1
     (createMessage bits_uuid_io sample_mtypes sample_ec (Append_entry [5]) 0)
     ([(7, Some 1)], [(7, Some 0)], sample_heap 0) = Some Crash"
proof (rule redirect_without_address_crashes [OF bits_uuid_io_ok])
  show "mf_proper bits_uuid_io sample_mf (snd ([(7, Some 1)], [(7, Some 0)], sample_heap 0)) 7 1"
    using clients_ok_find [OF sample_clients_ok(2)] by simp
  show "answers bits_uuid_io sample_unnamed 7
      (\<lambda>r. redirects (client_ctx_new (Append_entry [5]) 1 0) r \<and> result_code r \<noteq> NOT_LEADER)"
    by (simp add: sample_unnamed_def sample_answers redirects_def client_ctx_new_def result_codes)
qed

text \<open>
  C38: Nothing bounds the number of redirections. In a group whose servers only name each
  other the request is forwarded for ever and its promise never gets a value.
\<close>

theorem redirect_cycle_never_completes:
  assumes "uuid_io_ok io" and "no_leader_among io w sid S" and "st_ok io mf st"
    and "p \<in> S" and "mf_proper io mf (snd st) p a" and "cc_cur_dest ctx = sid p"
  shows "request_loop io mt ec w mf n ctx a req st = None"
  using request_cycle [OF _ assms] by (cases "request_loop io mt ec w mf n ctx a req st") auto

theorem redirect_cycle_never_completes_witness:
  "request_loop bits_uuid_io sample_mtypes sample_ec sample_split sample_mf 0 (client_ctx_new (Append_entry [5]) 1 0) 1
     (createMessage bits_uuid_io sample_mtypes sample_ec (Append_entry [5]) 0)
     ([(7, Some 1)], [(7, Some 0)], sample_heap 0) = None"
proof (rule redirect_cycle_never_completes [OF bits_uuid_io_ok])
  show "no_leader_among bits_uuid_io sample_split sample_sid {7, 8}"
    by (auto simp: no_leader_among_def sample_split_def sample_world_reachable sample_answers points_to_def
        sample_sid_def toResponse_sample_reply)
  show "mf_proper bits_uuid_io sample_mf (snd ([(7, Some 1)], [(7, Some 0)], sample_heap 0)) 7 1"
    using clients_ok_find [OF sample_clients_ok(2)] by simp
  show "st_ok bits_uuid_io sample_mf ([(7, Some 1)], [(7, Some 0)], sample_heap 0)"
    using sample_clients_ok by (simp add: st_ok_def mf_inv_def)
qed (simp_all add: client_ctx_new_def sample_sid_def)



text \<open>
  C18: Data requests are safe. From a sound client cache, with any destination, both kinds
  return without a crash or an exception and keep the cache sound; and a request to all
  peers makes exactly one call per peer of the cache, in order, on the connection of the
  peer's own wrapper, under the method name of this group.
\<close>

theorem data_requests_safe:
  assumes "st_ok io mf st"
  shows "(\<exists>r st'. data_service_request_unidirectional io env mf dest name st = Ret (r, st') \<and> st_ok io mf st') \<and>
    (\<exists>r st'. data_service_request_bidirectional io env mf dest name st = Ret (r, st') \<and> st_ok io mf st') \<and>
    (\<exists>cs. data_service_request_unidirectional io env mf None name st = Ret (Inr cs, st) \<and>
       list_all2 (peer_call io mf (st_heap st) name) (fst st) cs)"
  using assms by (rule data_requests_law)

theorem data_requests_safe_witness:
  "\<exists>cs. data_service_request_unidirectional bits_uuid_io sample_cenv sample_mf None ''put''
     ([(7, Some 1)], [(7, Some 0)], sample_heap 0) = Ret (Inr cs, [(7, Some 1)], [(7, Some 0)], sample_heap 0) \<and>
   list_all2 (peer_call bits_uuid_io sample_mf (sample_heap 0) ''put'') [(7, Some 1)] cs"
proof -
  have "st_ok bits_uuid_io sample_mf ([(7, Some 1)], [(7, Some 0)], sample_heap 0)"
    using sample_clients_ok by (simp add: st_ok_def mf_inv_def)
  from data_requests_safe [OF this, of sample_cenv None "''put''"] show ?thesis by simp
qed

text \<open>
  A request with a response repairs its connection, one without does not. After a
  failed bidirectional request over the shared connection of a reachable peer, the next
  bidirectional request goes over a new connection, which has no failure counted and sits
  behind the same wrapper under the same id, while the next unidirectional request is
  still sent over the failed connection.
\<close>

lemma failed_connection_repair:
  assumes "clients_ok gf_proper gcl h" and "clients_ok (mf_proper io mf) cl (gcl, h)"
    and "om_find cl p = Some (Some a)" and "obj_at h a = Some (Proto_client i (Some m) ad g t)"
    and "om_find gcl p = Some (Some m)" and "obj_at h m = Some (Messaging_client j ad' bad)"
    and "bad + 1 \<noteq> 0" and "reachable env p"
    and "bidirectional_complete m (Inl error) h = (res, h1)"
  shows "res = Inl (grpc_status_to_nuraft_code error) \<and>
    (\<exists>m' st'. data_service_request_bidirectional io env mf (Some (Inr p)) name (cl, gcl, h1) =
        Ret (Inr [(m', data_method io mf name)], st') \<and> obj_at h1 m' = None \<and>
      obj_at (st_heap st') m' = Some (Messaging_client (h_counter h1) (ce_lookup_endpoint env p) 0) \<and>
      obj_at (st_heap st') a = Some (Proto_client i (Some m') ad g t)) \<and>
    data_service_request_unidirectional io env mf (Some (Inr p)) name (cl, gcl, h1) =
      Ret (Inr [(m, data_method io mf name)], cl, gcl, h1)"
proof -
  have h1: "h1 = mark_bad m h" "res = Inl (grpc_status_to_nuraft_code error)"
    using assms(9) by (simp_all add: bidirectional_complete_def)
  have ok: "clients_ok gf_proper gcl h1" "clients_ok (mf_proper io mf) cl (gcl, h1)"
    using assms(1,2) by (simp_all add: h1 clients_ok_def gf_proper_def)
  have ob: "obj_at h1 a = Some (Proto_client i (Some m) ad g t)" "obj_at h1 m = Some (Messaging_client j ad' (bad + 1))"
    using assms(4,6) by (simp_all add: h1 mark_bad_obj)
  have pos: "0 < bad + 1" using assms(7) by (simp add: word_gt_0)
  obtain m' h' where new: "mf_create_or_reinit io env mf p False (cl, gcl, h1) = Ret (Some a, cl, om_assign p (Some m') gcl, h')"
      "obj_at h1 m' = None" "obj_at h' m' = Some (Messaging_client (h_counter h1) (ce_lookup_endpoint env p) 0)"
      "obj_at h' a = Some (Proto_client i (Some m') ad g t)"
    using mf_lookup_renews [OF ok assms(3) ob(1) assms(5) ob(2) disjI2 [OF pos], of env] assms(8)
    by (auto simp: reachable_def)
  have "reinitRequired h1 (Some m)" using pos by (simp add: reinitRequired_def ob)
  then have "data_service_request_bidirectional io env mf (Some (Inr p)) name (cl, gcl, h1) =
      Ret (Inr [(m', data_method io mf name)], cl, om_assign p (Some m') gcl, h')"
    using new(1) by (simp add: data_service_request_bidirectional_def assms(3) proto_cast_def ob data_request_new_def
        new(4) proto_data_request_def data_method_def)
  moreover have "data_service_request_unidirectional io env mf (Some (Inr p)) name (cl, gcl, h1) =
      Ret (Inr [(m, data_method io mf name)], cl, gcl, h1)"
    by (simp add: data_service_request_unidirectional_def assms(3) proto_cast_def ob proto_data_request_def data_method_def)
  ultimately show ?thesis using new h1(2) by auto
qed

lemma failed_connection_repair_witness:
  "\<exists>m' st'. data_service_request_bidirectional bits_uuid_io sample_cenv sample_mf (Some (Inr 7)) ''put''
      ([(7, Some 1)], [(7, Some 0)], mark_bad 0 (sample_heap 0)) = Ret (Inr [(m', data_method bits_uuid_io sample_mf ''put'')], st') \<and>
    obj_at (st_heap st') 1 = Some (Proto_client 1 (Some m') (to_string bits_uuid_io 7) 3 ''raft'')"
proof -
  have "reachable sample_cenv 7" by (simp add: reachable_def)
  moreover have "bidirectional_complete 0 (Inl \<lparr>error_code = S_UNAVAILABLE, error_message = []\<rparr> :: _ + unit) (sample_heap 0) =
      (Inl SERVER_NOT_FOUND, mark_bad 0 (sample_heap 0))"
    by (simp add: bidirectional_complete_def grpc_status_to_nuraft_code_def status_ok_def)
  ultimately show ?thesis
    using failed_connection_repair [OF sample_clients_ok(1) [of 0] sample_clients_ok(2) [of 0], where p = 7 and a = 1 and m = 0
      and env = sample_cenv and bad = 0 and i = 1 and j = 0 and ad = "to_string bits_uuid_io 7" and g = 3
      and t = "''raft''" and ad' = "''host:1''" and name = "''put''"]
    by fastforce
qed

end
