(* ===== verification/Node.thy ===== *)
theory Node
  imports Raft_Api
begin

text \<open>
  The state of one process of the messaging layer: the fields of \<open>ManagerImpl\<close>
  (\<open>src/lib/manager_impl.hpp\<close>) and of \<open>msg_service\<close> (\<open>src/lib/service.hpp\<close>), which call
  each other, and the objects both hold by shared pointer. RAFT servers, state managers
  and metrics objects are cells of a list; a pointer is an index.
\<close>

section \<open>State\<close>

record group_metrics =
  group_steps :: nat
  group_sends :: nat
  append_entries_observed :: nat

record grpc_server_wrapper =
  w_metrics :: "nat option"
  w_server :: nat

record ('p, 'srv, 'h) node =
  nd_srv_id :: i32
  nd_state_mgr_types :: "(group_type, 'p) omap"
  nd_state_managers :: "(group_id, nat option) omap"
  nd_is_leader :: "(group_id, bool) omap"
  nd_config_notified :: nat
  nd_started :: bool
  nd_manager_alive :: bool
  nd_metrics_enabled :: bool
  nd_data_service_enabled :: bool
  nd_default_group_type :: group_type
  nd_service_address :: peer_id
  nd_raft_servers :: "(group_id, grpc_server_wrapper) omap"
  nd_data_service :: "'h data_service"
  nd_grpc_server :: "'h grpc_srv option"
  nd_servers :: "'srv list"
  nd_smgrs :: "mesg_state_mgr list"
  nd_metrics :: "group_metrics list"

section \<open>Cells\<close>

definition upd_smgr :: "nat \<Rightarrow> (mesg_state_mgr \<Rightarrow> mesg_state_mgr) \<Rightarrow> ('p, 'srv, 'h) node \<Rightarrow> ('p, 'srv, 'h) node" where
  "upd_smgr a f n = n\<lparr>nd_smgrs := (nd_smgrs n)[a := f (nd_smgrs n ! a)]\<rparr>"

definition upd_server :: "nat \<Rightarrow> 'srv \<Rightarrow> ('p, 'srv, 'h) node \<Rightarrow> ('p, 'srv, 'h) node" where
  "upd_server a srv n = n\<lparr>nd_servers := (nd_servers n)[a := srv]\<rparr>"

definition upd_metrics :: "nat option \<Rightarrow> (group_metrics \<Rightarrow> group_metrics) \<Rightarrow> ('p, 'srv, 'h) node \<Rightarrow> ('p, 'srv, 'h) node" where
  "upd_metrics p f n =
     (case p of None \<Rightarrow> n | Some a \<Rightarrow> n\<lparr>nd_metrics := (nd_metrics n)[a := f (nd_metrics n ! a)]\<rparr>)"

definition sm_call :: "sm_call \<Rightarrow> mesg_state_mgr \<Rightarrow> mesg_state_mgr" where
  "sm_call c sm = sm\<lparr>sm_calls := sm_calls sm @ [c]\<rparr>"

text \<open>
  Well-formedness: the maps are ordered, no state manager pointer is null, every pointer
  is to a cell, and every group that has a RAFT server has a state manager.
\<close>

definition node_maps_ok :: "('p, 'srv, 'h) node \<Rightarrow> bool" where
  "node_maps_ok n \<longleftrightarrow> om_inv (nd_state_mgr_types n) \<and> om_inv (nd_state_managers n) \<and> om_inv (nd_is_leader n)
     \<and> om_inv (nd_raft_servers n)"

definition smgrs_ok :: "('p, 'srv, 'h) node \<Rightarrow> bool" where
  "smgrs_ok n \<longleftrightarrow>
     (\<forall>g p. om_find (nd_state_managers n) g = Some p \<longrightarrow> (\<exists>a < length (nd_smgrs n). p = Some a))"

definition wrapper_ok :: "('p, 'srv, 'h) node \<Rightarrow> grpc_server_wrapper \<Rightarrow> bool" where
  "wrapper_ok n w \<longleftrightarrow> w_server w < length (nd_servers n) \<and>
     (\<forall>a. w_metrics w = Some a \<longrightarrow> a < length (nd_metrics n))"

definition servers_ok :: "('p, 'srv, 'h) node \<Rightarrow> bool" where
  "servers_ok n \<longleftrightarrow>
     (\<forall>g w. om_find (nd_raft_servers n) g = Some w \<longrightarrow>
        wrapper_ok n w \<and> om_find (nd_state_managers n) g \<noteq> None)"

definition node_inv :: "('p, 'srv, 'h) node \<Rightarrow> bool" where
  "node_inv n \<longleftrightarrow> node_maps_ok n \<and> smgrs_ok n \<and> servers_ok n"

lemmas node_inv_defs = node_inv_def node_maps_ok_def smgrs_ok_def servers_ok_def wrapper_ok_def
lemmas cell_defs = upd_smgr_def upd_server_def upd_metrics_def sm_call_def

lemma node_inv_smgr:
  "node_inv n \<Longrightarrow> om_find (nd_state_managers n) g = Some p \<Longrightarrow> \<exists>a < length (nd_smgrs n). p = Some a"
  by (auto simp: node_inv_def smgrs_ok_def)

lemma node_inv_wrapper:
  "node_inv n \<Longrightarrow> om_find (nd_raft_servers n) g = Some w \<Longrightarrow> wrapper_ok n w"
  by (auto simp: node_inv_def servers_ok_def)

lemma node_inv_upd_smgr [simp]: "node_inv (upd_smgr a f n) \<longleftrightarrow> node_inv n"
  by (simp add: node_inv_defs upd_smgr_def)

lemma node_inv_upd_server [simp]: "node_inv (upd_server a srv n) \<longleftrightarrow> node_inv n"
  by (simp add: node_inv_defs upd_server_def)

lemma node_inv_upd_metrics [simp]: "node_inv (upd_metrics p f n) \<longleftrightarrow> node_inv n"
  by (cases p) (simp_all add: node_inv_defs upd_metrics_def)

end
