(* ===== verification/Samples.thy ===== *)
theory Samples
  imports Node
begin

text \<open>
  Concrete inputs for the witnesses: a RAFT server that records the requests it has
  processed and accepts every command, an application that always creates a state
  manager, a client environment and a node with one registered group type. Nothing here
  models code of the repository.
\<close>

type_synonym sample_srv = "req_msg list"

definition sample_cfg :: srv_config where
  "sample_cfg = \<lparr>sc_id = 1, sc_dc_id = 0, sc_endpoint = to_string bits_uuid_io 5, sc_aux = [], sc_learner = False,
     sc_priority = 1, sc_new_joiner = False\<rparr>"

definition sample_resp :: "req_msg \<Rightarrow> resp_msg" where
  "sample_resp r = \<lparr>m_term = m_term r, m_type = m_type r + 1, m_src = m_dst r, m_dst = m_src r,
     next_idx = last_log_idx r + 1, accepted = True, resp_ctx = None, next_batch_size_hint = 0,
     result_code = OK\<rparr>"

definition sample_api :: "(nat, sample_srv) raft_api" where
  "sample_api =
     \<lparr>api_new_server = (\<lambda>_. []),
      api_process_req = (\<lambda>r srv. (Ret (Some (sample_resp r)), srv @ [r])),
      api_add_srv = (\<lambda>_ srv. (Ret \<lparr>cr_code = RESULT_NOT_EXIST_YET, cr_final_code = OK\<rparr>, srv)),
      api_remove_srv = (\<lambda>_ srv. (Ret \<lparr>cr_code = OK, cr_final_code = OK\<rparr>, srv)),
      api_append_entries = (\<lambda>_ srv. (Ret \<lparr>cr_code = NOT_LEADER, cr_final_code = NOT_LEADER\<rparr>, srv)),
      api_request_leadership = (\<lambda>srv. (Ret True, srv)),
      api_yield_leadership = (\<lambda>_ _ srv. srv),
      api_get_srv_config_all = (\<lambda>_. Ret [sample_cfg]),
      api_get_srv_config = (\<lambda>_ i. if i = 1 then Some sample_cfg else None),
      api_config_servers = (\<lambda>_. [sample_cfg]),
      api_config_server = (\<lambda>_ i. if i = 1 then Some sample_cfg else None),
      api_get_leader = (\<lambda>_. 1),
      api_is_leader = (\<lambda>_. False),
      api_get_id = (\<lambda>_. 1),
      api_get_last_log_idx = (\<lambda>srv. of_nat (length srv)),
      api_get_peer_info_all = (\<lambda>_. []),
      api_stop_server = (\<lambda>srv. srv),
      api_shutdown = (\<lambda>srv. srv),
      api_shutdown_releases = (\<lambda>_. True),
      api_dtor_releases = True\<rparr>"

definition sample_app :: application where
  "sample_app = \<lparr>app_alive = True, app_create_state_mgr = (\<lambda>_ _. Some mesg_state_mgr_new),
     app_lookup_peer = (\<lambda>_. ''127.0.0.1:9000'')\<rparr>"

definition sample_node :: "(nat, sample_srv, nat) node" where
  "sample_node =
     \<lparr>nd_srv_id = 1, nd_state_mgr_types = [(''t'', 42)], nd_state_managers = [], nd_is_leader = [],
      nd_config_notified = 0, nd_started = True, nd_manager_alive = True, nd_metrics_enabled = True,
      nd_data_service_enabled = True, nd_default_group_type = ''t'', nd_service_address = 5,
      nd_raft_servers = [], nd_data_service = data_service_new, nd_grpc_server = None,
      nd_servers = [], nd_smgrs = [], nd_metrics = []\<rparr>"

definition sample_env :: grpc_env where
  "sample_env = \<lparr>register_async_generic_ok = True, register_generic_rpc_ok = (\<lambda>_. True),
     register_async_service_ok = True, register_rpc_ok = True\<rparr>"

definition sample_mt :: msg_types where
  "sample_mt = \<lparr>append_entries_request = 3, install_snapshot_request = 16, join_cluster_request = 12,
     add_server_request = 6, remove_server_request = 8, client_request = 5\<rparr>"

lemma sample_mt_ok: "msg_types_ok sample_mt"
  by (simp add: msg_types_ok_def sample_mt_def)

lemmas sample_defs = sample_api_def sample_app_def sample_node_def sample_env_def mesg_state_mgr_new_def

lemma sample_fields:
  "nd_state_mgr_types sample_node = [(''t'', 42)]" "nd_state_managers sample_node = []"
  "nd_is_leader sample_node = []" "nd_started sample_node" "nd_manager_alive sample_node"
  "nd_default_group_type sample_node = ''t''" "nd_service_address sample_node = 5"
  "nd_raft_servers sample_node = []" "nd_servers sample_node = []" "nd_smgrs sample_node = []"
  "nd_data_service_enabled sample_node"
  "app_alive sample_app" "app_create_state_mgr sample_app s g = Some mesg_state_mgr_new"
  "join_cluster_request sample_mt = 12" "append_entries_request sample_mt = 3"
  "install_snapshot_request sample_mt = 16" "add_server_request sample_mt = 6"
  "remove_server_request sample_mt = 8" "client_request sample_mt = 5"
  by (simp_all add: sample_node_def sample_app_def sample_mt_def)

lemma sample_node_inv: "node_inv sample_node"
  by (simp add: sample_node_def node_inv_defs om_inv_def)

end
