(* ===== verification/Repl_Ctx.thy ===== *)
theory Repl_Ctx
  imports Client_Requests Samples
begin

text \<open>
  The replication context a state manager works with, \<open>repl_service_ctx\<close> and its gRPC
  subclass (\<open>src/lib/repl_service_ctx.cpp\<close>, \<open>mesg_state_mgr.hpp\<close>): the status of the
  group as its RAFT server sees it, and data channel requests to a peer named by UUID, by
  server id or by role. The RAFT server is read as of one moment.
\<close>

section \<open>State\<close>

datatype role_regex = Role_LEADER | Role_FOLLOWER | Role_ALL | Role_ANY

datatype destination = To_peer peer_id | To_role role_regex | To_svr svr_id

record replica_config =
  rc_peer_id :: string
  rc_aux :: string

record peer_info =
  pinfo_id :: string
  pinfo_last_log_idx :: u64
  pinfo_last_succ_resp_us :: u64
  pinfo_priority :: u32
  pinfo_is_learner :: bool
  pinfo_is_new_joiner :: bool

text \<open>The borrowed pointer to the server and the factory; either may be null.\<close>

record 'srv repl_service_ctx =
  rx_server :: "'srv option"
  rx_mesg_factory :: "mesg_factory option"

text \<open>
  \<open>repl_service_ctx_grpc::repl_service_ctx_grpc\<close>: the server given may be null, and then the
  context has none; a \<open>grpc_server\<close> is modelled by its \<open>raft_server\<close>.
\<close>

definition repl_service_ctx_grpc_new :: "'srv option \<Rightarrow> mesg_factory option \<Rightarrow> 'srv repl_service_ctx" where
  "repl_service_ctx_grpc_new server cli_factory = \<lparr>rx_server = server, rx_mesg_factory = cli_factory\<rparr>"

section \<open>The group seen from its server\<close>

definition is_raft_leader :: "('p, 'srv) raft_api \<Rightarrow> 'srv repl_service_ctx \<Rightarrow> bool run" where
  "is_raft_leader api ctx = run_bind (deref (rx_server ctx)) (\<lambda>srv. Ret (api_is_leader api srv))"

definition raft_leader_id :: "('p, 'srv) raft_api \<Rightarrow> 'srv repl_service_ctx \<Rightarrow> string" where
  "raft_leader_id api ctx =
     (case rx_server ctx of
        None \<Rightarrow> []
      | Some srv \<Rightarrow>
          (case api_get_srv_config api srv (api_get_leader api srv) of
             None \<Rightarrow> []
           | Some leader \<Rightarrow> sc_endpoint leader))"

text \<open>The body of the loop over the peers: at most one entry.\<close>

definition peer_entry :: "('p, 'srv) raft_api \<Rightarrow> 'srv \<Rightarrow> raft_peer_info \<Rightarrow> peer_info list" where
  "peer_entry api srv pinfo =
     (case api_get_srv_config api srv (pi_id pinfo) of
        None \<Rightarrow> []
      | Some cfg \<Rightarrow>
          (if sc_endpoint cfg = [] then []
           else [\<lparr>pinfo_id = sc_endpoint cfg, pinfo_last_log_idx = pi_last_log_idx pinfo,
                  pinfo_last_succ_resp_us = pi_last_succ_resp_us pinfo, pinfo_priority = sc_priority cfg,
                  pinfo_is_learner = sc_learner cfg, pinfo_is_new_joiner = sc_new_joiner cfg\<rparr>]))"

definition get_raft_status :: "('p, 'srv) raft_api \<Rightarrow> 'srv repl_service_ctx \<Rightarrow> peer_info list" where
  "get_raft_status api ctx =
     (case rx_server ctx of
        None \<Rightarrow> []
      | Some srv \<Rightarrow>
          (let peers = (if api_is_leader api srv
                        then concat (map (peer_entry api srv) (api_get_peer_info_all api srv)) else []) in
           case api_get_srv_config api srv (api_get_id api srv) of
             None \<Rightarrow> peers
           | Some my_config \<Rightarrow>
               peers @ [\<lparr>pinfo_id = sc_endpoint my_config, pinfo_last_log_idx = api_get_last_log_idx api srv,
                  pinfo_last_succ_resp_us = 0, pinfo_priority = sc_priority my_config,
                  pinfo_is_learner = sc_learner my_config, pinfo_is_new_joiner = sc_new_joiner my_config\<rparr>]))"

definition get_cluster_config ::
  "('p, 'srv) raft_api \<Rightarrow> 'srv repl_service_ctx \<Rightarrow> replica_config list \<Rightarrow> replica_config list run" where
  "get_cluster_config api ctx cluster_config =
     run_bind (deref (rx_server ctx)) (\<lambda>srv.
       Ret (cluster_config @ map (\<lambda>c. \<lparr>rc_peer_id = sc_endpoint c, rc_aux = sc_aux c\<rparr>) (api_config_servers api srv)))"

section \<open>Naming a peer\<close>

definition id_to_str :: "('p, 'srv) raft_api \<Rightarrow> 'srv \<Rightarrow> i32 \<Rightarrow> string" where
  "id_to_str api srv sid =
     (case api_config_server api srv sid of None \<Rightarrow> [] | Some cfg \<Rightarrow> sc_endpoint cfg)"

text \<open>\<open>string_generator\<close> throws on what is no UUID.\<close>

definition parse_peer :: "uuid_io \<Rightarrow> string \<Rightarrow> peer_id result option run" where
  "parse_peer io s =
     (case string_generator io s of
        None \<Rightarrow> Runtime_error ''invalid uuid string''
      | Some p \<Rightarrow> Ret (Some (Inr p)))"

definition get_peer_id ::
  "uuid_io \<Rightarrow> ('p, 'srv) raft_api \<Rightarrow> 'srv repl_service_ctx \<Rightarrow> destination \<Rightarrow> peer_id result option run" where
  "get_peer_id io api ctx dest =
     (case dest of
        To_peer p \<Rightarrow> Ret (Some (Inr p))
      | _ \<Rightarrow>
          (case rx_server ctx of
             None \<Rightarrow> Ret (Some (Inl SERVER_NOT_FOUND))
           | Some srv \<Rightarrow>
               (case dest of
                  To_svr sid \<Rightarrow>
                    (let id_str = id_to_str api srv sid in
                     if id_str \<noteq> [] then parse_peer io id_str else Ret (Some (Inl SERVER_NOT_FOUND)))
                | To_role Role_LEADER \<Rightarrow>
                    run_bind (is_raft_leader api ctx) (\<lambda>lead.
                      if lead then Ret (Some (Inl BAD_REQUEST))
                      else let leader = api_get_leader api srv in
                        if leader = -1 then Ret (Some (Inl SERVER_NOT_FOUND))
                        else parse_peer io (id_to_str api srv leader))
                | To_role Role_ALL \<Rightarrow> Ret None
                | _ \<Rightarrow> Ret (Some (Inl BAD_REQUEST)))))"

section \<open>Requests\<close>

definition ctx_request_unidirectional where
  "ctx_request_unidirectional io env api ctx dest request_name st =
     (case rx_mesg_factory ctx of
        None \<Rightarrow> Ret (Inl SERVER_NOT_FOUND, st)
      | Some mf \<Rightarrow> run_bind (get_peer_id io api ctx dest)
          (\<lambda>p. data_service_request_unidirectional io env mf p request_name st))"

definition ctx_request_bidirectional where
  "ctx_request_bidirectional io env api ctx dest request_name st =
     (case rx_mesg_factory ctx of
        None \<Rightarrow> Ret (Inl SERVER_NOT_FOUND, st)
      | Some mf \<Rightarrow> run_bind (get_peer_id io api ctx dest)
          (\<lambda>p. data_service_request_bidirectional io env mf p request_name st))"

text \<open>
  A generic call at the server: what came in, and the response once it is sent. The pointer
  to the call is used without a check.
\<close>

record generic_rpc =
  gr_request :: buffer
  gr_response :: "buffer option"

definition send_data_service_response :: "buffer list \<Rightarrow> generic_rpc option \<Rightarrow> generic_rpc run" where
  "send_data_service_response outgoing_buf rpc_data =
     run_bind (deref rpc_data) (\<lambda>d. Ret (d\<lparr>gr_response := Some (concat outgoing_buf)\<rparr>))"

section \<open>Facts\<close>

text \<open>In the RAFT configuration an endpoint is the UUID of the server.\<close>

definition config_uuids :: "uuid_io \<Rightarrow> ('p, 'srv) raft_api \<Rightarrow> 'srv \<Rightarrow> bool" where
  "config_uuids io api srv \<longleftrightarrow>
     (\<forall>sid cfg. api_config_server api srv sid = Some cfg \<longrightarrow> (\<exists>p. sc_endpoint cfg = to_string io p))"

text \<open>The destination that has no answer: the leader, when its entry is not in the configuration.\<close>

definition leader_unlisted :: "('p, 'srv) raft_api \<Rightarrow> 'srv repl_service_ctx \<Rightarrow> destination \<Rightarrow> bool" where
  "leader_unlisted api ctx dest \<longleftrightarrow> dest = To_role Role_LEADER \<and>
     (\<exists>srv. rx_server ctx = Some srv \<and> \<not> api_is_leader api srv \<and> api_get_leader api srv \<noteq> -1 \<and>
        api_config_server api srv (api_get_leader api srv) = None)"

lemma uuid_print_not_empty: "uuid_io_ok io \<Longrightarrow> to_string io p \<noteq> []"
  by (metis option.distinct(1) uuid_parse_empty uuid_parse_print)

lemma parse_listed:
  assumes "uuid_io_ok io" and "config_uuids io api srv" and "api_config_server api srv sid = Some cfg"
  shows "\<exists>p. parse_peer io (id_to_str api srv sid) = Ret (Some (Inr p)) \<and> sc_endpoint cfg = to_string io p
    \<and> id_to_str api srv sid \<noteq> []"
proof -
  obtain p where "sc_endpoint cfg = to_string io p" using assms(2,3) unfolding config_uuids_def by blast
  with assms(3) uuid_print_not_empty [OF assms(1)] show ?thesis
    by (simp add: parse_peer_def id_to_str_def uuid_parse_print [OF assms(1)])
qed

lemma parse_unlisted:
  assumes "uuid_io_ok io" and "api_config_server api srv sid = None"
  shows "id_to_str api srv sid = []" and "parse_peer io (id_to_str api srv sid) = Runtime_error ''invalid uuid string''"
  using assms by (simp_all add: parse_peer_def id_to_str_def uuid_parse_empty)

lemma get_peer_id_leader:
  assumes "rx_server ctx = Some srv"
  shows "get_peer_id io api ctx (To_role Role_LEADER) =
    (if api_is_leader api srv then Ret (Some (Inl BAD_REQUEST))
     else if api_get_leader api srv = -1 then Ret (Some (Inl SERVER_NOT_FOUND))
     else parse_peer io (id_to_str api srv (api_get_leader api srv)))"
  using assms by (simp add: get_peer_id_def is_raft_leader_def Let_def)

lemma get_peer_id_total:
  assumes "uuid_io_ok io" and "\<And>srv. rx_server ctx = Some srv \<Longrightarrow> config_uuids io api srv"
  shows "if leader_unlisted api ctx dest then get_peer_id io api ctx dest = Runtime_error ''invalid uuid string''
    else \<exists>p. get_peer_id io api ctx dest = Ret p"
proof (cases "rx_server ctx")
  case None
  then show ?thesis by (cases dest) (simp_all add: get_peer_id_def leader_unlisted_def)
next
  case (Some srv)
  show ?thesis
  proof (cases dest)
    case (To_peer p)
    then show ?thesis by (simp add: get_peer_id_def leader_unlisted_def)
  next
    case (To_role r)
    show ?thesis
    proof (cases "r = Role_LEADER")
      case True
      show ?thesis
        using Some get_peer_id_leader [OF Some, of io api] parse_unlisted(2) [OF assms(1), of api srv]
          parse_listed [OF assms(1) assms(2) [OF Some], of "api_get_leader api srv"]
        by (cases "api_config_server api srv (api_get_leader api srv)")
          (auto simp: leader_unlisted_def To_role True)
    next
      case False
      then show ?thesis using Some To_role by (cases r) (simp_all add: get_peer_id_def leader_unlisted_def)
    qed
  next
    case (To_svr sid)
    then show ?thesis
      using Some parse_listed [OF assms(1) assms(2) [OF Some], of sid] parse_unlisted(1) [OF assms(1), of api srv sid]
      by (cases "api_config_server api srv sid") (auto simp: get_peer_id_def leader_unlisted_def Let_def)
  qed
qed

text \<open>An entry that shows what the configuration says of a server.\<close>

definition shows_config :: "('p, 'srv) raft_api \<Rightarrow> 'srv \<Rightarrow> peer_info \<Rightarrow> bool" where
  "shows_config api srv i \<longleftrightarrow> (\<exists>sid cfg. api_get_srv_config api srv sid = Some cfg \<and>
     pinfo_id i = sc_endpoint cfg \<and> pinfo_priority i = sc_priority cfg \<and>
     pinfo_is_learner i = sc_learner cfg \<and> pinfo_is_new_joiner i = sc_new_joiner cfg)"

lemma peer_entry_shows_config:
  assumes "i \<in> set (peer_entry api srv p)"
  shows "shows_config api srv i"
proof (cases "api_get_srv_config api srv (pi_id p)")
  case None
  with assms show ?thesis by (simp add: peer_entry_def)
next
  case (Some cfg)
  with assms show ?thesis
    unfolding shows_config_def by (intro exI [of _ "pi_id p"] exI [of _ cfg]) (simp add: peer_entry_def split: if_splits)
qed

lemma peer_entry_reports:
  assumes "api_get_srv_config api srv (pi_id p) = Some cfg" and "sc_endpoint cfg \<noteq> []"
  obtains i where "peer_entry api srv p = [i]" and "pinfo_id i = sc_endpoint cfg"
    and "pinfo_last_log_idx i = pi_last_log_idx p" and "pinfo_last_succ_resp_us i = pi_last_succ_resp_us p"
  using assms by (simp add: peer_entry_def)

section \<open>Properties\<close>

text \<open>
  C20: A data request through the context always has an outcome but one. With a sound
  client cache and a configuration whose endpoints are UUIDs, a request of either kind to
  any destination - a peer, a server id or a role, with or without a RAFT server or a
  factory - returns a result or an error and keeps the cache sound. The exception is the
  leader as destination, when the server knows its id but the configuration has no entry
  for it: then the empty address is parsed as a UUID and the call throws, where a server
  id without an entry is answered with \<open>SERVER_NOT_FOUND\<close>.
\<close>

theorem ctx_request_outcome:
  assumes "uuid_io_ok io" and "\<And>srv. rx_server ctx = Some srv \<Longrightarrow> config_uuids io api srv"
    and "\<And>mf. rx_mesg_factory ctx = Some mf \<Longrightarrow> st_ok io mf st"
  shows "if leader_unlisted api ctx dest \<and> rx_mesg_factory ctx \<noteq> None
    then ctx_request_unidirectional io env api ctx dest name st = Runtime_error ''invalid uuid string'' \<and>
      ctx_request_bidirectional io env api ctx dest name st = Runtime_error ''invalid uuid string''
    else (\<exists>r st'. ctx_request_unidirectional io env api ctx dest name st = Ret (r, st') \<and>
        (\<forall>mf. rx_mesg_factory ctx = Some mf \<longrightarrow> st_ok io mf st')) \<and>
      (\<exists>r st'. ctx_request_bidirectional io env api ctx dest name st = Ret (r, st') \<and>
        (\<forall>mf. rx_mesg_factory ctx = Some mf \<longrightarrow> st_ok io mf st'))"
proof (cases "rx_mesg_factory ctx")
  case None
  then show ?thesis
    by (cases st) (simp add: ctx_request_unidirectional_def ctx_request_bidirectional_def)
next
  case (Some mf)
  note total = get_peer_id_total [OF assms(1), of ctx api dest, OF assms(2)]
  show ?thesis
  proof (cases "leader_unlisted api ctx dest")
    case True
    with total Some show ?thesis
      by (simp add: ctx_request_unidirectional_def ctx_request_bidirectional_def)
  next
    case False
    with total obtain p where p: "get_peer_id io api ctx dest = Ret p" by auto
    note safe = data_requests_law [OF assms(3) [OF Some], of env p name]
    show ?thesis using safe False
      by (simp add: ctx_request_unidirectional_def ctx_request_bidirectional_def Some p)
  qed
qed

theorem ctx_request_outcome_witness:
  "ctx_request_unidirectional bits_uuid_io sample_cenv (sample_api\<lparr>api_get_leader := (\<lambda>_. 2)\<rparr>)
     \<lparr>rx_server = Some [], rx_mesg_factory = Some sample_mf\<rparr> (To_role Role_LEADER) ''put''
     ([(7, Some 1)], [(7, Some 0)], sample_heap 0) = Runtime_error ''invalid uuid string''"
proof -
  let ?api = "sample_api\<lparr>api_get_leader := (\<lambda>_. 2)\<rparr>"
  let ?ctx = "\<lparr>rx_server = Some [], rx_mesg_factory = Some sample_mf\<rparr> :: sample_srv repl_service_ctx"
  have "config_uuids bits_uuid_io ?api srv" for srv
    by (auto simp: config_uuids_def sample_api_def sample_cfg_def)
  moreover have "st_ok bits_uuid_io sample_mf ([(7, Some 1)], [(7, Some 0)], sample_heap 0)"
    using sample_clients_ok by (simp add: st_ok_def mf_inv_def)
  moreover have "leader_unlisted ?api ?ctx (To_role Role_LEADER)"
    by (simp add: leader_unlisted_def sample_api_def)
  ultimately show ?thesis
    using ctx_request_outcome [OF bits_uuid_io_ok, where ctx = ?ctx and api = ?api and dest = "To_role Role_LEADER"
        and st = "([(7, Some 1)], [(7, Some 0)], sample_heap 0)" and env = sample_cenv and name = "''put''"]
    by auto
qed



end
