(* ===== verification/Msg_Service.thy ===== *)
theory Msg_Service
  imports Samples
begin

text \<open>
  \<open>msg_service\<close> (\<open>src/lib/service.cpp\<close>) and the part of \<open>ManagerImpl\<close> it calls back,
  \<open>group_init\<close> (\<open>src/lib/manager_impl.cpp\<close>): joining a RAFT group, routing the group
  operations to the group's RAFT server, leaving and shutting down.
\<close>

section \<open>Creating the context of a group\<close>

text \<open>
  The state manager of a group: the one that is registered, or a new one from the
  application. An application that is gone, or that returns no state manager, is a null
  pointer that is used at once.
\<close>

definition group_state_mgr ::
  "application \<Rightarrow> i32 \<Rightarrow> group_id \<Rightarrow> ('p, 'srv, 'h) node \<Rightarrow> nat run \<times> ('p, 'srv, 'h) node" where
  "group_state_mgr app srv_id gid n =
     (let (sms, happened) = om_emplace gid None (nd_state_managers n);
          n1 = n\<lparr>nd_state_managers := sms\<rparr> in
      if happened then
        (if \<not> app_alive app then (Crash, n1)
         else case app_create_state_mgr app srv_id gid of
           None \<Rightarrow> (Crash, n1)
         | Some sm \<Rightarrow>
             (let a = length (nd_smgrs n) in
              (Ret a, n1\<lparr>nd_smgrs := nd_smgrs n @ [sm],
                         nd_state_managers := om_assign gid (Some a) sms\<rparr>)))
      else (deref (the (om_find sms gid)), n1))"

definition ready_state_mgr :: "nat \<Rightarrow> ('p, 'srv, 'h) node \<Rightarrow> ('p, 'srv, 'h) node" where
  "ready_state_mgr a n =
     upd_smgr a (\<lambda>sm. (sm_call Set_manager_impl (sm_call Get_state_machine (sm_call Become_ready sm)))
                        \<lparr>sm_manager_set := True\<rparr>) n"

definition group_init ::
  "application \<Rightarrow> i32 \<Rightarrow> group_id \<Rightarrow> group_type \<Rightarrow> nat option \<Rightarrow> ('p, 'srv, 'h) node
   \<Rightarrow> (cmd_result_code + 'p raft_context) run \<times> ('p, 'srv, 'h) node" where
  "group_init app srv_id gid gtype metrics n =
     (case om_find (nd_state_mgr_types n) gtype of
        None \<Rightarrow> (Ret (Inl SERVER_NOT_FOUND), n)
      | Some params \<Rightarrow>
          (case group_state_mgr app srv_id gid n of
             (Ret a, n1) \<Rightarrow>
               (Ret (Inr \<lparr>cx_state_mgr = a, cx_params = params, cx_group = gid, cx_group_type = gtype,
                          cx_metrics = metrics, cx_listener = None\<rparr>),
                ready_state_mgr a n1)
           | (Runtime_error e, n1) \<Rightarrow> (Runtime_error e, n1)
           | (Crash, n1) \<Rightarrow> (Crash, n1)))"

section \<open>Joining a group\<close>

definition shutdown_for :: "group_id \<Rightarrow> ('p, 'srv, 'h) node \<Rightarrow> ('p, 'srv, 'h) node" where
  "shutdown_for gid n = n\<lparr>nd_raft_servers := om_erase gid (nd_raft_servers n)\<rparr>"

text \<open>
  The destructor of \<open>msg_group_listner\<close>, the listener of a group's RAFT server, while the
  service is there; its other callbacks only log.
\<close>

definition listner_dtor :: "group_id \<Rightarrow> ('p, 'srv, 'h) node \<Rightarrow> ('p, 'srv, 'h) node" where
  [simp]: "listner_dtor gid n = shutdown_for gid n"

text \<open>
  \<open>joinRaftGroup\<close> up to the point where the context exists: a result code is an early
  return. The check for a duplicate and the insertion below are separate steps, between
  which another thread can run.
\<close>

definition join_check ::
  "application \<Rightarrow> i32 \<Rightarrow> group_id \<Rightarrow> group_type \<Rightarrow> ('p, 'srv, 'h) node
   \<Rightarrow> (cmd_result_code + 'p raft_context) run \<times> ('p, 'srv, 'h) node" where
  "join_check app srv_id gid gtype n =
     (if \<not> nd_manager_alive n then (Ret (Inl CANCELLED), n)
      else
        (let g_type = (if gtype = [] then nd_default_group_type n else gtype) in
         if om_find (nd_raft_servers n) gid \<noteq> None then (Ret (Inl OK), n)
         else
           (let metrics = (if nd_metrics_enabled n then Some (length (nd_metrics n)) else None) in
            case group_init app srv_id gid g_type metrics n of
              (Ret (Inr ctx), n1) \<Rightarrow>
                (Ret (Inr ctx),
                 (if nd_metrics_enabled n
                  then n1\<lparr>nd_metrics := nd_metrics n1 @ [\<lparr>group_steps = 0, group_sends = 0, append_entries_observed = 0\<rparr>]\<rparr>
                  else n1))
            | r \<Rightarrow> r)))"

text \<open>
  The rest of \<open>joinRaftGroup\<close>: the listener, the RAFT server, \<open>try_emplace\<close>. When the
  group is already there the new server is destroyed; if that releases its listener,
  the destructor of \<open>msg_group_listner\<close> calls \<open>shutdown_for\<close> with the group's id.
\<close>

definition join_commit ::
  "('p, 'srv) raft_api \<Rightarrow> 'p raft_context \<Rightarrow> ('p, 'srv, 'h) node \<Rightarrow> ('p, 'srv, 'h) node" where
  "join_commit api ctx n =
     (let gid = cx_group ctx; a = length (nd_servers n);
          n1 = n\<lparr>nd_servers := nd_servers n @ [api_new_server api (ctx\<lparr>cx_listener := Some gid\<rparr>)]\<rparr> in
      if om_find (nd_raft_servers n) gid = None then
        (let n2 = n1\<lparr>nd_raft_servers := om_assign gid \<lparr>w_metrics = cx_metrics ctx, w_server = a\<rparr> (nd_raft_servers n)\<rparr> in
         if nd_data_service_enabled n
         then upd_smgr (cx_state_mgr ctx) (make_repl_ctx a (gid, cx_group_type ctx)) n2
         else n2)
      else if api_dtor_releases api then listner_dtor gid n1 else n1)"

definition joinRaftGroup ::
  "('p, 'srv) raft_api \<Rightarrow> application \<Rightarrow> i32 \<Rightarrow> group_id \<Rightarrow> group_type \<Rightarrow> ('p, 'srv, 'h) node
   \<Rightarrow> cmd_result_code run \<times> ('p, 'srv, 'h) node" where
  "joinRaftGroup api app srv_id gid gtype n =
     (case join_check app srv_id gid gtype n of
        (Ret (Inl code), n1) \<Rightarrow> (Ret code, n1)
      | (Ret (Inr ctx), n1) \<Rightarrow> (Ret OK, join_commit api ctx n1)
      | (Runtime_error e, n1) \<Rightarrow> (Runtime_error e, n1)
      | (Crash, n1) \<Rightarrow> (Crash, n1))"

section \<open>Group operations\<close>

text \<open>
  \<open>CONTINUE_RESP\<close>: the code of the command now, or the one it completes with; a
  \<open>std::runtime_error\<close> is caught and the code after the macro runs (\<open>None\<close>).
\<close>

definition continue_resp :: "cmd_result run \<Rightarrow> null_result option run" where
  "continue_resp resp =
     (case resp of
        Ret cr \<Rightarrow>
          (if cr_code cr \<noteq> RESULT_NOT_EXIST_YET then Ret (Some (null_result_of (cr_code cr)))
           else Ret (Some (null_result_of (cr_final_code cr))))
      | Runtime_error _ \<Rightarrow> Ret None
      | Crash \<Rightarrow> Crash)"

text \<open>The shape shared by \<open>add_member\<close>, \<open>rem_member\<close> and \<open>append_entries\<close>.\<close>

definition on_group ::
  "('srv \<Rightarrow> cmd_result run \<times> 'srv) \<Rightarrow> group_id \<Rightarrow> ('p, 'srv, 'h) node
   \<Rightarrow> null_result run \<times> ('p, 'srv, 'h) node" where
  "on_group f gid n =
     (case om_find (nd_raft_servers n) gid of
        None \<Rightarrow> (Ret (Inl SERVER_NOT_FOUND), n)
      | Some w \<Rightarrow>
          (let (resp, srv) = f (nd_servers n ! w_server w); n1 = upd_server (w_server w) srv n in
           case continue_resp resp of
             Ret (Some r) \<Rightarrow> (Ret r, n1)
           | Ret None \<Rightarrow> (Ret (Inl SERVER_NOT_FOUND), n1)
           | Runtime_error e \<Rightarrow> (Runtime_error e, n1)
           | Crash \<Rightarrow> (Crash, n1)))"

definition svc_add_member ::
  "('p, 'srv) raft_api \<Rightarrow> group_id \<Rightarrow> srv_config \<Rightarrow> ('p, 'srv, 'h) node \<Rightarrow> null_result run \<times> ('p, 'srv, 'h) node" where
  "svc_add_member api gid cfg n = on_group (grpc_server_add_srv api cfg) gid n"

definition svc_rem_member ::
  "('p, 'srv) raft_api \<Rightarrow> group_id \<Rightarrow> i32 \<Rightarrow> ('p, 'srv, 'h) node \<Rightarrow> null_result run \<times> ('p, 'srv, 'h) node" where
  "svc_rem_member api gid member_id n = on_group (grpc_server_rem_srv api member_id) gid n"

definition svc_append_entries ::
  "('p, 'srv) raft_api \<Rightarrow> group_id \<Rightarrow> buffer list \<Rightarrow> ('p, 'srv, 'h) node \<Rightarrow> null_result run \<times> ('p, 'srv, 'h) node" where
  "svc_append_entries api gid logs n = on_group (grpc_server_append_entries api logs) gid n"

definition svc_become_leader ::
  "('p, 'srv) raft_api \<Rightarrow> group_id \<Rightarrow> ('p, 'srv, 'h) node \<Rightarrow> bool run \<times> ('p, 'srv, 'h) node" where
  "svc_become_leader api gid n =
     (case om_find (nd_raft_servers n) gid of
        None \<Rightarrow> (Ret False, n)
      | Some w \<Rightarrow>
          (let (r, srv) = grpc_server_request_leadership api (nd_servers n ! w_server w);
               n1 = upd_server (w_server w) srv n in
           case r of
             Ret b \<Rightarrow> (Ret b, n1)
           | Runtime_error _ \<Rightarrow> (Ret False, n1)
           | Crash \<Rightarrow> (Crash, n1)))"

definition svc_get_srv_config_all ::
  "('p, 'srv) raft_api \<Rightarrow> group_id \<Rightarrow> srv_config list \<Rightarrow> ('p, 'srv, 'h) node \<Rightarrow> srv_config list run" where
  "svc_get_srv_config_all api gid configs_out n =
     (case om_find (nd_raft_servers n) gid of
        None \<Rightarrow> Ret configs_out
      | Some w \<Rightarrow>
          (case grpc_server_get_srv_config_all api configs_out (nd_servers n ! w_server w) of
             Ret cs \<Rightarrow> Ret cs
           | Runtime_error _ \<Rightarrow> Ret configs_out
           | Crash \<Rightarrow> Crash))"

section \<open>Leaving and shutting down\<close>

text \<open>
  \<open>stop_server()\<close> then \<open>shutdown()\<close> on a group's RAFT server. When the shutdown drops
  the listener, its destructor removes the group from the map.
\<close>

definition stop_entry ::
  "('p, 'srv) raft_api \<Rightarrow> group_id \<Rightarrow> grpc_server_wrapper \<Rightarrow> ('p, 'srv, 'h) node \<Rightarrow> ('p, 'srv, 'h) node" where
  "stop_entry api gid w n =
     (let stopped = api_stop_server api (nd_servers n ! w_server w);
          n1 = upd_server (w_server w) (api_shutdown api stopped) n in
      if api_shutdown_releases api stopped then listner_dtor gid n1 else n1)"

definition svc_leave_group ::
  "('p, 'srv) raft_api \<Rightarrow> group_id \<Rightarrow> ('p, 'srv, 'h) node \<Rightarrow> ('p, 'srv, 'h) node" where
  "svc_leave_group api gid n =
     (case om_find (nd_raft_servers n) gid of
        None \<Rightarrow> n
      | Some w \<Rightarrow> stop_entry api gid w n)"

fun svc_shutdown_loop ::
  "('p, 'srv) raft_api \<Rightarrow> (group_id \<times> grpc_server_wrapper) list \<Rightarrow> ('p, 'srv, 'h) node \<Rightarrow> ('p, 'srv, 'h) node" where
  "svc_shutdown_loop api [] n = n"
| "svc_shutdown_loop api ((k, v) # rest) n = svc_shutdown_loop api rest (stop_entry api k v n)"

definition svc_shutdown :: "('p, 'srv) raft_api \<Rightarrow> ('p, 'srv, 'h) node \<Rightarrow> ('p, 'srv, 'h) node" where
  "svc_shutdown api n = svc_shutdown_loop api (nd_raft_servers n) n"

section \<open>The data channel of the service\<close>

definition svc_bind_data_service_request ::
  "uuid_io \<Rightarrow> grpc_env \<Rightarrow> string \<Rightarrow> group_id \<Rightarrow> 'h option \<Rightarrow> ('p, 'srv, 'h) node
   \<Rightarrow> bool run \<times> ('p, 'srv, 'h) node" where
  "svc_bind_data_service_request io env request_name gid request_handler n =
     (if \<not> nd_data_service_enabled n then (Ret False, n)
      else case nd_grpc_server n of
        None \<Rightarrow> (Crash, n)
      | Some srv \<Rightarrow>
          (let (r, ds, srv') = ds_bind io env request_name gid request_handler (nd_data_service n, srv) in
           (r, n\<lparr>nd_data_service := ds, nd_grpc_server := Some srv'\<rparr>)))"

definition svc_associate ::
  "grpc_env \<Rightarrow> 'h grpc_srv \<Rightarrow> ('p, 'srv, 'h) node \<Rightarrow> 'h grpc_srv run \<times> ('p, 'srv, 'h) node" where
  "svc_associate env srv n =
     (if nd_data_service_enabled n
      then (ds_associate env srv, n\<lparr>nd_data_service := ds_set_grpc_server (nd_data_service n)\<rparr>)
      else (Ret srv, n))"

definition svc_bind ::
  "grpc_env \<Rightarrow> 'h grpc_srv \<Rightarrow> ('p, 'srv, 'h) node \<Rightarrow> unit run \<times> 'h grpc_srv" where
  "svc_bind env srv n =
     (if nd_data_service_enabled n then ds_bind_all env (nd_data_service n) srv else (Ret (), srv))"

section \<open>Facts: contexts and joins\<close>

lemma ready_state_mgr_fields [simp]:
  "nd_raft_servers (ready_state_mgr a n) = nd_raft_servers n"
  "nd_servers (ready_state_mgr a n) = nd_servers n"
  "nd_metrics (ready_state_mgr a n) = nd_metrics n"
  "nd_state_managers (ready_state_mgr a n) = nd_state_managers n"
  "nd_state_mgr_types (ready_state_mgr a n) = nd_state_mgr_types n"
  "nd_is_leader (ready_state_mgr a n) = nd_is_leader n"
  "length (nd_smgrs (ready_state_mgr a n)) = length (nd_smgrs n)"
  "nd_metrics_enabled (ready_state_mgr a n) = nd_metrics_enabled n"
  "nd_data_service_enabled (ready_state_mgr a n) = nd_data_service_enabled n"
  "nd_manager_alive (ready_state_mgr a n) = nd_manager_alive n"
  "nd_default_group_type (ready_state_mgr a n) = nd_default_group_type n"
  by (simp_all add: ready_state_mgr_def upd_smgr_def)

lemma node_inv_ready [simp]: "node_inv (ready_state_mgr a n) \<longleftrightarrow> node_inv n"
  by (simp add: ready_state_mgr_def)

text \<open>The two ways \<open>group_state_mgr\<close> succeeds, and what it then leaves.\<close>

lemma group_state_mgr_known:
  assumes "node_inv n" and "om_find (nd_state_managers n) g = Some (Some a)"
  shows "group_state_mgr app s g n = (Ret a, n)"
  using assms by (simp add: group_state_mgr_def om_emplace_def)

lemma group_state_mgr_new:
  assumes "node_inv n" and "om_find (nd_state_managers n) g = None"
    and "app_alive app" and "app_create_state_mgr app s g = Some sm"
  shows "group_state_mgr app s g n =
    (Ret (length (nd_smgrs n)),
     n\<lparr>nd_smgrs := nd_smgrs n @ [sm],
       nd_state_managers := om_assign g (Some (length (nd_smgrs n))) (nd_state_managers n)\<rparr>)"
  using assms
  by (simp add: group_state_mgr_def om_emplace_def Let_def node_inv_def node_maps_ok_def om.assign_assign)

lemma group_state_mgr_Ret:
  assumes "node_inv n" and "group_state_mgr app s g n = (Ret a, n')"
  obtains (known) "om_find (nd_state_managers n) g = Some (Some a)" "n' = n"
  | (new) sm where "om_find (nd_state_managers n) g = None" "app_alive app"
      "app_create_state_mgr app s g = Some sm" "a = length (nd_smgrs n)"
      "n' = n\<lparr>nd_smgrs := nd_smgrs n @ [sm],
              nd_state_managers := om_assign g (Some a) (nd_state_managers n)\<rparr>"
proof (cases "om_find (nd_state_managers n) g")
  case (Some p)
  with assms(1) obtain b where "p = Some b" by (auto dest: node_inv_smgr)
  with Some group_state_mgr_known [OF assms(1), of g b app s] assms(2) show ?thesis
    by (intro known) auto
next
  case None
  with assms(2) obtain sm where sm: "app_alive app" "app_create_state_mgr app s g = Some sm"
    by (auto simp: group_state_mgr_def om_emplace_def Let_def split: if_splits option.splits)
  with None group_state_mgr_new [OF assms(1) None sm] assms(2) show ?thesis
    by (intro new) auto
qed

lemma group_state_mgr_no_throw: "fst (group_state_mgr app s g n) \<noteq> Runtime_error e"
  by (auto simp: group_state_mgr_def om_emplace_def Let_def deref_def split: option.splits)

lemma group_state_mgr_inv:
  assumes "node_inv n" and "group_state_mgr app s g n = (Ret a, n')"
  shows "node_inv n' \<and> a < length (nd_smgrs n') \<and> om_find (nd_state_managers n') g = Some (Some a)
    \<and> nd_raft_servers n' = nd_raft_servers n \<and> nd_servers n' = nd_servers n \<and> nd_metrics n' = nd_metrics n
    \<and> nd_metrics_enabled n' = nd_metrics_enabled n"
  using assms
proof (cases rule: group_state_mgr_Ret)
  case known
  with assms(1) show ?thesis by (auto dest: node_inv_smgr)
next
  case (new sm)
  with assms(1) show ?thesis
    by (auto simp: node_inv_defs less_Suc_eq split: if_splits)
qed

lemma group_init_Inr:
  assumes "group_init app s g t m n = (Ret (Inr ctx), n')"
  obtains params a n1 where "om_find (nd_state_mgr_types n) t = Some params"
    "group_state_mgr app s g n = (Ret a, n1)" "n' = ready_state_mgr a n1"
    "ctx = \<lparr>cx_state_mgr = a, cx_params = params, cx_group = g, cx_group_type = t,
            cx_metrics = m, cx_listener = None\<rparr>"
  using assms by (auto simp: group_init_def split: option.splits prod.splits run.splits)

lemma group_init_Inl:
  assumes "group_init app s g t m n = (Ret (Inl c), n')"
  shows "c = SERVER_NOT_FOUND \<and> n' = n \<and> om_find (nd_state_mgr_types n) t = None"
  using assms by (auto simp: group_init_def split: option.splits prod.splits run.splits)

text \<open>The type a join uses: an empty name stands for the default type.\<close>

definition effective_type :: "group_type \<Rightarrow> ('p, 'srv, 'h) node \<Rightarrow> group_type" where
  "effective_type t n = (if t = [] then nd_default_group_type n else t)"

lemma join_check_Inl:
  assumes "join_check app s g t n = (Ret (Inl c), n')"
  shows "n' = n \<and> (c = CANCELLED \<and> \<not> nd_manager_alive n
    \<or> c = OK \<and> om_find (nd_raft_servers n) g \<noteq> None
    \<or> c = SERVER_NOT_FOUND \<and> om_find (nd_raft_servers n) g = None
        \<and> om_find (nd_state_mgr_types n) (effective_type t n) = None)"
  using assms
  by (auto simp: join_check_def effective_type_def Let_def split: if_splits prod.splits run.splits sum.splits
      dest: group_init_Inl)

lemma join_check_Inr:
  assumes "node_inv n" and "join_check app s g t n = (Ret (Inr ctx), n')"
  shows "node_inv n' \<and> cx_group ctx = g \<and> cx_state_mgr ctx < length (nd_smgrs n')
    \<and> om_find (nd_state_managers n') g = Some (Some (cx_state_mgr ctx))
    \<and> cx_group_type ctx = effective_type t n
    \<and> om_find (nd_state_mgr_types n) (effective_type t n) = Some (cx_params ctx)
    \<and> (\<forall>a. cx_metrics ctx = Some a \<longrightarrow> a < length (nd_metrics n'))
    \<and> nd_raft_servers n' = nd_raft_servers n \<and> nd_servers n' = nd_servers n
    \<and> om_find (nd_raft_servers n) g = None \<and> nd_manager_alive n"
proof -
  define m where "m = (if nd_metrics_enabled n then Some (length (nd_metrics n)) else None)"
  from assms(2) obtain n0 where gi: "group_init app s g (effective_type t n) m n = (Ret (Inr ctx), n0)"
    and n': "n' = (if nd_metrics_enabled n
       then n0\<lparr>nd_metrics := nd_metrics n0 @ [\<lparr>group_steps = 0, group_sends = 0, append_entries_observed = 0\<rparr>]\<rparr> else n0)"
    and fresh: "om_find (nd_raft_servers n) g = None" "nd_manager_alive n"
    by (auto simp: join_check_def effective_type_def m_def Let_def
        split: if_splits prod.splits run.splits sum.splits)
  from gi obtain a n1 where gs: "group_state_mgr app s g n = (Ret a, n1)" and n0: "n0 = ready_state_mgr a n1"
    and ctx: "cx_state_mgr ctx = a" "cx_group ctx = g" "cx_group_type ctx = effective_type t n"
      "cx_metrics ctx = m" "om_find (nd_state_mgr_types n) (effective_type t n) = Some (cx_params ctx)"
    by (elim group_init_Inr) auto
  have "node_inv n'" if "node_inv n0"
    using that by (auto simp: n' node_inv_defs intro: less_SucI)
  with group_state_mgr_inv [OF assms(1) gs] ctx fresh show ?thesis
    by (auto simp: n' n0 m_def)
qed

lemma shutdown_for_fields [simp]:
  "om_find (nd_raft_servers (shutdown_for g n)) g' = (if g = g' then None else om_find (nd_raft_servers n) g')"
  "nd_state_managers (shutdown_for g n) = nd_state_managers n"
  "nd_servers (shutdown_for g n) = nd_servers n"
  "nd_smgrs (shutdown_for g n) = nd_smgrs n"
  "nd_is_leader (shutdown_for g n) = nd_is_leader n"
  "nd_state_mgr_types (shutdown_for g n) = nd_state_mgr_types n"
  "nd_manager_alive (shutdown_for g n) = nd_manager_alive n"
  by (simp_all add: shutdown_for_def)

lemma node_inv_shutdown_for [simp]: "node_inv n \<Longrightarrow> node_inv (shutdown_for g n)"
  by (auto simp: shutdown_for_def node_inv_defs)

lemma join_commit_new:
  assumes "om_find (nd_raft_servers n) (cx_group ctx) = None"
  shows "om_find (nd_raft_servers (join_commit api ctx n)) g =
      (if g = cx_group ctx then Some \<lparr>w_metrics = cx_metrics ctx, w_server = length (nd_servers n)\<rparr>
       else om_find (nd_raft_servers n) g)"
    and "nd_servers (join_commit api ctx n) =
      nd_servers n @ [api_new_server api (ctx\<lparr>cx_listener := Some (cx_group ctx)\<rparr>)]"
    and "nd_state_managers (join_commit api ctx n) = nd_state_managers n"
    and "length (nd_smgrs (join_commit api ctx n)) = length (nd_smgrs n)"
  using assms by (auto simp: join_commit_def Let_def upd_smgr_def)

lemma join_commit_inv:
  assumes "node_inv n" and "om_find (nd_state_managers n) (cx_group ctx) \<noteq> None"
    and "\<forall>a. cx_metrics ctx = Some a \<longrightarrow> a < length (nd_metrics n)"
  shows "node_inv (join_commit api ctx n)"
proof -
  have "node_inv (n\<lparr>nd_servers := nd_servers n @ [srv]\<rparr>)" for srv
    using assms(1) by (auto simp: node_inv_defs intro: less_SucI)
  moreover have "node_inv (n\<lparr>nd_servers := nd_servers n @ [srv],
      nd_raft_servers := om_assign (cx_group ctx) \<lparr>w_metrics = cx_metrics ctx, w_server = length (nd_servers n)\<rparr> (nd_raft_servers n)\<rparr>)" for srv
    using assms by (auto simp: node_inv_defs intro: less_SucI split: if_splits)
  ultimately show ?thesis by (auto simp: join_commit_def Let_def)
qed

lemma join_commit_dup:
  assumes "om_find (nd_raft_servers n) (cx_group ctx) \<noteq> None"
  shows "om_find (nd_raft_servers (join_commit api ctx n)) (cx_group ctx) =
    (if api_dtor_releases api then None else om_find (nd_raft_servers n) (cx_group ctx))"
  using assms by (auto simp: join_commit_def Let_def)

section \<open>Properties\<close>

text \<open>
  When \<open>joinRaftGroup\<close> returns \<open>OK\<close> the node is well-formed, the group has a RAFT
  server and a state manager, and the servers of all other groups are untouched.
\<close>

lemma join_ok_serves_group:
  assumes "node_inv n" and "joinRaftGroup api app s g t n = (Ret OK, n')"
  shows "node_inv n' \<and> om_find (nd_raft_servers n') g \<noteq> None \<and> om_find (nd_state_managers n') g \<noteq> None
    \<and> (\<forall>g'. g' \<noteq> g \<longrightarrow> om_find (nd_raft_servers n') g' = om_find (nd_raft_servers n) g')"
proof -
  from assms(2) consider (early) "join_check app s g t n = (Ret (Inl OK), n')"
    | (commit) ctx n1 where "join_check app s g t n = (Ret (Inr ctx), n1)" "n' = join_commit api ctx n1"
    by (auto simp: joinRaftGroup_def split: prod.splits run.splits sum.splits)
  then show ?thesis
  proof cases
    case early
    then have "n' = n" and "om_find (nd_raft_servers n) g \<noteq> None"
      using join_check_Inl [OF early] by (auto simp: result_codes)
    with assms(1) show ?thesis by (auto simp: node_inv_def servers_ok_def)
  next
    case commit
    note ck = join_check_Inr [OF assms(1) commit(1)]
    then have "node_inv (join_commit api ctx n1)" by (intro join_commit_inv) auto
    with ck show ?thesis by (auto simp: commit(2) join_commit_new)
  qed
qed

lemma join_ok_serves_group_witness:
  "node_inv sample_node \<and> fst (joinRaftGroup sample_api sample_app 1 7 ''t'' sample_node) = Ret OK
   \<and> om_find (nd_raft_servers (snd (joinRaftGroup sample_api sample_app 1 7 ''t'' sample_node))) 7 \<noteq> None"
proof -
  let ?r = "joinRaftGroup sample_api sample_app 1 7 ''t'' sample_node"
  have r: "?r = (Ret OK, snd ?r)"
    by (simp add: prod_eq_iff joinRaftGroup_def join_check_def group_init_def group_state_mgr_def om_emplace_def Let_def sample_defs)
  show ?thesis
    using sample_node_inv r join_ok_serves_group [OF sample_node_inv r] by (simp add: prod_eq_iff)
qed

text \<open>
  C30: \<open>joinRaftGroup\<close> fails in exactly two ways, after the manager is gone with
  \<open>CANCELLED\<close> and for a group type that is not registered with \<open>SERVER_NOT_FOUND\<close>, and a
  join that fails leaves the node as it was.
\<close>

theorem join_error_no_effect:
  assumes "joinRaftGroup api app s g t n = (Ret c, n')" and "c \<noteq> OK"
  shows "n' = n \<and> (c = CANCELLED \<and> \<not> nd_manager_alive n
    \<or> c = SERVER_NOT_FOUND \<and> nd_manager_alive n \<and> om_find (nd_state_mgr_types n) (effective_type t n) = None)"
proof -
  from assms have jc: "join_check app s g t n = (Ret (Inl c), n')"
    by (auto simp: joinRaftGroup_def split: prod.splits run.splits sum.splits)
  moreover from jc assms(2) have "c = SERVER_NOT_FOUND \<longrightarrow> nd_manager_alive n"
    by (auto simp: join_check_def result_codes split: if_splits)
  ultimately show ?thesis using join_check_Inl [OF jc] assms(2) by auto
qed

theorem join_error_no_effect_witness:
  "snd (joinRaftGroup sample_api sample_app 1 7 ''nope'' sample_node) = sample_node"
proof -
  have "joinRaftGroup sample_api sample_app 1 7 ''nope'' sample_node = (Ret SERVER_NOT_FOUND, sample_node)"
    by (simp add: joinRaftGroup_def join_check_def group_init_def sample_defs)
  from join_error_no_effect [OF this] show ?thesis
    by (simp add: result_codes joinRaftGroup_def join_check_def group_init_def sample_defs)
qed

text \<open>
  C31: Joining a group that is served is idempotent, and joining a new one of a
  registered type succeeds: the RAFT server is built from the parameters of the
  effective type with a listener for this group, and the state manager, created only if
  the group had none, sees \<open>become_ready\<close>, \<open>get_state_machine\<close> and \<open>set_manager_impl\<close>
  in this order and, with the data channel on, the context of the new server.
\<close>

theorem join_new_group:
  assumes "node_inv n" and "nd_manager_alive n" and "om_find (nd_raft_servers n) g = None"
    and "om_find (nd_state_mgr_types n) (effective_type t n) = Some params"
    and "om_find (nd_state_managers n) g = None" and "app_alive app"
    and "app_create_state_mgr app s g = Some sm" and "nd_data_service_enabled n"
  shows "\<exists>n' ctx. joinRaftGroup api app s g t n = (Ret OK, n')
    \<and> joinRaftGroup api app s g t n' = (Ret OK, n')
    \<and> cx_params ctx = params \<and> cx_group ctx = g \<and> cx_group_type ctx = effective_type t n \<and> cx_listener ctx = Some g
    \<and> nd_servers n' = nd_servers n @ [api_new_server api ctx]
    \<and> om_find (nd_state_managers n') g = Some (Some (length (nd_smgrs n)))
    \<and> nd_smgrs n' = nd_smgrs n @ [sm\<lparr>sm_calls := sm_calls sm @ [Become_ready, Get_state_machine, Set_manager_impl],
         sm_manager_set := True, sm_repl_ctx := Some (length (nd_servers n), g, effective_type t n)\<rparr>]"
proof -
  let ?a = "length (nd_smgrs n)"
  define m where "m = (if nd_metrics_enabled n then Some (length (nd_metrics n)) else None)"
  let ?ctx = "\<lparr>cx_state_mgr = ?a, cx_params = params, cx_group = g, cx_group_type = effective_type t n,
    cx_metrics = m, cx_listener = None\<rparr>"
  obtain n' where n': "joinRaftGroup api app s g t n = (Ret OK, n')"
    and facts: "nd_servers n' = nd_servers n @ [api_new_server api (?ctx\<lparr>cx_listener := Some g\<rparr>)]"
      "om_find (nd_state_managers n') g = Some (Some ?a)"
      "nd_smgrs n' = nd_smgrs n @ [sm\<lparr>sm_calls := sm_calls sm @ [Become_ready, Get_state_machine, Set_manager_impl],
         sm_manager_set := True, sm_repl_ctx := Some (length (nd_servers n), g, effective_type t n)\<rparr>]"
      "om_find (nd_raft_servers n') g \<noteq> None" "nd_manager_alive n'"
    using assms group_state_mgr_new [OF assms(1,5-7)]
    by (auto simp: joinRaftGroup_def join_check_def join_commit_def group_init_def effective_type_def m_def
        ready_state_mgr_def make_repl_ctx_def cell_defs Let_def split: if_splits)
  moreover have "joinRaftGroup api app s g t n' = (Ret OK, n')"
    using facts(4,5) by (simp add: joinRaftGroup_def join_check_def)
  ultimately show ?thesis
    by (intro exI [of _ n'] exI [of _ "?ctx\<lparr>cx_listener := Some g\<rparr>"]) auto
qed

theorem join_new_group_witness:
  "\<exists>n'. joinRaftGroup sample_api sample_app 1 7 [] sample_node = (Ret OK, n')
    \<and> om_find (nd_state_managers n') 7 = Some (Some 0)"
  using join_new_group [of sample_node 7 "[]" 42 sample_app 1 mesg_state_mgr_new sample_api] sample_node_inv
  by (auto simp: sample_defs effective_type_def)

text \<open>
  C34: Two joins of one group that both pass the duplicate check before either inserts
  its server end with the group not served, although both return \<open>OK\<close>: the second
  \<open>try_emplace\<close> finds the first server, the second server is destroyed, and the
  destructor of its listener removes the first one from the map. The hypothesis is that
  destroying a RAFT server releases its listener.
\<close>

theorem concurrent_join_loses_group:
  assumes "node_inv n" and "api_dtor_releases api"
    and "join_check app s g t n = (Ret (Inr ctx1), n1)"
    and "join_check app s g t n1 = (Ret (Inr ctx2), n2)"
  shows "om_find (nd_raft_servers (join_commit api ctx1 n2)) g \<noteq> None
    \<and> om_find (nd_raft_servers (join_commit api ctx2 (join_commit api ctx1 n2))) g = None"
proof -
  note ck1 = join_check_Inr [OF assms(1,3)]
  then have "node_inv n1" by simp
  note ck2 = join_check_Inr [OF this assms(4)]
  have "om_find (nd_raft_servers (join_commit api ctx1 n2)) g \<noteq> None"
    using ck1 ck2 by (simp add: join_commit_new)
  with ck2 assms(2) show ?thesis
    using join_commit_dup [of "join_commit api ctx1 n2" ctx2 api] by auto
qed

theorem concurrent_join_loses_group_witness:
  "\<exists>ctx1 ctx2 n1 n2. join_check sample_app 1 7 ''t'' sample_node = (Ret (Inr ctx1), n1)
    \<and> join_check sample_app 1 7 ''t'' n1 = (Ret (Inr ctx2), n2)
    \<and> om_find (nd_raft_servers (join_commit sample_api ctx2 (join_commit sample_api ctx1 n2))) 7 = None"
proof -
  obtain ctx1 n1 where c1: "join_check sample_app 1 7 ''t'' sample_node = (Ret (Inr ctx1), n1)"
    by (simp add: join_check_def group_init_def group_state_mgr_def om_emplace_def Let_def sample_defs)
  moreover from c1 obtain ctx2 n2 where c2: "join_check sample_app 1 7 ''t'' n1 = (Ret (Inr ctx2), n2)"
    by (auto simp: join_check_def group_init_def group_state_mgr_def om_emplace_def Let_def sample_defs
        ready_state_mgr_def upd_smgr_def)
  ultimately show ?thesis
    using concurrent_join_loses_group [OF sample_node_inv _ c1 c2, of sample_api]
    by (auto simp: sample_api_def)
qed

end
