(* ===== verification/Proto_Service.thy ===== *)
theory Proto_Service
  imports Msg_Service "HOL-Library.Multiset"
begin

text \<open>
  The server end of the protocol: \<open>proto_service\<close> (\<open>src/proto/proto_service.cpp\<close>). An
  incoming message is checked and routed on the gRPC thread by \<open>raftStep\<close>; the slow
  message types go to the I/O pool, all others to the RAFT pool; a pool thread steps the
  group's RAFT server and sends the response. The two pools and their threads are a step
  relation.
\<close>

section \<open>State\<close>

text \<open>One call of the RPC \<open>RaftStep\<close>: its request, its response and its status.\<close>

record rpc =
  rpc_id :: nat
  rpc_request :: RaftGroupMsg
  rpc_response :: RaftGroupMsg
  rpc_status :: grpc_status

definition rpc_new :: "nat \<Rightarrow> RaftGroupMsg \<Rightarrow> rpc" where
  "rpc_new i req = \<lparr>rpc_id = i, rpc_request = req, rpc_response = RaftGroupMsg_default, rpc_status = Status_OK\<rparr>"

text \<open>The closure posted to a pool: the server and metrics it captured, and the call.\<close>

record task =
  tk_server :: nat
  tk_metrics :: "nat option"
  tk_rpc :: rpc

text \<open>
  A thread pool: the waiting closures, the ones a thread is running, the counter of
  active threads the guard maintains, the number of threads, and the service-level
  message count.
\<close>

record pool =
  pl_queue :: "task list"
  pl_running :: "task list"
  pl_active :: int
  pl_threads :: nat
  pl_msg_count :: nat

record service_pools =
  raft_pool :: pool
  io_pool :: pool
  sent :: "rpc list"

definition calculate_io_pool_size :: "u32 \<Rightarrow> nat" where
  "calculate_io_pool_size config_size = (if config_size > 0 then unat config_size else 4)"

definition pool_new :: "nat \<Rightarrow> pool" where
  "pool_new threads = \<lparr>pl_queue = [], pl_running = [], pl_active = 0, pl_threads = threads, pl_msg_count = 0\<rparr>"

text \<open>The constructor, from the two configured sizes.\<close>

definition proto_service_new :: "u16 \<Rightarrow> u32 \<Rightarrow> service_pools" where
  "proto_service_new raft_append_entries_thread_cnt io_thread_pool_size =
     \<lparr>raft_pool = pool_new (unat raft_append_entries_thread_cnt),
      io_pool = pool_new (calculate_io_pool_size io_thread_pool_size), sent = []\<rparr>"

definition is_slow_message :: "msg_types \<Rightarrow> u32 \<Rightarrow> bool" where
  "is_slow_message mt type \<longleftrightarrow> type = append_entries_request mt \<or> type = install_snapshot_request mt"

section \<open>Stepping a RAFT server\<close>

definition step_reply :: "('p, 'srv) raft_api \<Rightarrow> 'srv \<Rightarrow> resp_msg \<Rightarrow> RaftMessage" where
  "step_reply api srv resp =
     (let base = fromBaseRequest resp; rc = fromRCResponse resp in
      \<lparr>rm_base = base,
       rm_req_resp = Rc_response
         (if \<not> accepted resp then
            (case api_get_srv_config api srv (pb_dest base) of
               None \<Rightarrow> rc
             | Some srv_conf \<Rightarrow> rc\<lparr>pr_dest_addr := sc_endpoint srv_conf\<rparr>)
          else rc)\<rparr>)"

definition step ::
  "('p, 'srv) raft_api \<Rightarrow> msg_types \<Rightarrow> nat \<Rightarrow> RaftMessage \<Rightarrow> RaftMessage \<Rightarrow> nat option \<Rightarrow> ('p, 'srv, 'h) node
   \<Rightarrow> grpc_status run \<times> RaftMessage \<times> ('p, 'srv, 'h) node" where
  "step api mt server request reply metrics n =
     (case toRequest request of
        Ret rcreq \<Rightarrow>
          (let (resp, srv) = api_process_req api rcreq (nd_servers n ! server);
               n1 = upd_server server srv n in
           case resp of
             Ret None \<Rightarrow>
               (Ret \<lparr>error_code = S_CANCELLED, error_message = ''Server rejected request''\<rparr>, reply, n1)
           | Ret (Some resp) \<Rightarrow>
               (Ret Status_OK, step_reply api srv resp,
                (if m_type rcreq = append_entries_request mt
                 then upd_metrics metrics (\<lambda>m. m\<lparr>append_entries_observed := Suc (append_entries_observed m)\<rparr>) n1
                 else n1))
           | Runtime_error e \<Rightarrow> (Runtime_error e, reply, n1)
           | Crash \<Rightarrow> (Crash, reply, n1))
      | Runtime_error e \<Rightarrow> (Runtime_error e, reply, n)
      | Crash \<Rightarrow> (Crash, reply, n))"

text \<open>
  \<open>execute_step\<close>: count the message, step the server, turn an exception into
  \<open>NOT_FOUND\<close>, send the response. The result is the call as it is sent.
\<close>

definition execute_step ::
  "('p, 'srv) raft_api \<Rightarrow> msg_types \<Rightarrow> task \<Rightarrow> ('p, 'srv, 'h) node \<Rightarrow> rpc run \<times> ('p, 'srv, 'h) node" where
  "execute_step api mt t n =
     (let rpc = tk_rpc t; request = rpc_request rpc;
          n1 = upd_metrics (tk_metrics t) (\<lambda>m. m\<lparr>group_steps := Suc (group_steps m)\<rparr>) n;
          response = (rpc_response rpc)\<lparr>gm_group_id := gm_group_id request\<rparr> in
      case step api mt (tk_server t) (gm_msg request) (gm_msg response) (tk_metrics t) n1 of
        (Ret status, reply, n2) \<Rightarrow>
          (Ret (rpc\<lparr>rpc_response := response\<lparr>gm_msg := reply\<rparr>, rpc_status := status\<rparr>), n2)
      | (Runtime_error e, reply, n2) \<Rightarrow>
          (Ret (rpc\<lparr>rpc_response := response\<lparr>gm_msg := reply\<rparr>,
                    rpc_status := \<lparr>error_code = S_NOT_FOUND,
                                   error_message = ''Missing RAFT group '' @ gm_group_id request\<rparr>\<rparr>), n2)
      | (Crash, reply, n2) \<Rightarrow> (Crash, n2))"

section \<open>The incoming message\<close>

definition pool_post :: "task \<Rightarrow> pool \<Rightarrow> pool" where
  "pool_post t p = p\<lparr>pl_queue := pl_queue p @ [t], pl_msg_count := Suc (pl_msg_count p)\<rparr>"

definition route_to_pool :: "msg_types \<Rightarrow> u32 \<Rightarrow> task \<Rightarrow> service_pools \<Rightarrow> service_pools" where
  "route_to_pool mt msg_type t ps =
     (if is_slow_message mt msg_type
      then ps\<lparr>io_pool := pool_post t (io_pool ps)\<rparr>
      else ps\<lparr>raft_pool := pool_post t (raft_pool ps)\<rparr>)"

text \<open>
  \<open>raftStep\<close>. The result \<open>True\<close> means that the status is final and the response is to
  be sent at once; \<open>False\<close> that a pool owns the call.
\<close>

definition raftStep ::
  "uuid_io \<Rightarrow> msg_types \<Rightarrow> ('p, 'srv) raft_api \<Rightarrow> application \<Rightarrow> rpc \<Rightarrow> ('p, 'srv, 'h) node \<times> service_pools
   \<Rightarrow> bool run \<times> rpc \<times> ('p, 'srv, 'h) node \<times> service_pools" where
  "raftStep io mt api app rpc st =
     (let (n, ps) = st; request = rpc_request rpc; group_id = gm_group_id request;
          intended_addr = gm_intended_addr request; base = rm_base (gm_msg request) in
      case (string_generator io group_id, string_generator io intended_addr) of
        (Some gid, Some sid) \<Rightarrow>
          (if sid \<noteq> nd_service_address n then
             (Ret True,
              rpc\<lparr>rpc_status := \<lparr>error_code = S_INVALID_ARGUMENT,
                error_message = ''intended addr: ['' @ intended_addr @ ''], our addr: [''
                  @ to_string io (nd_service_address n) @ '']''\<rparr>\<rparr>, n, ps)
           else
             (let (joined, n1) =
                (if pb_type base = join_cluster_request mt
                 then joinRaftGroup api app (pb_dest base) gid (gm_group_type request) n
                 else (Ret OK, n)) in
              case joined of
                Ret _ \<Rightarrow>
                  (case om_find (nd_raft_servers n1) gid of
                     None \<Rightarrow>
                       (Ret True,
                        rpc\<lparr>rpc_response := (rpc_response rpc)\<lparr>gm_group_id := group_id\<rparr>,
                            rpc_status := \<lparr>error_code = S_NOT_FOUND,
                              error_message = ''Missing RAFT group '' @ group_id\<rparr>\<rparr>, n1, ps)
                   | Some w \<Rightarrow>
                       (Ret False, rpc, n1, route_to_pool mt (pb_type base)
                          \<lparr>tk_server = w_server w, tk_metrics = w_metrics w, tk_rpc = rpc\<rparr> ps))
              | Runtime_error e \<Rightarrow> (Runtime_error e, rpc, n1, ps)
              | Crash \<Rightarrow> (Crash, rpc, n1, ps)))
      | _ \<Rightarrow>
          (Ret True,
           rpc\<lparr>rpc_status := \<lparr>error_code = S_INVALID_ARGUMENT,
             error_message = ''Bad GroupID '' @ group_id\<rparr>\<rparr>, n, ps))"

section \<open>The pools\<close>

text \<open>
  A free thread takes the first closure: the guard counts it in. When the closure
  returns, the response has been sent and the guard counts it out.
\<close>

definition pool_begin :: "pool \<Rightarrow> pool option" where
  "pool_begin p =
     (case pl_queue p of
        [] \<Rightarrow> None
      | t # q \<Rightarrow>
          (if length (pl_running p) < pl_threads p
           then Some (p\<lparr>pl_queue := q, pl_running := pl_running p @ [t], pl_active := pl_active p + 1\<rparr>)
           else None))"

definition pool_finish :: "nat \<Rightarrow> pool \<Rightarrow> pool" where
  "pool_finish i p =
     p\<lparr>pl_running := take i (pl_running p) @ drop (Suc i) (pl_running p), pl_active := pl_active p - 1\<rparr>"

inductive pool_step ::
  "('p, 'srv) raft_api \<Rightarrow> msg_types \<Rightarrow> ('p, 'srv, 'h) node \<times> service_pools \<Rightarrow> ('p, 'srv, 'h) node \<times> service_pools \<Rightarrow> bool"
  for api mt where
  raft_begin: "pool_begin (raft_pool ps) = Some p \<Longrightarrow>
     pool_step api mt (n, ps) (n, ps\<lparr>raft_pool := p\<rparr>)"
| raft_finish: "i < length (pl_running (raft_pool ps)) \<Longrightarrow>
     execute_step api mt (pl_running (raft_pool ps) ! i) n = (Ret r, n') \<Longrightarrow>
     pool_step api mt (n, ps) (n', ps\<lparr>raft_pool := pool_finish i (raft_pool ps), sent := sent ps @ [r]\<rparr>)"
| io_begin: "pool_begin (io_pool ps) = Some p \<Longrightarrow>
     pool_step api mt (n, ps) (n, ps\<lparr>io_pool := p\<rparr>)"
| io_finish: "i < length (pl_running (io_pool ps)) \<Longrightarrow>
     execute_step api mt (pl_running (io_pool ps) ! i) n = (Ret r, n') \<Longrightarrow>
     pool_step api mt (n, ps) (n', ps\<lparr>io_pool := pool_finish i (io_pool ps), sent := sent ps @ [r]\<rparr>)"

text \<open>
  The service as a whole: calls arrive, each with its own number, and the pools run. A
  call for which \<open>raftStep\<close> returned \<open>True\<close> is sent by the caller at once. The first
  argument collects the numbers of the calls received.
\<close>

inductive service_run ::
  "uuid_io \<Rightarrow> msg_types \<Rightarrow> ('p, 'srv) raft_api \<Rightarrow> application \<Rightarrow> nat multiset
   \<Rightarrow> ('p, 'srv, 'h) node \<times> service_pools \<Rightarrow> bool"
  for io mt api app where
  start: "service_run io mt api app {#} (n, proto_service_new raft_threads io_threads)"
| receive_now: "service_run io mt api app rs (n, ps) \<Longrightarrow>
     raftStep io mt api app (rpc_new i req) (n, ps) = (Ret True, r, n', ps') \<Longrightarrow>
     service_run io mt api app (add_mset i rs) (n', ps'\<lparr>sent := sent ps' @ [r]\<rparr>)"
| receive_async: "service_run io mt api app rs (n, ps) \<Longrightarrow>
     raftStep io mt api app (rpc_new i req) (n, ps) = (Ret False, r, n', ps') \<Longrightarrow>
     service_run io mt api app (add_mset i rs) (n', ps')"
| run_pool: "service_run io mt api app rs st \<Longrightarrow> pool_step api mt st st' \<Longrightarrow>
     service_run io mt api app rs st'"

inductive_cases pool_stepE: "pool_step api mt (n, ps) st'"

section \<open>Facts\<close>

definition pool_ok :: "pool \<Rightarrow> bool" where
  "pool_ok p \<longleftrightarrow> pl_active p = int (length (pl_running p)) \<and> length (pl_running p) \<le> pl_threads p"

definition pools_ok :: "service_pools \<Rightarrow> bool" where
  "pools_ok ps \<longleftrightarrow> pool_ok (raft_pool ps) \<and> pool_ok (io_pool ps)"

definition pool_ids :: "pool \<Rightarrow> nat multiset" where
  "pool_ids p = mset (map (rpc_id \<circ> tk_rpc) (pl_queue p @ pl_running p))"

definition all_ids :: "service_pools \<Rightarrow> nat multiset" where
  "all_ids ps = pool_ids (raft_pool ps) + pool_ids (io_pool ps) + mset (map rpc_id (sent ps))"

lemma pool_ok_new [simp]: "pool_ok (pool_new k)"
  by (simp add: pool_ok_def pool_new_def)

lemma pool_ok_post [simp]: "pool_ok (pool_post t p) \<longleftrightarrow> pool_ok p"
  by (simp add: pool_ok_def pool_post_def)

lemma pool_ok_begin: "pool_begin p = Some p' \<Longrightarrow> pool_ok p \<Longrightarrow> pool_ok p'"
  by (auto simp: pool_begin_def pool_ok_def split: list.splits if_splits)

lemma pool_ok_finish: "i < length (pl_running p) \<Longrightarrow> pool_ok p \<Longrightarrow> pool_ok (pool_finish i p)"
  by (auto simp: pool_finish_def pool_ok_def)

lemma pool_ids_new [simp]: "pool_ids (pool_new k) = {#}"
  by (simp add: pool_ids_def pool_new_def)

lemma pool_ids_post [simp]: "pool_ids (pool_post t p) = add_mset (rpc_id (tk_rpc t)) (pool_ids p)"
  by (simp add: pool_ids_def pool_post_def)

lemma pool_ids_begin: "pool_begin p = Some p' \<Longrightarrow> pool_ids p' = pool_ids p"
  by (auto simp: pool_begin_def pool_ids_def split: list.splits if_splits)

lemma mset_take_drop:
  assumes "i < length xs"
  shows "mset xs = add_mset (xs ! i) (mset (take i xs @ drop (Suc i) xs))"
proof -
  have "mset xs = mset (take i xs @ xs ! i # drop (Suc i) xs)"
    using assms by (simp add: id_take_nth_drop [symmetric])
  then show ?thesis by simp
qed

lemma pool_ids_finish:
  assumes "i < length (pl_running p)"
  shows "pool_ids p = add_mset (rpc_id (tk_rpc (pl_running p ! i))) (pool_ids (pool_finish i p))"
proof -
  have "mset (map f (pl_running p)) = add_mset (f (pl_running p ! i)) (mset (map f (take i (pl_running p) @ drop (Suc i) (pl_running p))))" for f :: "task \<Rightarrow> nat"
    using mset_take_drop [of i "map f (pl_running p)"] assms by (simp add: take_map drop_map)
  then show ?thesis
    unfolding pool_ids_def pool_finish_def by (simp del: mset_map)
qed

lemma pool_begin_threads: "pool_begin p = Some p' \<Longrightarrow> pl_threads p' = pl_threads p"
  by (auto simp: pool_begin_def split: list.splits if_splits)

lemma execute_step_id:
  "execute_step api mt t n = (Ret r, n') \<Longrightarrow> rpc_id r = rpc_id (tk_rpc t) \<and> rpc_request r = rpc_request (tk_rpc t)"
  by (auto simp: execute_step_def Let_def split: prod.splits run.splits)

lemma raftStep_Ret_id:
  "raftStep io mt api app rpc (n, ps) = (Ret b, r, n', ps') \<Longrightarrow> rpc_id r = rpc_id rpc"
  by (auto simp: raftStep_def Let_def split: option.splits if_splits prod.splits run.splits)

lemma raftStep_True_pools:
  "raftStep io mt api app rpc (n, ps) = (Ret True, r, n', ps') \<Longrightarrow> ps' = ps"
  by (auto simp: raftStep_def Let_def split: option.splits if_splits prod.splits run.splits)

lemma raftStep_False:
  assumes "raftStep io mt api app rpc (n, ps) = (Ret False, r, n', ps')"
  shows "\<exists>gid w. string_generator io (gm_group_id (rpc_request rpc)) = Some gid
    \<and> om_find (nd_raft_servers n') gid = Some w \<and> r = rpc
    \<and> ps' = route_to_pool mt (pb_type (rm_base (gm_msg (rpc_request rpc))))
        \<lparr>tk_server = w_server w, tk_metrics = w_metrics w, tk_rpc = rpc\<rparr> ps"
  using assms
  by (auto simp: raftStep_def Let_def split: option.splits if_splits prod.splits run.splits)

lemma pools_ok_route [simp]: "pools_ok (route_to_pool mt ty t ps) \<longleftrightarrow> pools_ok ps"
  by (simp add: route_to_pool_def pools_ok_def)

lemma all_ids_route [simp]: "all_ids (route_to_pool mt ty t ps) = add_mset (rpc_id (tk_rpc t)) (all_ids ps)"
  by (simp add: route_to_pool_def all_ids_def)

lemma pool_step_inv:
  "pool_step api mt (n, ps) (n', ps') \<Longrightarrow> pools_ok ps \<Longrightarrow> pools_ok ps'"
  by (elim pool_stepE) (auto simp: pools_ok_def intro: pool_ok_begin pool_ok_finish)

lemma pool_step_ids:
  "pool_step api mt (n, ps) (n', ps') \<Longrightarrow> all_ids ps' = all_ids ps"
  by (elim pool_stepE)
    (auto simp: all_ids_def pool_ids_begin pool_ids_finish dest: execute_step_id)

lemma service_run_inv:
  assumes "service_run io mt api app rs st"
  shows "pools_ok (snd st) \<and> all_ids (snd st) = rs"
  using assms
proof (induction rule: service_run.induct)
  case (start n raft_threads io_threads)
  then show ?case by (simp add: pools_ok_def all_ids_def proto_service_new_def)
next
  case (receive_now rs n ps i req r n' ps')
  with raftStep_True_pools [OF receive_now.hyps(2)] raftStep_Ret_id [OF receive_now.hyps(2)]
  show ?case by (simp add: pools_ok_def all_ids_def rpc_new_def)
next
  case (receive_async rs n ps i req r n' ps')
  with raftStep_False [OF receive_async.hyps(2)] show ?case
    by (auto simp: rpc_new_def)
next
  case (run_pool rs st st')
  obtain n ps n' ps' where st: "st = (n, ps)" "st' = (n', ps')" by (cases st, cases st')
  with run_pool show ?case
    using pool_step_inv pool_step_ids by (metis snd_conv)
qed

text \<open>A closure that cannot crash: its message holds a request.\<close>

definition task_has_request :: "task \<Rightarrow> bool" where
  "task_has_request t \<longleftrightarrow> (\<exists>q. rm_req_resp (gm_msg (rpc_request (tk_rpc t))) = Rc_request q)"

lemma execute_step_returns:
  assumes "task_has_request t" and "\<And>r srv. fst (api_process_req api r srv) \<noteq> Crash"
  shows "\<exists>r n'. execute_step api mt t n = (Ret r, n')"
proof -
  obtain rq where "toRequest (gm_msg (rpc_request (tk_rpc t))) = Ret rq"
    using assms(1) toRequest_Ret_iff unfolding task_has_request_def by blast
  with assms(2) show ?thesis
    by (auto simp: execute_step_def step_def Let_def split: prod.splits run.splits option.splits)
      (metis fst_conv)
qed

section \<open>Progress of the RAFT pool\<close>

lemma raft_begin_first:
  assumes "pl_queue (raft_pool ps) = t # q" and "pl_running (raft_pool ps) = []" and "0 < pl_threads (raft_pool ps)"
  shows "pool_step api mt (n, ps) (n, ps\<lparr>raft_pool := (raft_pool ps)\<lparr>pl_queue := q, pl_running := [t],
    pl_active := pl_active (raft_pool ps) + 1\<rparr>\<rparr>)"
  using assms by (intro pool_step.raft_begin) (simp add: pool_begin_def)

lemma raft_finish_first:
  assumes "pl_running (raft_pool ps) = t # rest" and "execute_step api mt t n = (Ret r, n')"
  shows "pool_step api mt (n, ps) (n', ps\<lparr>raft_pool := (raft_pool ps)\<lparr>pl_running := rest,
    pl_active := pl_active (raft_pool ps) - 1\<rparr>, sent := sent ps @ [r]\<rparr>)"
  using assms pool_step.raft_finish [of 0 ps api mt n r n'] by (simp add: pool_finish_def)

lemma raft_pool_drains:
  assumes "\<And>r srv. fst (api_process_req api r srv) \<noteq> Crash"
  shows "0 < pl_threads (raft_pool ps) \<Longrightarrow>
    \<forall>t \<in> set (pl_running (raft_pool ps) @ pl_queue (raft_pool ps)). task_has_request t \<Longrightarrow>
    \<exists>n' ps'. rtranclp (pool_step api mt) (n, ps) (n', ps') \<and> io_pool ps' = io_pool ps
      \<and> pl_queue (raft_pool ps') = [] \<and> pl_running (raft_pool ps') = []
      \<and> map rpc_id (sent ps') = map rpc_id (sent ps)
          @ map (rpc_id \<circ> tk_rpc) (pl_running (raft_pool ps) @ pl_queue (raft_pool ps))"
proof (induction "2 * length (pl_queue (raft_pool ps)) + length (pl_running (raft_pool ps))"
    arbitrary: n ps rule: less_induct)
  case less
  show ?case
  proof (cases "pl_running (raft_pool ps)")
    case (Cons t rest)
    with less.prems(2) have "task_has_request t" by simp
    then obtain r n1 where ex: "execute_step api mt t n = (Ret r, n1)"
      using execute_step_returns [OF _ assms] by blast
    let ?ps = "ps\<lparr>raft_pool := (raft_pool ps)\<lparr>pl_running := rest,
      pl_active := pl_active (raft_pool ps) - 1\<rparr>, sent := sent ps @ [r]\<rparr>"
    have st: "pool_step api mt (n, ps) (n1, ?ps)" using raft_finish_first [OF Cons ex] .
    have "\<exists>n' ps'. rtranclp (pool_step api mt) (n1, ?ps) (n', ps') \<and> io_pool ps' = io_pool ?ps
      \<and> pl_queue (raft_pool ps') = [] \<and> pl_running (raft_pool ps') = []
      \<and> map rpc_id (sent ps') = map rpc_id (sent ?ps)
          @ map (rpc_id \<circ> tk_rpc) (pl_running (raft_pool ?ps) @ pl_queue (raft_pool ?ps))"
      using less.prems Cons by (intro less.hyps) auto
    with st Cons execute_step_id [OF ex] show ?thesis
      by (auto intro: converse_rtranclp_into_rtranclp)
  next
    case Nil
    show ?thesis
    proof (cases "pl_queue (raft_pool ps)")
      case Nil
      with \<open>pl_running (raft_pool ps) = []\<close> show ?thesis by auto
    next
      case (Cons t q)
      let ?ps = "ps\<lparr>raft_pool := (raft_pool ps)\<lparr>pl_queue := q, pl_running := [t],
        pl_active := pl_active (raft_pool ps) + 1\<rparr>\<rparr>"
      have st: "pool_step api mt (n, ps) (n, ?ps)"
        using raft_begin_first [OF Cons Nil less.prems(1)] .
      have "\<exists>n' ps'. rtranclp (pool_step api mt) (n, ?ps) (n', ps') \<and> io_pool ps' = io_pool ?ps
        \<and> pl_queue (raft_pool ps') = [] \<and> pl_running (raft_pool ps') = []
        \<and> map rpc_id (sent ps') = map rpc_id (sent ?ps)
            @ map (rpc_id \<circ> tk_rpc) (pl_running (raft_pool ?ps) @ pl_queue (raft_pool ?ps))"
        using less.prems Cons Nil by (intro less.hyps) auto
      with st Cons Nil show ?thesis by (auto intro: converse_rtranclp_into_rtranclp)
    qed
  qed
qed

section \<open>Joining a new group\<close>

lemma join_check_new:
  assumes "node_inv n" and "nd_manager_alive n" and "om_find (nd_raft_servers n) g = None"
    and "om_find (nd_state_mgr_types n) (effective_type t n) = Some params"
    and "app_alive app" and "app_create_state_mgr app s g = Some sm"
  shows "\<exists>ctx n1. join_check app s g t n = (Ret (Inr ctx), n1)"
proof -
  have "\<exists>a n1. group_state_mgr app s g n = (Ret a, n1)"
    using group_state_mgr_new [OF assms(1) _ assms(5,6)] group_state_mgr_known [OF assms(1)] node_inv_smgr [OF assms(1)]
    by (cases "om_find (nd_state_managers n) g") blast+
  then show ?thesis
    using assms(2-4) by (auto simp: join_check_def group_init_def effective_type_def Let_def split: if_splits)
qed

section \<open>Properties\<close>

text \<open>
  C29: A message whose group id or intended address is not a UUID, or that is intended
  for another service, is answered at once with \<open>INVALID_ARGUMENT\<close>; no group is joined,
  no server stepped, nothing queued.
\<close>

theorem raftStep_rejects:
  assumes "string_generator io (gm_group_id (rpc_request rpc)) = None
    \<or> string_generator io (gm_intended_addr (rpc_request rpc)) \<noteq> Some (nd_service_address n)"
  shows "\<exists>msg. raftStep io mt api app rpc (n, ps) =
    (Ret True, rpc\<lparr>rpc_status := \<lparr>error_code = S_INVALID_ARGUMENT, error_message = msg\<rparr>\<rparr>, n, ps)"
  using assms by (auto simp: raftStep_def Let_def split: option.splits)

theorem raftStep_rejects_witness:
  "\<exists>msg. raftStep bits_uuid_io sample_mt sample_api sample_app (rpc_new 0 RaftGroupMsg_default)
      (sample_node, proto_service_new 2 0) =
    (Ret True, (rpc_new 0 RaftGroupMsg_default)\<lparr>rpc_status := \<lparr>error_code = S_INVALID_ARGUMENT, error_message = msg\<rparr>\<rparr>,
     sample_node, proto_service_new 2 0)"
  by (rule raftStep_rejects)
    (simp add: rpc_new_def RaftGroupMsg_default_def uuid_parse_empty [OF bits_uuid_io_ok])

text \<open>
  A message for a group this node does not serve, and that does not ask to join it,
  is answered at once with \<open>NOT_FOUND\<close> and the group's id; node and pools are unchanged.
\<close>

lemma raftStep_unknown_group:
  assumes "string_generator io (gm_group_id (rpc_request rpc)) = Some gid"
    and "string_generator io (gm_intended_addr (rpc_request rpc)) = Some (nd_service_address n)"
    and "pb_type (rm_base (gm_msg (rpc_request rpc))) \<noteq> join_cluster_request mt"
    and "om_find (nd_raft_servers n) gid = None"
  shows "raftStep io mt api app rpc (n, ps) =
    (Ret True, rpc\<lparr>rpc_response := (rpc_response rpc)\<lparr>gm_group_id := gm_group_id (rpc_request rpc)\<rparr>,
       rpc_status := \<lparr>error_code = S_NOT_FOUND,
         error_message = ''Missing RAFT group '' @ gm_group_id (rpc_request rpc)\<rparr>\<rparr>, n, ps)"
  using assms by (simp add: raftStep_def Let_def)

text \<open>A call with the given group, address and message type, used by the witnesses.\<close>

definition sample_rpc :: "u32 \<Rightarrow> rpc" where
  "sample_rpc ty = rpc_new 4 \<lparr>gm_group_id = to_string bits_uuid_io 7,
     gm_msg = \<lparr>rm_base = \<lparr>pb_term = 1, pb_type = ty, pb_src = 2, pb_dest = 1\<rparr>,
       rm_req_resp = Rc_request \<lparr>pq_last_log_term = 0, pq_last_log_index = 0, pq_commit_index = 0, pq_log_entries = []\<rparr>\<rparr>,
     gm_intended_addr = to_string bits_uuid_io 5, gm_group_type = ''t''\<rparr>"

lemma sample_rpc_strings:
  "string_generator bits_uuid_io (gm_group_id (rpc_request (sample_rpc ty))) = Some 7"
  "string_generator bits_uuid_io (gm_intended_addr (rpc_request (sample_rpc ty))) = Some 5"
  "pb_type (rm_base (gm_msg (rpc_request (sample_rpc ty)))) = ty"
  "gm_group_type (rpc_request (sample_rpc ty)) = ''t''"
  by (simp_all add: sample_rpc_def rpc_new_def uuid_parse_print [OF bits_uuid_io_ok])

lemma raftStep_unknown_group_witness:
  "fst (raftStep bits_uuid_io sample_mt sample_api sample_app (sample_rpc 3) (sample_node, proto_service_new 2 0)) = Ret True"
  by (subst raftStep_unknown_group [where gid = 7])
    (simp_all add: sample_rpc_strings, simp_all add: sample_mt_def sample_node_def)


definition sample_served :: "(nat, sample_srv, nat) node" where
  "sample_served = snd (joinRaftGroup sample_api sample_app 1 7 ''t'' sample_node)"

lemma sample_served_facts:
  "node_inv sample_served" "nd_service_address sample_served = 5" "nd_servers sample_served = [[]]"
  "om_find (nd_raft_servers sample_served) 7 = Some \<lparr>w_metrics = Some 0, w_server = 0\<rparr>"
  by (simp_all add: sample_served_def joinRaftGroup_def join_check_def group_init_def group_state_mgr_def join_commit_def
      om_emplace_def ready_state_mgr_def make_repl_ctx_def cell_defs Let_def sample_defs node_inv_defs om_inv_def)


text \<open>
  A \<open>join_cluster\<close> request for a new group of a registered type makes the node serve
  the group before the request is handled, and queues the request, in the RAFT pool, for
  the server just created.
\<close>

lemma raftStep_join:
  assumes "string_generator io (gm_group_id (rpc_request rpc)) = Some gid"
    and "string_generator io (gm_intended_addr (rpc_request rpc)) = Some (nd_service_address n)"
    and "pb_type (rm_base (gm_msg (rpc_request rpc))) = join_cluster_request mt" and "msg_types_ok mt"
    and "node_inv n" and "nd_manager_alive n" and "om_find (nd_raft_servers n) gid = None"
    and "om_find (nd_state_mgr_types n) (effective_type (gm_group_type (rpc_request rpc)) n) = Some params"
    and "app_alive app" and "app_create_state_mgr app (pb_dest (rm_base (gm_msg (rpc_request rpc)))) gid = Some sm"
  shows "\<exists>n' ps' w. raftStep io mt api app rpc (n, ps) = (Ret False, rpc, n', ps') \<and> node_inv n'
    \<and> om_find (nd_raft_servers n') gid = Some w \<and> w_server w = length (nd_servers n)
    \<and> pl_queue (raft_pool ps') = pl_queue (raft_pool ps) @
        [\<lparr>tk_server = length (nd_servers n), tk_metrics = w_metrics w, tk_rpc = rpc\<rparr>]
    \<and> io_pool ps' = io_pool ps"
proof -
  let ?d = "pb_dest (rm_base (gm_msg (rpc_request rpc)))" and ?t = "gm_group_type (rpc_request rpc)"
  obtain ctx n1 where jc: "join_check app ?d gid ?t n = (Ret (Inr ctx), n1)"
    using join_check_new [OF assms(5-10)] by blast
  note ck = join_check_Inr [OF assms(5) jc]
  let ?n = "join_commit api ctx n1"
  have join: "joinRaftGroup api app ?d gid ?t n = (Ret OK, ?n)"
    using jc by (simp add: joinRaftGroup_def)
  have inv: "node_inv ?n" using ck by (intro join_commit_inv) auto
  have w: "om_find (nd_raft_servers ?n) gid = Some \<lparr>w_metrics = cx_metrics ctx, w_server = length (nd_servers n)\<rparr>"
    using ck by (simp add: join_commit_new)
  have "\<not> is_slow_message mt (join_cluster_request mt)"
    using assms(4) by (auto simp: is_slow_message_def msg_types_ok_def)
  with assms(1-3) join w inv show ?thesis
    by (simp add: raftStep_def Let_def route_to_pool_def pool_post_def)
qed

lemma raftStep_join_witness:
  "fst (raftStep bits_uuid_io sample_mt sample_api sample_app (sample_rpc 12) (sample_node, proto_service_new 2 0)) = Ret False"
  using raftStep_join [of bits_uuid_io "sample_rpc 12" 7 sample_node sample_mt 42 sample_app mesg_state_mgr_new
      sample_api "proto_service_new 2 0"] sample_node_inv sample_mt_ok
  by (auto simp: sample_rpc_strings effective_type_def sample_fields)

text \<open>
  Every call received is, at any time and under any scheduling of the pools, in
  exactly one place: waiting in one queue, run by one thread, or answered once. No call
  is lost and none is answered twice.
\<close>

lemma calls_answered_once:
  assumes "service_run io mt api app rs (n, ps)"
  shows "rs = mset (map (rpc_id \<circ> tk_rpc)
      (pl_queue (raft_pool ps) @ pl_running (raft_pool ps) @ pl_queue (io_pool ps) @ pl_running (io_pool ps)))
    + mset (map rpc_id (sent ps))"
  using service_run_inv [OF assms] by (simp add: all_ids_def pool_ids_def ac_simps)

lemma sample_run:
  "\<exists>(n :: (nat, sample_srv, nat) node) ps. service_run bits_uuid_io sample_mt sample_api sample_app {#4#} (n, ps)"
proof -
  obtain ps' where "raftStep bits_uuid_io sample_mt sample_api sample_app (sample_rpc 3)
      (sample_served, proto_service_new 2 0) = (Ret False, sample_rpc 3, sample_served, ps')"
    using raftStep_False
    by (simp add: raftStep_def Let_def sample_rpc_strings sample_served_facts joinRaftGroup_def join_check_def sample_fields)
  then show ?thesis
    using service_run.receive_async [OF service_run.start] unfolding sample_rpc_def by fastforce
qed

lemma calls_answered_once_witness:
  "\<exists>(n :: (nat, sample_srv, nat) node) ps. service_run bits_uuid_io sample_mt sample_api sample_app {#4#} (n, ps)
    \<and> size (mset (map (rpc_id \<circ> tk_rpc)
      (pl_queue (raft_pool ps) @ pl_running (raft_pool ps) @ pl_queue (io_pool ps) @ pl_running (io_pool ps)))
      + mset (map rpc_id (sent ps))) = 1"
proof -
  obtain n :: "(nat, sample_srv, nat) node" and ps
    where run: "service_run bits_uuid_io sample_mt sample_api sample_app {#4#} (n, ps)"
    using sample_run by blast
  show ?thesis
    by (intro exI conjI, rule run) (simp only: calls_answered_once [OF run, symmetric] size_single)
qed


text \<open>The I/O pool has all its threads busy and work waiting; the RAFT pool holds one vote.\<close>

definition sample_blocked :: service_pools where
  "sample_blocked =
     (let slow = \<lparr>tk_server = 0, tk_metrics = None, tk_rpc = sample_rpc 3\<rparr>;
          fast = \<lparr>tk_server = 0, tk_metrics = None, tk_rpc = sample_rpc 1\<rparr> in
      \<lparr>raft_pool = \<lparr>pl_queue = [fast], pl_running = [], pl_active = 0, pl_threads = 2, pl_msg_count = 1\<rparr>,
       io_pool = \<lparr>pl_queue = [slow, slow], pl_running = [slow], pl_active = 1, pl_threads = 1, pl_msg_count = 3\<rparr>,
       sent = []\<rparr>)"


end
