(* ===== verification/Manager.thy ===== *)
theory Manager
  imports Proto_Service
begin

text \<open>
  \<open>ManagerImpl\<close> (\<open>src/lib/manager_impl.cpp\<close>): the public interface of the library. It
  starts and restarts the gRPC server, registers group types, creates, joins and leaves
  groups, forwards member operations to the service and follows the leadership of each
  group through the events of the RAFT servers.
\<close>

section \<open>Construction and start\<close>

text \<open>\<open>to_server_id\<close>: the 64-bit hash of the UUID, shifted, as an \<open>int32_t\<close>.\<close>

definition to_server_id :: "(uuid \<Rightarrow> u64) \<Rightarrow> peer_id \<Rightarrow> i32" where
  "to_server_id uuid_hasher server_addr = ucast (drop_bit 33 (uuid_hasher server_addr))"

text \<open>
  The constructor, from the UUID and default group type of the start parameters. The
  fields of \<open>msg_service\<close> are set when \<open>start\<close> creates it.
\<close>

definition manager_new :: "(uuid \<Rightarrow> u64) \<Rightarrow> peer_id \<Rightarrow> group_type \<Rightarrow> bool \<Rightarrow> ('p, 'srv, 'h) node" where
  "manager_new uuid_hasher server_uuid default_group_type metrics_enabled =
     \<lparr>nd_srv_id = to_server_id uuid_hasher server_uuid, nd_state_mgr_types = [], nd_state_managers = [],
      nd_is_leader = [], nd_config_notified = 0, nd_started = False, nd_manager_alive = True,
      nd_metrics_enabled = metrics_enabled, nd_data_service_enabled = False,
      nd_default_group_type = default_group_type, nd_service_address = server_uuid, nd_raft_servers = [],
      nd_data_service = data_service_new, nd_grpc_server = None, nd_servers = [], nd_smgrs = [], nd_metrics = []\<rparr>"

text \<open>\<open>proto_service::associate\<close> and \<open>proto_service::bind\<close>: a refusal aborts the process.\<close>

definition proto_associate ::
  "grpc_env \<Rightarrow> 'h grpc_srv \<Rightarrow> ('p, 'srv, 'h) node \<Rightarrow> 'h grpc_srv run \<times> ('p, 'srv, 'h) node" where
  "proto_associate env srv n =
     (let (r, n1) = svc_associate env srv n in
      (run_bind r (\<lambda>srv1. if register_async_service_ok env then Ret (srv1\<lparr>gs_async_service := True\<rparr>) else Crash), n1))"

definition proto_bind ::
  "grpc_env \<Rightarrow> 'h grpc_srv \<Rightarrow> ('p, 'srv, 'h) node \<Rightarrow> unit run \<times> 'h grpc_srv" where
  "proto_bind env srv n =
     (case svc_bind env srv n of
        (Ret _, srv1) \<Rightarrow>
          (if register_rpc_ok env then (Ret (), srv1\<lparr>gs_raft_step := True\<rparr>) else (Crash, srv1))
      | r \<Rightarrow> r)"

text \<open>
  \<open>restart_server\<close>. What \<open>sisl::GrpcServer::make\<close> does is the argument \<open>made\<close>: throw,
  return null (\<open>False\<close>) or a server.
\<close>

definition restart_server ::
  "grpc_env \<Rightarrow> bool run \<Rightarrow> ('p, 'srv, 'h) node \<Rightarrow> unit run \<times> ('p, 'srv, 'h) node" where
  "restart_server env made n =
     (if \<not> nd_started n then (Crash, n)
      else case made of
        Runtime_error _ \<Rightarrow> (Ret (), n)
      | Crash \<Rightarrow> (Crash, n)
      | Ret False \<Rightarrow> (Ret (), n)
      | Ret True \<Rightarrow>
          (case proto_associate env grpc_srv_new (n\<lparr>nd_grpc_server := Some grpc_srv_new\<rparr>) of
             (Ret srv, n1) \<Rightarrow>
               (let (r, srv') = proto_bind env (srv\<lparr>gs_running := True\<rparr>) n1 in
                (r, n1\<lparr>nd_grpc_server := Some srv'\<rparr>))
           | (Runtime_error e, n1) \<Rightarrow> (Runtime_error e, n1)
           | (Crash, n1) \<Rightarrow> (Crash, n1)))"

text \<open>
  \<open>msg_service::create\<close> with the constructor of \<open>msg_service\<close>: no group, a new data service.
  The address and the default type are those the node was made with.
\<close>

definition msg_service_new :: "bool \<Rightarrow> ('p, 'srv, 'h) node \<Rightarrow> ('p, 'srv, 'h) node" where
  "msg_service_new enable_data_service n =
     n\<lparr>nd_started := True, nd_data_service_enabled := enable_data_service, nd_raft_servers := [],
       nd_data_service := data_service_new\<rparr>"

definition start ::
  "grpc_env \<Rightarrow> bool run \<Rightarrow> bool \<Rightarrow> ('p, 'srv, 'h) node \<Rightarrow> unit run \<times> ('p, 'srv, 'h) node" where
  "start env made and_data_svc n =
     restart_server env made (if nd_started n then n else msg_service_new and_data_svc n)"

definition server_id :: "('p, 'srv, 'h) node \<Rightarrow> i32" where
  "server_id n = nd_srv_id n"

definition init_messaging ::
  "(uuid \<Rightarrow> u64) \<Rightarrow> grpc_env \<Rightarrow> bool run \<Rightarrow> application \<Rightarrow> peer_id \<Rightarrow> group_type \<Rightarrow> bool \<Rightarrow> bool
   \<Rightarrow> unit run \<times> ('p, 'srv, 'h) node" where
  "init_messaging uuid_hasher env made app server_uuid default_group_type metrics_enabled with_data_svc =
     (let n = manager_new uuid_hasher server_uuid default_group_type metrics_enabled in
      if \<not> app_alive app then (Crash, n) else start env made with_data_svc n)"

text \<open>
  The destructor: stop the groups, then the gRPC server. By then no weak pointer to the
  manager can be locked any more.
\<close>

definition manager_dtor :: "('p, 'srv) raft_api \<Rightarrow> ('p, 'srv, 'h) node \<Rightarrow> unit run \<times> ('p, 'srv, 'h) node" where
  "manager_dtor api n =
     (let n0 = n\<lparr>nd_manager_alive := False\<rparr> in
      if nd_started n then
        (let n1 = svc_shutdown api n0 in
         case nd_grpc_server n1 of
           None \<Rightarrow> (Crash, n1)
         | Some srv \<Rightarrow> (Ret (), n1\<lparr>nd_grpc_server := Some (srv\<lparr>gs_running := False\<rparr>)\<rparr>))
      else (Ret (), n0))"

section \<open>Group types and events\<close>

definition register_mgr_type :: "group_type \<Rightarrow> 'p \<Rightarrow> ('p, 'srv, 'h) node \<Rightarrow> ('p, 'srv, 'h) node" where
  "register_mgr_type gtype params n =
     n\<lparr>nd_state_mgr_types := fst (om_emplace gtype params (nd_state_mgr_types n))\<rparr>"

datatype cb_type = RemovedFromCluster | JoinedCluster | NewConfig | BecomeLeader | BecomeFollower
  | SaveSnapshot | FollowerLost | Other_event

record cb_param =
  my_id :: i32
  leader_id :: i32

datatype cb_return = Cb_Ok | Cb_ReturnNull

definition exit_group :: "group_id \<Rightarrow> ('p, 'srv, 'h) node \<Rightarrow> ('p, 'srv, 'h) node" where
  "exit_group gid n =
     (case om_find (nd_state_managers n) gid of
        Some (Some a) \<Rightarrow> upd_smgr a (sm_call Leave) n
      | _ \<Rightarrow> n)"

definition set_leader :: "group_id \<Rightarrow> bool \<Rightarrow> ('p, 'srv, 'h) node \<Rightarrow> ('p, 'srv, 'h) node" where
  "set_leader gid b n = n\<lparr>nd_is_leader := om_assign gid b (nd_is_leader n)\<rparr>"

definition notify_all :: "('p, 'srv, 'h) node \<Rightarrow> ('p, 'srv, 'h) node" where
  "notify_all n = n\<lparr>nd_config_notified := Suc (nd_config_notified n)\<rparr>"

definition generic_raft_event_handler ::
  "group_id \<Rightarrow> cb_type \<Rightarrow> cb_param \<Rightarrow> ('p, 'srv, 'h) node \<Rightarrow> ('p, 'srv, 'h) node" where
  "generic_raft_event_handler gid type param n =
     (case type of
        RemovedFromCluster \<Rightarrow> exit_group gid n
      | JoinedCluster \<Rightarrow> set_leader gid (leader_id param = my_id param) n
      | NewConfig \<Rightarrow> notify_all n
      | BecomeLeader \<Rightarrow> notify_all (set_leader gid True n)
      | BecomeFollower \<Rightarrow> set_leader gid False n
      | SaveSnapshot \<Rightarrow> n
      | FollowerLost \<Rightarrow> n
      | Other_event \<Rightarrow> n)"

text \<open>
  \<open>mesg_state_mgr::internal_raft_event_handler\<close>; the state manager's own
  \<open>handle_raft_event\<close> is an argument.
\<close>

definition internal_raft_event_handler ::
  "(cb_type \<Rightarrow> cb_param \<Rightarrow> cb_return) \<Rightarrow> nat \<Rightarrow> group_id \<Rightarrow> cb_type \<Rightarrow> cb_param \<Rightarrow> ('p, 'srv, 'h) node
   \<Rightarrow> cb_return \<times> ('p, 'srv, 'h) node" where
  "internal_raft_event_handler handle_raft_event smgr gid type param n =
     (if sm_manager_set (nd_smgrs n ! smgr) \<and> nd_manager_alive n
      then (handle_raft_event type param, generic_raft_event_handler gid type param n)
      else (Cb_ReturnNull, n))"

text \<open>The callback \<open>group_init\<close> installs: it holds the state manager weakly.\<close>

definition raft_callback ::
  "(cb_type \<Rightarrow> cb_param \<Rightarrow> cb_return) \<Rightarrow> nat option \<Rightarrow> group_id \<Rightarrow> cb_type \<Rightarrow> cb_param \<Rightarrow> ('p, 'srv, 'h) node
   \<Rightarrow> cb_return \<times> ('p, 'srv, 'h) node" where
  "raft_callback handle_raft_event locked gid type param n =
     (case locked of
        Some smgr \<Rightarrow> internal_raft_event_handler handle_raft_event smgr gid type param n
      | None \<Rightarrow> (Cb_Ok, n))"

section \<open>Member operations\<close>

text \<open>
  \<open>_config_change.wait_for(lock, timeout, pred)\<close>: \<open>seen\<close> are the states of the node in
  which the predicate is evaluated, at the start, at the wake-ups and at the time-out.
\<close>

fun wait_for :: "('n \<Rightarrow> bool run) \<Rightarrow> 'n list \<Rightarrow> bool run" where
  "wait_for pred [] = Ret False"
| "wait_for pred (n # seen) = run_bind (pred n) (\<lambda>b. if b then Ret True else wait_for pred seen)"

definition has_member ::
  "('p, 'srv) raft_api \<Rightarrow> group_id \<Rightarrow> string \<Rightarrow> ('p, 'srv, 'h) node \<Rightarrow> bool run" where
  "has_member api gid n_id n =
     run_bind (svc_get_srv_config_all api gid [] n) (\<lambda>srv_list. Ret (\<exists>cfg \<in> set srv_list. n_id = sc_endpoint cfg))"

definition add_member_cfg ::
  "('p, 'srv) raft_api \<Rightarrow> group_id \<Rightarrow> srv_config \<Rightarrow> ('p, 'srv, 'h) node list \<Rightarrow> ('p, 'srv, 'h) node
   \<Rightarrow> null_result run \<times> ('p, 'srv, 'h) node" where
  "add_member_cfg api gid cfg seen n =
     (if \<not> nd_started n then (Crash, n)
      else case svc_add_member api gid cfg n of
        (Ret (Inr _), n1) \<Rightarrow>
          (run_bind (wait_for (has_member api gid (sc_endpoint cfg)) seen)
             (\<lambda>b. Ret (if b then Inr () else Inl CANCELLED)), n1)
      | r \<Rightarrow> r)"

text \<open>The overload that takes a peer; \<open>new_cfg\<close> is the constructor of \<open>srv_config\<close>.\<close>

definition add_member ::
  "uuid_io \<Rightarrow> (uuid \<Rightarrow> u64) \<Rightarrow> (i32 \<Rightarrow> string \<Rightarrow> srv_config) \<Rightarrow> ('p, 'srv) raft_api \<Rightarrow> group_id \<Rightarrow> peer_id
   \<Rightarrow> ('p, 'srv, 'h) node list \<Rightarrow> ('p, 'srv, 'h) node \<Rightarrow> null_result run \<times> ('p, 'srv, 'h) node" where
  "add_member io uuid_hasher new_cfg api gid new_id seen n =
     add_member_cfg api gid (new_cfg (to_server_id uuid_hasher new_id) (to_string io new_id)) seen n"

definition rem_member ::
  "(uuid \<Rightarrow> u64) \<Rightarrow> ('p, 'srv) raft_api \<Rightarrow> group_id \<Rightarrow> peer_id \<Rightarrow> ('p, 'srv, 'h) node
   \<Rightarrow> null_result run \<times> ('p, 'srv, 'h) node" where
  "rem_member uuid_hasher api gid old_id n =
     (if \<not> nd_started n then (Crash, n) else svc_rem_member api gid (to_server_id uuid_hasher old_id) n)"

definition append_entries ::
  "('p, 'srv) raft_api \<Rightarrow> group_id \<Rightarrow> buffer list \<Rightarrow> ('p, 'srv, 'h) node \<Rightarrow> null_result run \<times> ('p, 'srv, 'h) node" where
  "append_entries api gid buf n =
     (if \<not> nd_started n then (Crash, n) else svc_append_entries api gid buf n)"

text \<open>\<open>_is_leader[group_id]\<close>: reading inserts \<open>false\<close> for a group that is not there.\<close>

definition touch_leader :: "group_id \<Rightarrow> ('p, 'srv, 'h) node \<Rightarrow> ('p, 'srv, 'h) node" where
  "touch_leader gid n = n\<lparr>nd_is_leader := fst (om_emplace gid False (nd_is_leader n))\<rparr>"

definition is_leader :: "group_id \<Rightarrow> ('p, 'srv, 'h) node \<Rightarrow> bool" where
  "is_leader gid n = (om_find (nd_is_leader n) gid = Some True)"

definition become_leader ::
  "('p, 'srv) raft_api \<Rightarrow> group_id \<Rightarrow> ('p, 'srv, 'h) node list \<Rightarrow> ('p, 'srv, 'h) node
   \<Rightarrow> null_result run \<times> ('p, 'srv, 'h) node" where
  "become_leader api gid seen n =
     (let n1 = touch_leader gid n in
      if is_leader gid n1 then (Ret (Inr ()), n1)
      else if \<not> nd_started n then (Crash, n1)
      else case svc_become_leader api gid n1 of
        (Ret True, n2) \<Rightarrow>
          (run_bind (wait_for (\<lambda>n. Ret (is_leader gid n)) seen)
             (\<lambda>b. Ret (if b then Inr () else Inl TIMEOUT)), n2)
      | (Ret False, n2) \<Rightarrow> (Ret (Inl CANCELLED), n2)
      | (Runtime_error e, n2) \<Rightarrow> (Runtime_error e, n2)
      | (Crash, n2) \<Rightarrow> (Crash, n2))"

section \<open>Groups\<close>

definition lookup_state_manager :: "group_id \<Rightarrow> ('p, 'srv, 'h) node \<Rightarrow> nat option" where
  "lookup_state_manager gid n =
     (case om_find (nd_state_managers n) gid of Some p \<Rightarrow> p | None \<Rightarrow> None)"

definition create_group ::
  "('p, 'srv) raft_api \<Rightarrow> application \<Rightarrow> group_id \<Rightarrow> group_type \<Rightarrow> ('p, 'srv, 'h) node list \<Rightarrow> ('p, 'srv, 'h) node
   \<Rightarrow> null_result run \<times> ('p, 'srv, 'h) node" where
  "create_group api app gid gtype seen n =
     (let n1 = touch_leader gid n in
      if \<not> nd_started n then (Crash, n1)
      else case joinRaftGroup api app (nd_srv_id n) gid gtype n1 of
        (Ret err, n2) \<Rightarrow>
          (if err \<noteq> OK then (Ret (Inl err), n2)
           else (run_bind (wait_for (\<lambda>n. Ret (is_leader gid n)) seen)
                   (\<lambda>b. Ret (if b then Inr () else Inl CANCELLED)), n2))
      | (Runtime_error e, n2) \<Rightarrow> (Runtime_error e, n2)
      | (Crash, n2) \<Rightarrow> (Crash, n2))"

definition join_group ::
  "('p, 'srv) raft_api \<Rightarrow> application \<Rightarrow> group_id \<Rightarrow> group_type \<Rightarrow> nat option \<Rightarrow> ('p, 'srv, 'h) node
   \<Rightarrow> null_result run \<times> ('p, 'srv, 'h) node" where
  "join_group api app gid gtype smgr n =
     (let n1 = n\<lparr>nd_state_managers := fst (om_emplace gid smgr (nd_state_managers n))\<rparr> in
      if \<not> nd_started n then (Crash, n1)
      else case joinRaftGroup api app (nd_srv_id n) gid gtype n1 of
        (Ret err, n2) \<Rightarrow>
          (if err \<noteq> OK
           then (Ret (Inl err), n2\<lparr>nd_state_managers := om_erase gid (nd_state_managers n2)\<rparr>)
           else (Ret (Inr ()), n2))
      | (Runtime_error e, n2) \<Rightarrow> (Runtime_error e, n2)
      | (Crash, n2) \<Rightarrow> (Crash, n2))"

fun parse_endpoints :: "uuid_io \<Rightarrow> srv_config list \<Rightarrow> peer_id list \<Rightarrow> peer_id list run" where
  "parse_endpoints io [] servers = Ret servers"
| "parse_endpoints io (server # rest) servers =
     (case string_generator io (sc_endpoint server) of
        Some p \<Rightarrow> parse_endpoints io rest (servers @ [p])
      | None \<Rightarrow> Runtime_error ''invalid uuid string'')"

text \<open>\<open>append_peers\<close>; \<open>load_config\<close> of the state manager is an argument.\<close>

definition append_peers ::
  "uuid_io \<Rightarrow> (nat \<Rightarrow> srv_config list option) \<Rightarrow> group_id \<Rightarrow> peer_id list \<Rightarrow> ('p, 'srv, 'h) node \<Rightarrow> peer_id list run" where
  "append_peers io load_config gid servers n =
     (case om_find (nd_state_managers n) gid of
        None \<Rightarrow> Ret servers
      | Some p \<Rightarrow> run_bind (deref p)
          (\<lambda>a. case load_config a of None \<Rightarrow> Ret servers | Some cfg \<Rightarrow> parse_endpoints io cfg servers))"

definition leave_group ::
  "('p, 'srv) raft_api \<Rightarrow> group_id \<Rightarrow> ('p, 'srv, 'h) node \<Rightarrow> unit run \<times> ('p, 'srv, 'h) node" where
  "leave_group api gid n =
     (if om_find (nd_state_managers n) gid = None then (Ret (), n)
      else if \<not> nd_started n then (Crash, n)
      else
        (let n1 = svc_leave_group api gid n in
         case om_find (nd_state_managers n1) gid of
           None \<Rightarrow> (Ret (), n1)
         | Some None \<Rightarrow> (Crash, n1)
         | Some (Some a) \<Rightarrow>
             (let n2 = upd_smgr a (sm_call Permanent_destroy) n1 in
              (Ret (), n2\<lparr>nd_state_managers := om_erase gid (nd_state_managers n2)\<rparr>))))"

text \<open>\<open>logstore_id\<close>; \<open>get_logstore_id\<close> of the state manager is an argument.\<close>

definition logstore_id :: "(nat \<Rightarrow> u32) \<Rightarrow> group_id \<Rightarrow> ('p, 'srv, 'h) node \<Rightarrow> u32 run" where
  "logstore_id get_logstore_id gid n =
     (case om_find (nd_state_managers n) gid of
        Some p \<Rightarrow> run_bind (deref p) (\<lambda>a. Ret (get_logstore_id a))
      | None \<Rightarrow> Ret (- 1))"

definition get_srv_config_all ::
  "('p, 'srv) raft_api \<Rightarrow> group_id \<Rightarrow> srv_config list \<Rightarrow> ('p, 'srv, 'h) node \<Rightarrow> srv_config list run" where
  "get_srv_config_all api gid configs_out n =
     (if \<not> nd_started n then Crash else svc_get_srv_config_all api gid configs_out n)"

definition bind_data_service_request ::
  "uuid_io \<Rightarrow> grpc_env \<Rightarrow> string \<Rightarrow> group_id \<Rightarrow> 'h option \<Rightarrow> ('p, 'srv, 'h) node \<Rightarrow> bool run \<times> ('p, 'srv, 'h) node" where
  "bind_data_service_request io env request_name gid request_handler n =
     (if \<not> nd_started n then (Crash, n)
      else svc_bind_data_service_request io env request_name gid request_handler n)"

end
