(* ===== verification/Refinement.thy ===== *)
theory Refinement
  imports Main
begin

text \<open>
  The contract between a component and its abstract specification: a step relation
  labelled with operations, an invariant it keeps, and an abstraction under which every
  step is the function the specification gives for its operation. Sequences of
  operations then refine the composition of those functions.
\<close>

inductive op_run :: "('s \<Rightarrow> 'op \<Rightarrow> 's \<Rightarrow> bool) \<Rightarrow> 's \<Rightarrow> 'op list \<Rightarrow> 's \<Rightarrow> bool" for step where
  op_run_Nil: "op_run step s [] s"
| op_run_Cons: "step s x s' \<Longrightarrow> op_run step s' xs s'' \<Longrightarrow> op_run step s (x # xs) s''"

inductive_cases op_run_NilE: "op_run step s [] s'"
inductive_cases op_run_ConsE: "op_run step s (x # xs) s'"

locale refinement =
  fixes step :: "'s \<Rightarrow> 'op \<Rightarrow> 's \<Rightarrow> bool"
    and inv :: "'s \<Rightarrow> bool"
    and abs :: "'s \<Rightarrow> 'a"
    and spec :: "'op \<Rightarrow> 'a \<Rightarrow> 'a"
  assumes inv_step: "inv s \<Longrightarrow> step s x s' \<Longrightarrow> inv s'"
    and abs_step: "inv s \<Longrightarrow> step s x s' \<Longrightarrow> abs s' = spec x (abs s)"
begin

lemma run_inv: "op_run step s xs s' \<Longrightarrow> inv s \<Longrightarrow> inv s'"
  by (induction rule: op_run.induct) (auto dest: inv_step)

lemma run_refines: "op_run step s xs s' \<Longrightarrow> inv s \<Longrightarrow> abs s' = fold spec xs (abs s)"
  by (induction rule: op_run.induct) (simp_all add: inv_step abs_step)

lemma run_both: "op_run step s xs s' \<Longrightarrow> inv s \<Longrightarrow> inv s' \<and> abs s' = fold spec xs (abs s)"
  by (simp add: run_inv run_refines)

end

end
