(* ===== verification/Membership.thy ===== *)
theory Membership
  imports Manager Refinement
begin

text \<open>
  The specification of the manager's interface and the proof that the manager implements
  it: which groups a node keeps, hosts and believes to lead, as sets, and every operation
  of \<open>ManagerImpl\<close> as a function on them.
\<close>

section \<open>The membership specification\<close>

text \<open>
  What the interface promises, without pointers, servers or locks: the registered group
  types, the groups the node keeps a state manager for, the groups it hosts a RAFT server
  of, and the groups it believes to lead.
\<close>

record membership =
  mb_types :: "group_type set"
  mb_default :: group_type
  mb_managed :: "group_id set"
  mb_hosted :: "group_id set"
  mb_leads :: "group_id set"

datatype 'p manager_op = Register_type group_type 'p | Create group_id group_type | Join group_id group_type
  | Remote_join group_id group_type | Leave_op group_id | Raft_event group_id cb_type cb_param | Member_command group_id

definition spec_type :: "group_type \<Rightarrow> membership \<Rightarrow> group_type" where
  "spec_type t m = (if t = [] then mb_default m else t)"

definition spec_host :: "group_id \<Rightarrow> group_type \<Rightarrow> membership \<Rightarrow> membership" where
  "spec_host g t m =
     (if g \<in> mb_hosted m \<or> spec_type t m \<notin> mb_types m then m
      else m\<lparr>mb_managed := insert g (mb_managed m), mb_hosted := insert g (mb_hosted m)\<rparr>)"

fun spec_op :: "'p manager_op \<Rightarrow> membership \<Rightarrow> membership" where
  "spec_op (Register_type t p) m = m\<lparr>mb_types := insert t (mb_types m)\<rparr>"
| "spec_op (Create g t) m = spec_host g t m"
| "spec_op (Remote_join g t) m = spec_host g t m"
| "spec_op (Join g t) m =
     (if g \<in> mb_hosted m then m
      else if spec_type t m \<in> mb_types m then spec_host g t m
      else m\<lparr>mb_managed := mb_managed m - {g}\<rparr>)"
| "spec_op (Leave_op g) m =
     (if g \<in> mb_managed m then m\<lparr>mb_managed := mb_managed m - {g}, mb_hosted := mb_hosted m - {g}\<rparr> else m)"
| "spec_op (Raft_event g ty prm) m =
     (case ty of
        JoinedCluster \<Rightarrow>
          m\<lparr>mb_leads := (if leader_id prm = my_id prm then insert g (mb_leads m) else mb_leads m - {g})\<rparr>
      | BecomeLeader \<Rightarrow> m\<lparr>mb_leads := insert g (mb_leads m)\<rparr>
      | BecomeFollower \<Rightarrow> m\<lparr>mb_leads := mb_leads m - {g}\<rparr>
      | _ \<Rightarrow> m)"
| "spec_op (Member_command g) m = m"

definition membership_of :: "('p, 'srv, 'h) node \<Rightarrow> membership" where
  "membership_of n =
     \<lparr>mb_types = om_keys (nd_state_mgr_types n), mb_default = nd_default_group_type n,
      mb_managed = om_keys (nd_state_managers n), mb_hosted = om_keys (nd_raft_servers n),
      mb_leads = {g. is_leader g n}\<rparr>"

text \<open>
  The operations of the interface as steps, each one that returns. \<open>Join\<close> is given a state
  manager object the application has made; \<open>Remote_join\<close> is the join that \<open>raftStep\<close>
  performs for a join request of the leader.
\<close>

inductive manager_step ::
  "('p, 'srv) raft_api \<Rightarrow> application \<Rightarrow> ('p, 'srv, 'h) node \<Rightarrow> 'p manager_op \<Rightarrow> ('p, 'srv, 'h) node \<Rightarrow> bool"
  for api app where
  step_register: "manager_step api app n (Register_type t p) (register_mgr_type t p n)"
| step_create: "create_group api app g t seen n = (Ret r, n') \<Longrightarrow> manager_step api app n (Create g t) n'"
| step_join: "join_group api app g t (Some (length (nd_smgrs n))) (n\<lparr>nd_smgrs := nd_smgrs n @ [sm]\<rparr>) = (Ret r, n')
    \<Longrightarrow> manager_step api app n (Join g t) n'"
| step_remote: "joinRaftGroup api app (nd_srv_id n) g t n = (Ret c, n') \<Longrightarrow> manager_step api app n (Remote_join g t) n'"
| step_leave: "leave_group api g n = (Ret (), n') \<Longrightarrow> manager_step api app n (Leave_op g) n'"
| step_event: "manager_step api app n (Raft_event g ty prm) (generic_raft_event_handler g ty prm n)"
| step_add: "add_member_cfg api g cfg seen n = (Ret r, n') \<Longrightarrow> manager_step api app n (Member_command g) n'"
| step_rem: "rem_member h api g p n = (Ret r, n') \<Longrightarrow> manager_step api app n (Member_command g) n'"
| step_append: "append_entries api g bufs n = (Ret r, n') \<Longrightarrow> manager_step api app n (Member_command g) n'"
| step_become: "become_leader api g seen n = (Ret r, n') \<Longrightarrow> manager_step api app n (Member_command g) n'"

section \<open>Facts\<close>

text \<open>The fields a join leaves alone.\<close>

definition join_frame where
  "join_frame n = (nd_is_leader n, nd_state_mgr_types n, nd_default_group_type n, nd_manager_alive n, nd_started n,
     nd_srv_id n, nd_grpc_server n, nd_data_service n)"

lemma group_init_frame: "group_init app s g t m n = (r, n') \<Longrightarrow> join_frame n' = join_frame n"
proof -
  have gs: "join_frame (snd (group_state_mgr app s g n)) = join_frame n"
    by (simp add: join_frame_def group_state_mgr_def Let_def case_prod_unfold split: option.splits)
  moreover have "join_frame (ready_state_mgr a k) = join_frame k" for a and k :: "('a, 'b, 'c) node"
    by (simp add: join_frame_def ready_state_mgr_def upd_smgr_def)
  ultimately show "group_init app s g t m n = (r, n') \<Longrightarrow> join_frame n' = join_frame n"
    by (auto simp: group_init_def split: option.splits prod.splits run.splits)
qed

lemma join_check_frame: "join_check app s g t n = (r, n') \<Longrightarrow> join_frame n' = join_frame n"
proof -
  have "join_frame (k\<lparr>nd_metrics := ms\<rparr>) = join_frame k" for k :: "('a, 'b, 'c) node" and ms
    by (simp add: join_frame_def)
  then show "join_check app s g t n = (r, n') \<Longrightarrow> join_frame n' = join_frame n"
    by (auto simp: join_check_def Let_def split: if_splits prod.splits run.splits sum.splits dest!: group_init_frame)
qed

lemma join_commit_frame: "join_frame (join_commit api ctx k) = join_frame k"
  by (simp add: join_frame_def join_commit_def shutdown_for_def upd_smgr_def Let_def)

lemma joinRaftGroup_frame: "joinRaftGroup api app s g t n = (r, n') \<Longrightarrow> join_frame n' = join_frame n"
  by (auto simp: joinRaftGroup_def join_commit_frame split: prod.splits run.splits sum.splits
      dest!: join_check_frame)

text \<open>What a join does to the sets of groups.\<close>

lemma join_check_managers:
  assumes "node_inv n" and "join_check app s g t n = (Ret (Inr ctx), n')"
  shows "om_keys (nd_state_managers n') = insert g (om_keys (nd_state_managers n))"
proof -
  from assms(2) obtain t' m n0 where gi: "group_init app s g t' m n = (Ret (Inr ctx), n0)"
    and n': "nd_state_managers n' = nd_state_managers n0"
    by (auto simp: join_check_def Let_def split: if_splits prod.splits run.splits sum.splits)
  from gi obtain a n1 where gs: "group_state_mgr app s g n = (Ret a, n1)" and "n0 = ready_state_mgr a n1"
    by (rule group_init_Inr)
  with n' have "nd_state_managers n' = nd_state_managers n1" by simp
  with assms(1) gs show ?thesis
    by (cases rule: group_state_mgr_Ret) (auto simp: om_keys_iff)
qed

lemma join_outcome:
  assumes "node_inv n" and "nd_manager_alive n" and "joinRaftGroup api app s g t n = (Ret c, n')"
  shows "node_inv n' \<and> membership_of n' = spec_host g t (membership_of n)
    \<and> (c = OK \<longleftrightarrow> g \<in> mb_hosted (membership_of n) \<or> spec_type t (membership_of n) \<in> mb_types (membership_of n))
    \<and> (c \<noteq> OK \<longrightarrow> n' = n)"
proof -
  have et: "spec_type t (membership_of n) = effective_type t n"
    by (simp add: spec_type_def membership_of_def effective_type_def)
  from assms(3) consider (early) "join_check app s g t n = (Ret (Inl c), n')"
    | (commit) ctx n1 where "join_check app s g t n = (Ret (Inr ctx), n1)" "n' = join_commit api ctx n1" "c = OK"
    by (auto simp: joinRaftGroup_def split: prod.splits run.splits sum.splits)
  then show ?thesis
  proof cases
    case early
    with join_check_Inl [OF early] assms(1,2) et show ?thesis
      by (auto simp: spec_host_def membership_of_def om_keys_iff result_codes)
  next
    case commit
    note ck = join_check_Inr [OF assms(1) commit(1)]
    then have "node_inv (join_commit api ctx n1)" by (intro join_commit_inv) auto
    moreover have "om_keys (nd_raft_servers n') = insert g (om_keys (nd_raft_servers n))"
      using ck join_commit_new(1) [of n1 ctx api] by (auto simp: commit(2) om_keys_find split: if_splits)
    moreover have "om_keys (nd_state_managers n') = insert g (om_keys (nd_state_managers n))"
      using ck join_check_managers [OF assms(1) commit(1)] by (simp add: commit(2) join_commit_new)
    moreover have "g \<notin> om_keys (nd_raft_servers n)" "effective_type t n \<in> om_keys (nd_state_mgr_types n)"
      using ck by (auto simp: om_keys_iff)
    ultimately show ?thesis
      using joinRaftGroup_frame [OF assms(3)] et commit
      by (simp add: join_frame_def spec_host_def membership_of_def is_leader_def)
  qed
qed


section \<open>The manager refines the specification\<close>

definition manager_inv :: "('p, 'srv, 'h) node \<Rightarrow> bool" where
  "manager_inv n \<longleftrightarrow> node_inv n \<and> nd_manager_alive n \<and> nd_started n"

text \<open>What the layer relies on in \<open>raft_server::shutdown\<close>: it lets go of its listener.\<close>

definition shutdown_releases_ok :: "('p, 'srv) raft_api \<Rightarrow> bool" where
  "shutdown_releases_ok api \<longleftrightarrow> (\<forall>srv. api_shutdown_releases api srv)"

lemma membership_cong:
  assumes "nd_state_mgr_types n' = nd_state_mgr_types n" "nd_default_group_type n' = nd_default_group_type n"
    "nd_state_managers n' = nd_state_managers n" "nd_raft_servers n' = nd_raft_servers n"
    "\<And>g. is_leader g n' = is_leader g n"
  shows "membership_of n' = membership_of n"
  using assms by (simp add: membership_of_def)

lemma touch_leader_facts [simp]:
  "membership_of (touch_leader g n) = membership_of n" "is_leader g' (touch_leader g n) = is_leader g' n"
  "nd_started (touch_leader g n) = nd_started n" "nd_manager_alive (touch_leader g n) = nd_manager_alive n"
  by (auto simp: touch_leader_def is_leader_def membership_of_def split: option.splits)

lemma node_inv_touch [simp]: "node_inv n \<Longrightarrow> node_inv (touch_leader g n)"
  by (simp add: touch_leader_def node_inv_defs)

lemma upd_server_facts [simp]:
  "membership_of (upd_server a srv n) = membership_of n" "nd_started (upd_server a srv n) = nd_started n"
  "nd_manager_alive (upd_server a srv n) = nd_manager_alive n"
  by (simp_all add: upd_server_def membership_of_def is_leader_def)

text \<open>A call that only runs a RAFT server changes nothing the specification sees.\<close>

definition same_membership :: "('p, 'srv, 'h) node \<Rightarrow> ('p, 'srv, 'h) node \<Rightarrow> bool" where
  "same_membership n n' \<longleftrightarrow> (manager_inv n \<longrightarrow> manager_inv n') \<and> membership_of n' = membership_of n"

lemma same_membership_refl [simp]: "same_membership n n"
  by (simp add: same_membership_def)

lemma same_membership_server [simp]: "same_membership n (upd_server a srv n)"
  by (simp add: same_membership_def manager_inv_def)

lemma same_membership_touch: "same_membership (touch_leader g n) n' \<Longrightarrow> same_membership n n'"
  by (auto simp: same_membership_def manager_inv_def)

lemma on_group_same: "on_group f g n = (r, n') \<Longrightarrow> same_membership n n'"
  by (auto simp: on_group_def Let_def split: option.splits prod.splits run.splits)

lemma svc_become_leader_same: "svc_become_leader api g n = (r, n') \<Longrightarrow> same_membership n n'"
  by (auto simp: svc_become_leader_def Let_def split: option.splits prod.splits run.splits)

lemma add_member_same:
  assumes "add_member_cfg api g cfg seen n = (r, n')"
  shows "same_membership n n'"
proof -
  obtain q n1 where q: "svc_add_member api g cfg n = (q, n1)" by (rule prod.exhaust)
  then have "n' = n \<or> n' = n1"
    using assms by (cases q) (auto simp: add_member_cfg_def split: if_splits sum.splits)
  with on_group_same [OF q [unfolded svc_add_member_def]] show ?thesis by auto
qed

lemma rem_member_same:
  assumes "rem_member h api g p n = (r, n')"
  shows "same_membership n n'"
  using assms by (cases "nd_started n") (auto simp: rem_member_def svc_rem_member_def intro: on_group_same)

lemma append_entries_same:
  assumes "append_entries api g bufs n = (r, n')"
  shows "same_membership n n'"
  using assms by (cases "nd_started n") (auto simp: append_entries_def svc_append_entries_def intro: on_group_same)

lemma become_leader_same:
  assumes "become_leader api g seen n = (r, n')"
  shows "same_membership n n'"
proof -
  obtain q n1 where q: "svc_become_leader api g (touch_leader g n) = (q, n1)" by (rule prod.exhaust)
  then have "n' = touch_leader g n \<or> n' = n1"
    using assms by (cases q) (auto simp: become_leader_def Let_def split: if_splits bool.splits)
  with svc_become_leader_same [OF q] show ?thesis
    using same_membership_refl by (blast intro: same_membership_touch)
qed

lemma create_group_refines:
  assumes "manager_inv n" and "create_group api app g t seen n = (Ret r, n')"
  shows "manager_inv n' \<and> membership_of n' = spec_host g t (membership_of n)"
proof -
  obtain c where j: "joinRaftGroup api app (nd_srv_id n) g t (touch_leader g n) = (Ret c, n')"
    using assms(2) by (auto simp: create_group_def Let_def split: if_splits prod.splits run.splits)
  have "node_inv (touch_leader g n)" "nd_manager_alive (touch_leader g n)" using assms(1) by (simp_all add: manager_inv_def)
  from join_outcome [OF this j] joinRaftGroup_frame [OF j] assms(1) show ?thesis
    by (simp add: manager_inv_def join_frame_def)
qed

lemma remote_join_refines:
  assumes "manager_inv n" and "joinRaftGroup api app s g t n = (Ret c, n')"
  shows "manager_inv n' \<and> membership_of n' = spec_host g t (membership_of n)"
  using join_outcome [OF _ _ assms(2)] joinRaftGroup_frame [OF assms(2)] assms(1)
  by (simp add: manager_inv_def join_frame_def)

lemma node_inv_adopt:
  assumes "node_inv n"
  shows "node_inv (n\<lparr>nd_smgrs := nd_smgrs n @ [sm],
    nd_state_managers := fst (om_emplace g (Some (length (nd_smgrs n))) (nd_state_managers n))\<rparr>)"
  using assms by (auto simp: node_inv_defs less_Suc_eq split: if_splits option.splits)

lemma spec_type_managed [simp]: "spec_type t (m\<lparr>mb_managed := x\<rparr>) = spec_type t m"
  by (simp add: spec_type_def)

lemma node_inv_forget:
  assumes "node_inv n" and "om_find (nd_raft_servers n) g = None"
  shows "node_inv (n\<lparr>nd_state_managers := om_erase g (nd_state_managers n)\<rparr>)"
  using assms by (auto simp: node_inv_defs)

lemma membership_forget:
  "membership_of (n\<lparr>nd_state_managers := om_erase g (nd_state_managers n)\<rparr>) =
     (membership_of n)\<lparr>mb_managed := mb_managed (membership_of n) - {g}\<rparr>"
  by (simp add: membership_of_def is_leader_def)

lemma spec_join_adopted:
  "(g \<in> mb_hosted m \<longrightarrow> g \<in> mb_managed m) \<Longrightarrow> g \<in> mb_hosted m \<or> spec_type t m \<in> mb_types m \<Longrightarrow>
     spec_host g t (m\<lparr>mb_managed := insert g (mb_managed m)\<rparr>) = spec_op (Join g t) m"
  by (auto simp: spec_host_def spec_type_def insert_absorb)

lemma join_group_refines:
  assumes "manager_inv n"
    and "join_group api app g t (Some (length (nd_smgrs n))) (n\<lparr>nd_smgrs := nd_smgrs n @ [sm]\<rparr>) = (Ret r, n')"
  shows "manager_inv n' \<and> membership_of n' = spec_op (Join g t) (membership_of n)"
proof -
  define n1 where "n1 = n\<lparr>nd_smgrs := nd_smgrs n @ [sm],
    nd_state_managers := fst (om_emplace g (Some (length (nd_smgrs n))) (nd_state_managers n))\<rparr>"
  have inv1: "node_inv n1" "nd_manager_alive n1" "nd_started n1"
    using assms(1) node_inv_adopt by (auto simp: n1_def manager_inv_def)
  have m1: "membership_of n1 = (membership_of n)\<lparr>mb_managed := insert g (mb_managed (membership_of n))\<rparr>"
    by (simp add: membership_of_def n1_def is_leader_def)
  obtain c n2 where j: "joinRaftGroup api app (nd_srv_id n) g t n1 = (Ret c, n2)"
    and n': "n' = (if c \<noteq> OK then n2\<lparr>nd_state_managers := om_erase g (nd_state_managers n2)\<rparr> else n2)"
  proof -
    have "join_group api app g t (Some (length (nd_smgrs n))) (n\<lparr>nd_smgrs := nd_smgrs n @ [sm]\<rparr>) =
      (case joinRaftGroup api app (nd_srv_id n) g t n1 of
        (Ret err, n2) \<Rightarrow>
          (if err \<noteq> OK
           then (Ret (Inl err), n2\<lparr>nd_state_managers := om_erase g (nd_state_managers n2)\<rparr>)
           else (Ret (Inr ()), n2))
      | (Runtime_error e, n2) \<Rightarrow> (Runtime_error e, n2)
      | (Crash, n2) \<Rightarrow> (Crash, n2))"
      using assms(1) by (simp add: join_group_def n1_def manager_inv_def)
    with assms(2) that show ?thesis by (auto split: if_splits prod.splits run.splits)
  qed
  note out = join_outcome [OF inv1(1,2) j]
  have hosted: "g \<in> mb_hosted (membership_of n) \<longrightarrow> g \<in> mb_managed (membership_of n)"
    using assms(1) by (auto simp: membership_of_def manager_inv_def node_inv_def servers_ok_def om_keys_iff)
  show ?thesis
  proof (cases "c = OK")
    case True
    then have "g \<in> mb_hosted (membership_of n) \<or> spec_type t (membership_of n) \<in> mb_types (membership_of n)"
      using out m1 by simp
    from spec_join_adopted [OF hosted this] out m1 True n' have "membership_of n' = spec_op (Join g t) (membership_of n)"
      by simp
    moreover have "manager_inv n'"
      using out True n' inv1 joinRaftGroup_frame [OF j] by (simp add: manager_inv_def join_frame_def)
    ultimately show ?thesis by simp
  next
    case False
    then have n2: "n2 = n1" and nh: "g \<notin> mb_hosted (membership_of n)"
      and nt: "spec_type t (membership_of n) \<notin> mb_types (membership_of n)"
      using out m1 by auto
    have "om_find (nd_raft_servers n1) g = None" using nh by (simp add: n1_def om_keys_iff membership_of_def)
    from node_inv_forget [OF inv1(1) this] have "manager_inv n'"
      using inv1(2,3) False n' n2 by (simp add: manager_inv_def)
    moreover have "membership_of n' = (membership_of n)\<lparr>mb_managed := mb_managed (membership_of n) - {g}\<rparr>"
      using False n' n2 by (simp add: membership_forget m1)
    ultimately show ?thesis using nh nt by simp
  qed
qed

lemma svc_leave_group_facts:
  assumes "shutdown_releases_ok api"
  shows "nd_state_managers (svc_leave_group api g n) = nd_state_managers n"
    and "om_find (nd_raft_servers (svc_leave_group api g n)) g = None"
    and "nd_smgrs (svc_leave_group api g n) = nd_smgrs n"
    and "membership_of (svc_leave_group api g n) = (membership_of n)\<lparr>mb_hosted := mb_hosted (membership_of n) - {g}\<rparr>"
    and "node_inv n \<Longrightarrow> node_inv (svc_leave_group api g n)"
    and "nd_started (svc_leave_group api g n) = nd_started n"
    and "nd_manager_alive (svc_leave_group api g n) = nd_manager_alive n"
proof -
  define n1 where "n1 = (case om_find (nd_raft_servers n) g of None \<Rightarrow> n
    | Some w \<Rightarrow> upd_server (w_server w) (api_shutdown api (api_stop_server api (nd_servers n ! w_server w))) n)"
  have n': "svc_leave_group api g n = (if om_find (nd_raft_servers n) g = None then n else shutdown_for g n1)"
    using assms by (auto simp: svc_leave_group_def n1_def stop_entry_def shutdown_releases_ok_def Let_def split: option.splits)
  have same: "nd_state_managers n1 = nd_state_managers n" "nd_raft_servers n1 = nd_raft_servers n"
    "membership_of n1 = membership_of n" "node_inv n1 = node_inv n" "nd_started n1 = nd_started n"
    "nd_manager_alive n1 = nd_manager_alive n" "nd_smgrs n1 = nd_smgrs n"
    by (auto simp: n1_def split: option.splits) (simp_all add: upd_server_def)
  have erase: "membership_of (shutdown_for g n1) = (membership_of n1)\<lparr>mb_hosted := mb_hosted (membership_of n1) - {g}\<rparr>"
    by (simp add: membership_of_def shutdown_for_def is_leader_def)
  show "membership_of (svc_leave_group api g n) = (membership_of n)\<lparr>mb_hosted := mb_hosted (membership_of n) - {g}\<rparr>"
    using erase same(3) by (simp add: n') (simp add: membership_of_def om_keys_iff)
  show "node_inv n \<Longrightarrow> node_inv (svc_leave_group api g n)" using same(4) by (simp add: n')
  show "nd_state_managers (svc_leave_group api g n) = nd_state_managers n"
    "om_find (nd_raft_servers (svc_leave_group api g n)) g = None"
    "nd_smgrs (svc_leave_group api g n) = nd_smgrs n"
    "nd_started (svc_leave_group api g n) = nd_started n"
    "nd_manager_alive (svc_leave_group api g n) = nd_manager_alive n"
    using same by (simp_all add: n' shutdown_for_def)
qed

text \<open>\<open>leave_group\<close> of a group the node keeps, on a node that is well-formed.\<close>

lemma leave_group_known:
  assumes "manager_inv n" and "shutdown_releases_ok api" and "om_find (nd_state_managers n) g = Some p"
  shows "\<exists>a < length (nd_smgrs n). p = Some a \<and> leave_group api g n =
    (Ret (), (upd_smgr a (sm_call Permanent_destroy) (svc_leave_group api g n))
       \<lparr>nd_state_managers := om_erase g (nd_state_managers n)\<rparr>)"
proof -
  obtain a where a: "p = Some a" "a < length (nd_smgrs n)"
    using assms(1,3) by (auto simp: manager_inv_def dest: node_inv_smgr)
  then show ?thesis
    using assms svc_leave_group_facts(1) [OF assms(2), where g = g and n = n]
    by (simp add: leave_group_def Let_def manager_inv_def upd_smgr_def)
qed

lemma leave_group_refines:
  assumes "manager_inv n" and "shutdown_releases_ok api" and "leave_group api g n = (Ret u, n')"
  shows "manager_inv n' \<and> membership_of n' = spec_op (Leave_op g) (membership_of n)"
proof (cases "om_find (nd_state_managers n) g")
  case None
  with assms show ?thesis by (auto simp: leave_group_def membership_of_def om_keys_iff)
next
  case (Some p)
  define n1 where "n1 = svc_leave_group api g n"
  note facts = svc_leave_group_facts [OF assms(2), where g = g and n = n, folded n1_def]
  from leave_group_known [OF assms(1,2) Some] assms(3) obtain a
    where n': "n' = (upd_smgr a (sm_call Permanent_destroy) n1)\<lparr>nd_state_managers := om_erase g (nd_state_managers n1)\<rparr>"
    using facts(1) by (auto simp: n1_def)
  define n2 where "n2 = upd_smgr a (sm_call Permanent_destroy) n1"
  have n2: "node_inv n2" "om_find (nd_raft_servers n2) g = None" "membership_of n2 = membership_of n1"
      "nd_started n2" "nd_manager_alive n2" "nd_state_managers n2 = nd_state_managers n1"
    using facts assms(1) by (simp_all add: n2_def manager_inv_def) (simp_all add: upd_smgr_def membership_of_def is_leader_def)
  have "g \<in> mb_managed (membership_of n)" using Some by (simp add: membership_of_def om_keys_iff)
  moreover have "n' = n2\<lparr>nd_state_managers := om_erase g (nd_state_managers n2)\<rparr>"
    by (simp add: n' n2_def upd_smgr_def)
  ultimately show ?thesis
    using node_inv_forget [OF n2(1,2)] n2(3-5) facts(4) by (simp add: membership_forget manager_inv_def)
qed

lemma set_leader_refines:
  assumes "manager_inv n"
  shows "manager_inv (set_leader g b n) \<and> membership_of (set_leader g b n) =
    (membership_of n)\<lparr>mb_leads := (if b then insert g (mb_leads (membership_of n)) else mb_leads (membership_of n) - {g})\<rparr>"
  using assms by (auto simp: set_leader_def manager_inv_def node_inv_defs membership_of_def is_leader_def)

lemma notify_all_refines [simp]: "manager_inv (notify_all n) = manager_inv n" "membership_of (notify_all n) = membership_of n"
  by (simp_all add: notify_all_def manager_inv_def node_inv_defs membership_of_def is_leader_def)

lemma exit_group_refines [simp]: "manager_inv (exit_group g n) = manager_inv n" "membership_of (exit_group g n) = membership_of n"
  by (auto simp: exit_group_def manager_inv_def split: option.splits)
    (simp_all add: upd_smgr_def membership_of_def is_leader_def)

lemma event_refines:
  assumes "manager_inv n"
  shows "manager_inv (generic_raft_event_handler g ty prm n)
    \<and> membership_of (generic_raft_event_handler g ty prm n) = spec_op (Raft_event g ty prm) (membership_of n)"
  using assms set_leader_refines [OF assms] by (simp add: generic_raft_event_handler_def split: cb_type.splits)

lemma register_refines:
  assumes "manager_inv n"
  shows "manager_inv (register_mgr_type t p n)
    \<and> membership_of (register_mgr_type t p n) = spec_op (Register_type t p) (membership_of n)"
  using assms by (auto simp: register_mgr_type_def manager_inv_def node_inv_defs membership_of_def is_leader_def)

lemma manager_step_refines:
  assumes "shutdown_releases_ok api" and "manager_step api app n x n'" and "manager_inv n"
  shows "manager_inv n' \<and> membership_of n' = spec_op x (membership_of n)"
  using assms(2,3)
proof (cases rule: manager_step.cases)
  case (step_register t p)
  then show ?thesis using register_refines [OF assms(3)] by simp
next
  case (step_create g t seen r)
  then show ?thesis using create_group_refines [OF assms(3)] by simp
next
  case (step_join g t sm r)
  then show ?thesis using join_group_refines [OF assms(3)] by simp
next
  case (step_remote g t c)
  then show ?thesis using remote_join_refines [OF assms(3)] by simp
next
  case (step_leave g)
  then show ?thesis using leave_group_refines [OF assms(3,1)] by simp
next
  case (step_event g ty prm)
  then show ?thesis using event_refines [OF assms(3)] by simp
next
  case (step_add g cfg seen r)
  then show ?thesis using add_member_same [OF step_add(2)] assms(3) by (simp add: same_membership_def)
next
  case (step_rem h g p r)
  then show ?thesis using rem_member_same [OF step_rem(2)] assms(3) by (simp add: same_membership_def)
next
  case (step_append g bufs r)
  then show ?thesis using append_entries_same [OF step_append(2)] assms(3) by (simp add: same_membership_def)
next
  case (step_become g seen r)
  then show ?thesis using become_leader_same [OF step_become(2)] assms(3) by (simp add: same_membership_def)
qed

text \<open>
  The library's assumption on \<open>shutdown\<close> is a premise of the simulation, so the
  interpretation carries it in the invariant.
\<close>

interpretation mgr: refinement "manager_step api app"
  "\<lambda>n. manager_inv n \<and> shutdown_releases_ok api" membership_of spec_op for api app
  by unfold_locales (use manager_step_refines in blast)+

section \<open>Properties\<close>

text \<open>
  C1: The manager implements the membership specification. Whatever sequence of interface
  calls, joins requested by a leader and events of the RAFT servers a running node goes
  through, and however each of them returns, the node stays well-formed (every map entry
  points to a live object, every hosted group has a state manager) and its registered
  types, kept groups, hosted groups and led groups are exactly what the specification
  computes from the sequence. The hypothesis on the library is that
  \<open>raft_server::shutdown\<close> lets go of its listener.
\<close>

theorem manager_refines_membership:
  assumes "shutdown_releases_ok api" and "manager_inv n" and "op_run (manager_step api app) n ops n'"
  shows "manager_inv n' \<and> membership_of n' = fold spec_op ops (membership_of n)"
  using mgr.run_both [OF assms(3)] assms(1,2) by blast

lemma sample_manager_inv: "manager_inv sample_node" "shutdown_releases_ok sample_api"
  by (simp_all add: manager_inv_def sample_node_inv sample_fields shutdown_releases_ok_def sample_api_def)

lemma sample_served_manager:
  "manager_inv sample_served" "om_find (nd_state_managers sample_served) 7 = Some (Some 0)" "nd_started sample_served"
  "nd_data_service_enabled sample_served" "ds_request_map (nd_data_service sample_served) = []"
proof -
  show "om_find (nd_state_managers sample_served) 7 = Some (Some 0)" "nd_started sample_served"
    "nd_data_service_enabled sample_served" "ds_request_map (nd_data_service sample_served) = []"
    by (simp_all add: sample_served_def joinRaftGroup_def join_check_def group_init_def group_state_mgr_def join_commit_def
      om_emplace_def ready_state_mgr_def make_repl_ctx_def cell_defs Let_def sample_defs data_service_new_def)
  moreover have "nd_manager_alive sample_served"
    by (simp add: sample_served_def joinRaftGroup_def join_check_def group_init_def group_state_mgr_def join_commit_def
      om_emplace_def ready_state_mgr_def make_repl_ctx_def cell_defs Let_def sample_defs)
  ultimately show "manager_inv sample_served" by (simp add: manager_inv_def sample_served_facts)
qed

theorem manager_refines_membership_witness:
  "\<exists>n'. op_run (manager_step sample_api sample_app) sample_node
      [Remote_join 7 ''t'', Raft_event 7 BecomeLeader \<lparr>my_id = 1, leader_id = 1\<rparr>] n'
    \<and> mb_hosted (membership_of n') = {7} \<and> mb_leads (membership_of n') = {7}"
proof -
  let ?j = "joinRaftGroup sample_api sample_app (nd_srv_id sample_node) 7 ''t'' sample_node"
  have j: "?j = (Ret OK, snd ?j)"
    by (simp add: prod_eq_iff joinRaftGroup_def join_check_def group_init_def group_state_mgr_def om_emplace_def Let_def sample_defs)
  define n' where "n' = generic_raft_event_handler 7 BecomeLeader \<lparr>my_id = 1, leader_id = 1\<rparr> (snd ?j)"
  have run: "op_run (manager_step sample_api sample_app) sample_node
      [Remote_join 7 ''t'', Raft_event 7 BecomeLeader \<lparr>my_id = 1, leader_id = 1\<rparr>] n'"
    unfolding n'_def
    by (rule op_run_Cons, rule step_remote, rule j, rule op_run_Cons, rule step_event, rule op_run_Nil)
  have "membership_of sample_node = \<lparr>mb_types = {''t''}, mb_default = ''t'', mb_managed = {}, mb_hosted = {}, mb_leads = {}\<rparr>"
    by (simp add: membership_of_def is_leader_def sample_fields om_keys_Cons)
  with manager_refines_membership [OF sample_manager_inv(2,1) run]
  have "mb_hosted (membership_of n') = {7} \<and> mb_leads (membership_of n') = {7}"
    by (simp add: spec_host_def spec_type_def)
  with run show ?thesis by blast
qed

text \<open>
  C32: \<open>leave_group\<close> of a group the node keeps returns and ends the membership for good:
  the group is neither hosted nor kept, its state manager has seen \<open>permanent_destroy\<close> as
  its last call, no other group's entry changes, and leaving again does nothing.
\<close>

theorem leave_group_cleans:
  assumes "manager_inv n" and "shutdown_releases_ok api" and "om_find (nd_state_managers n) g = Some (Some a)"
  shows "\<exists>n'. leave_group api g n = (Ret (), n') \<and> leave_group api g n' = (Ret (), n')
    \<and> om_find (nd_raft_servers n') g = None \<and> om_find (nd_state_managers n') g = None
    \<and> sm_calls (nd_smgrs n' ! a) = sm_calls (nd_smgrs n ! a) @ [Permanent_destroy]
    \<and> (\<forall>g'. g' \<noteq> g \<longrightarrow> om_find (nd_state_managers n') g' = om_find (nd_state_managers n) g')"
proof -
  from leave_group_known [OF assms(1,2,3)] have a: "a < length (nd_smgrs n)"
    and l: "leave_group api g n = (Ret (), (upd_smgr a (sm_call Permanent_destroy) (svc_leave_group api g n))
       \<lparr>nd_state_managers := om_erase g (nd_state_managers n)\<rparr>)" by auto
  note facts = svc_leave_group_facts [OF assms(2), where g = g and n = n]
  from a l facts show ?thesis
    by (simp add: leave_group_def [of _ _ "_\<lparr>nd_state_managers := _\<rparr>"] upd_smgr_def sm_call_def)
qed

theorem leave_group_cleans_witness:
  "\<exists>n'. leave_group sample_api 7 sample_served = (Ret (), n') \<and> om_find (nd_raft_servers n') 7 = None"
  using leave_group_cleans [OF sample_served_manager(1) sample_manager_inv(2) sample_served_manager(2)] by blast

text \<open>
  Leaving a group does not clear its leadership flag. On a node that left a group it
  was leading, \<open>become_leader\<close> for that group reports success although the group is not
  hosted any more; no RAFT server is asked.
\<close>

lemma left_group_still_led:
  assumes "manager_inv n" and "shutdown_releases_ok api" and "om_find (nd_state_managers n) g = Some p"
    and "is_leader g n" and "leave_group api g n = (Ret (), n')"
  shows "om_find (nd_raft_servers n') g = None \<and> fst (become_leader api g seen n') = Ret (Inr ())"
proof -
  from leave_group_refines [OF assms(1,2,5)] assms(3,4)
  have m: "membership_of n' = (membership_of n)\<lparr>mb_managed := mb_managed (membership_of n) - {g}, mb_hosted := mb_hosted (membership_of n) - {g}\<rparr>"
    by (simp add: membership_of_def om_keys_iff)
  from arg_cong [OF m, of mb_hosted] have "om_find (nd_raft_servers n') g = None"
    by (auto simp: membership_of_def om_keys_def om_find_def map_of_eq_None_iff)
  moreover from arg_cong [OF m, of mb_leads] assms(4) have "is_leader g n'" by (auto simp: membership_of_def)
  ultimately show ?thesis by (simp add: become_leader_def)
qed

lemma left_group_still_led_witness:
  "\<exists>n'. leave_group sample_api 7 (set_leader 7 True sample_served) = (Ret (), n')
    \<and> om_find (nd_raft_servers n') 7 = None \<and> fst (become_leader sample_api 7 [] n') = Ret (Inr ())"
proof -
  let ?n = "set_leader 7 True sample_served"
  have inv: "manager_inv ?n" using set_leader_refines [OF sample_served_manager(1)] by simp
  have sm: "om_find (nd_state_managers ?n) 7 = Some (Some 0)" "is_leader 7 ?n"
    using sample_served_manager(2) by (simp_all add: set_leader_def is_leader_def)
  from leave_group_known [OF inv sample_manager_inv(2) sm(1)] obtain n' where "leave_group sample_api 7 ?n = (Ret (), n')"
    by auto
  with left_group_still_led [OF inv sample_manager_inv(2) sm this] show ?thesis by blast
qed

text \<open>
  A \<open>join_group\<close> that fails drops the state manager the node already kept for the
  group. The error path erases the map entry whether or not this call inserted it, and
  the dropped state manager is not destroyed.
\<close>

lemma failed_join_drops_state_manager:
  assumes "manager_inv n" and "om_find (nd_state_managers n) g = Some (Some a)" and "om_find (nd_raft_servers n) g = None"
    and "om_find (nd_state_mgr_types n) t = None" and "t \<noteq> []"
  shows "\<exists>n'. join_group api app g t smgr n = (Ret (Inl SERVER_NOT_FOUND), n')
    \<and> om_find (nd_state_managers n') g = None \<and> nd_smgrs n' = nd_smgrs n"
  using assms
  by (simp add: join_group_def om_emplace_def joinRaftGroup_def join_check_def group_init_def manager_inv_def result_codes)

lemma failed_join_drops_state_manager_witness:
  "\<exists>n'. join_group sample_api sample_app 7 ''nope'' (Some 1)
      (sample_node\<lparr>nd_state_managers := [(7, Some 0)], nd_smgrs := [mesg_state_mgr_new, mesg_state_mgr_new]\<rparr>) =
      (Ret (Inl SERVER_NOT_FOUND), n') \<and> om_find (nd_state_managers n') 7 = None"
proof -
  let ?n = "sample_node\<lparr>nd_state_managers := [(7, Some 0)], nd_smgrs := [mesg_state_mgr_new, mesg_state_mgr_new]\<rparr>"
  have "manager_inv ?n"
    by (auto simp: manager_inv_def node_inv_defs sample_fields om_inv_def split: if_splits)
  from failed_join_drops_state_manager [OF this, of 7 0 "''nope''" sample_api sample_app "Some 1"] show ?thesis
    by (auto simp: sample_fields)
qed

lemma wait_for_Ret:
  "\<forall>m \<in> set seen. \<exists>b. pred m = Ret b \<Longrightarrow> wait_for pred seen = Ret (\<exists>m \<in> set seen. pred m = Ret True)"
  by (induction seen) auto

text \<open>
  C33: What \<open>add_member\<close> reports. For a hosted group it is the code of the RAFT server's
  \<open>add_srv\<close> when that is an error; otherwise success exactly if the new endpoint is in the
  group's configuration at one of the moments the waiting caller looks, and \<open>CANCELLED\<close> if
  it never is before the time-out.
\<close>

theorem add_member_outcome:
  assumes "nd_started n" and "om_find (nd_raft_servers n) g = Some w"
    and "api_add_srv api cfg (nd_servers n ! w_server w) = (Ret cr, srv)"
    and "\<forall>m \<in> set seen. \<exists>b. has_member api g (sc_endpoint cfg) m = Ret b"
  shows "add_member_cfg api g cfg seen n =
    (Ret (let code = (if cr_code cr = RESULT_NOT_EXIST_YET then cr_final_code cr else cr_code cr) in
          if code \<noteq> OK then Inl code
          else if \<exists>m \<in> set seen. has_member api g (sc_endpoint cfg) m = Ret True then Inr () else Inl CANCELLED),
     upd_server (w_server w) srv n)"
  using assms wait_for_Ret [OF assms(4)]
  by (auto simp: add_member_cfg_def svc_add_member_def on_group_def grpc_server_add_srv_def continue_resp_def
      null_result_of_def Let_def)

theorem add_member_outcome_witness:
  "fst (add_member_cfg sample_api 7 sample_cfg [sample_served] sample_served) = Ret (Inr ())"
  using add_member_outcome [of sample_served 7 "\<lparr>w_metrics = Some 0, w_server = 0\<rparr>" sample_api sample_cfg
      "\<lparr>cr_code = RESULT_NOT_EXIST_YET, cr_final_code = OK\<rparr>" "[]" "[sample_served]"]
  by (simp add: sample_served_manager sample_served_facts has_member_def svc_get_srv_config_all_def
      grpc_server_get_srv_config_all_def sample_api_def ex_bool_eq)

text \<open>
  What \<open>create_group\<close> reports when the group can be joined: success exactly if the node
  is seen to lead the group before the time-out, \<open>CANCELLED\<close> otherwise. A creation that is
  cancelled is not undone: the group stays hosted and kept.
\<close>

lemma create_group_outcome:
  assumes "manager_inv n" and "create_group api app g t seen n = (Ret r, n')"
    and "g \<in> mb_hosted (membership_of n) \<or> spec_type t (membership_of n) \<in> mb_types (membership_of n)"
  shows "r = (if \<exists>m \<in> set seen. is_leader g m then Inr () else Inl CANCELLED)
    \<and> manager_inv n' \<and> g \<in> mb_hosted (membership_of n') \<and> g \<in> mb_managed (membership_of n')"
proof -
  obtain c where j: "joinRaftGroup api app (nd_srv_id n) g t (touch_leader g n) = (Ret c, n')"
    and r: "Ret r = (if c \<noteq> OK then Ret (Inl c) else run_bind (wait_for (\<lambda>n. Ret (is_leader g n)) seen)
       (\<lambda>b. Ret (if b then Inr () else Inl CANCELLED)))"
    using assms(2) by (auto simp: create_group_def Let_def split: if_splits prod.splits run.splits)
  have "c = OK"
    using join_outcome [OF _ _ j] assms(1,3) by (simp add: manager_inv_def)
  with r wait_for_Ret [of seen "\<lambda>n. Ret (is_leader g n)"]
  have "r = (if \<exists>m \<in> set seen. is_leader g m then Inr () else Inl CANCELLED)" by simp
  moreover have "manager_inv n' \<and> membership_of n' = spec_host g t (membership_of n)"
    by (rule create_group_refines [OF assms(1,2)])
  moreover have "g \<in> mb_hosted (membership_of n) \<longrightarrow> g \<in> mb_managed (membership_of n)"
    using assms(1) by (auto simp: membership_of_def manager_inv_def node_inv_def servers_ok_def om_keys_iff)
  ultimately show ?thesis using assms(3) by (auto simp: spec_host_def)
qed

lemma create_group_outcome_witness:
  "\<exists>n'. create_group sample_api sample_app 7 ''t'' [set_leader 7 True sample_node] sample_node = (Ret (Inr ()), n')
    \<and> 7 \<in> mb_hosted (membership_of n')"
proof -
  let ?r = "create_group sample_api sample_app 7 ''t'' [set_leader 7 True sample_node] sample_node"
  have r: "?r = (Ret (Inr ()), snd ?r)"
    by (simp add: prod_eq_iff create_group_def touch_leader_def joinRaftGroup_def join_check_def group_init_def
        group_state_mgr_def om_emplace_def set_leader_def is_leader_def Let_def sample_defs)
  have "spec_type ''t'' (membership_of sample_node) \<in> mb_types (membership_of sample_node)"
    by (simp add: membership_of_def spec_type_def sample_fields om_keys_Cons)
  with create_group_outcome [OF sample_manager_inv(1) r] r show ?thesis by metis
qed

text \<open>
  Handlers survive a restart. When the gRPC library makes a new server and accepts
  every registration, \<open>restart_server\<close> returns with a running server that has the RAFT
  step bound and, with the data channel on, exactly the handlers of the request map; the
  groups are untouched.
\<close>

lemma restart_rebinds_handlers:
  assumes "manager_inv n" and "register_async_generic_ok env" and "register_async_service_ok env"
    and "register_rpc_ok env" and "\<forall>name. register_generic_rpc_ok env name"
  shows "\<exists>n' srv. restart_server env (Ret True) n = (Ret (), n') \<and> nd_grpc_server n' = Some srv
    \<and> gs_running srv \<and> gs_async_service srv \<and> gs_raft_step srv
    \<and> gs_rpcs srv = (if nd_data_service_enabled n then ds_request_map (nd_data_service n) else [])
    \<and> manager_inv n' \<and> membership_of n' = membership_of n"
proof -
  obtain srv where b: "ds_bind_all env (nd_data_service n) ((grpc_srv_new\<lparr>gs_generic_service := True,
      gs_async_service := True\<rparr>)\<lparr>gs_running := True\<rparr>) = (Ret (), srv)"
    using ds_bind_loop_Ret_iff [of env "ds_request_map (nd_data_service n)"] assms(5)
    by (metis (no_types, lifting) ds_bind_all_def prod.collapse)
  have srv: "srv = (grpc_srv_new\<lparr>gs_generic_service := True, gs_async_service := True\<rparr>)
      \<lparr>gs_running := True, gs_rpcs := ds_request_map (nd_data_service n)\<rparr>"
    using ds_bind_loop_rpcs [OF b [unfolded ds_bind_all_def]] by (simp add: grpc_srv_new_def)
  have set: "ds_bind_all env (nd_data_service n\<lparr>ds_server_set := True\<rparr>) s = ds_bind_all env (nd_data_service n) s" for s
    by (simp add: ds_bind_all_def)
  show ?thesis
    using assms(1-4) b srv
    by (simp add: set restart_server_def proto_associate_def svc_associate_def ds_associate_def proto_bind_def svc_bind_def
        ds_set_grpc_server_def grpc_srv_new_def manager_inv_def node_inv_defs membership_of_def is_leader_def)
qed

lemma restart_rebinds_handlers_witness:
  "\<exists>n' srv. restart_server sample_env (Ret True) sample_served = (Ret (), n') \<and> nd_grpc_server n' = Some srv
    \<and> gs_running srv \<and> gs_raft_step srv \<and> gs_rpcs srv = []"
  using restart_rebinds_handlers [OF sample_served_manager(1), of sample_env]
  by (auto simp: sample_env_def sample_served_manager)

lemma svc_shutdown_keeps_server: "nd_grpc_server (svc_shutdown_loop api es n) = nd_grpc_server n"
  by (induction api es n rule: svc_shutdown_loop.induct)
    (simp_all add: stop_entry_def shutdown_for_def upd_server_def Let_def)

text \<open>
  A node whose gRPC server could not be made cannot be destroyed safely.
  \<open>init_messaging\<close> only logs the failure and returns a usable manager without a server;
  its destructor then shuts down the groups and calls \<open>shutdown()\<close> through the null
  \<open>_grpc_server\<close> pointer.
\<close>

lemma destructor_without_grpc_server:
  assumes "app_alive app" and "made = Ret False \<or> (\<exists>e. made = Runtime_error e)"
  shows "\<exists>n. init_messaging h env made app uuid t metrics data = (Ret (), n :: ('p, 'srv, 'h) node)
    \<and> manager_inv n \<and> fst (manager_dtor api n) = Crash"
  using assms
  by (auto simp: init_messaging_def start_def msg_service_new_def restart_server_def manager_new_def manager_inv_def node_inv_defs
      manager_dtor_def svc_shutdown_def svc_shutdown_keeps_server Let_def)

lemma destructor_without_grpc_server_witness:
  "\<exists>n. init_messaging (\<lambda>_. 0) sample_env (Ret False) sample_app 5 ''t'' True True = (Ret (), n :: (nat, sample_srv, nat) node)
    \<and> fst (manager_dtor sample_api n) = Crash"
  using destructor_without_grpc_server [of sample_app "Ret False" "\<lambda>_. 0" sample_env 5 "''t''" True True sample_api]
  by (auto simp: sample_fields)

text \<open>
  Server ids are never negative: \<open>to_server_id\<close> keeps 31 bits of the hash, so the
  \<open>int32_t\<close> it returns lies between 0 and \<open>2\<^sup>31 - 1\<close> and no peer's id can be mistaken for
  the negative ids that mean an unknown leader.
\<close>

lemma server_id_not_negative:
  "0 \<le> sint (to_server_id uuid_hasher p) \<and> sint (to_server_id uuid_hasher p) = uint (uuid_hasher p) div 2 ^ 33"
proof -
  have "uint (uuid_hasher p) < 2 ^ 64" using uint_lt2p [of "uuid_hasher p"] by simp
  then have lt: "uint (uuid_hasher p) div 2 ^ 33 < 2 ^ 31" by simp
  have "uint (drop_bit 33 (uuid_hasher p)) = uint (uuid_hasher p) div 2 ^ 33"
    unfolding drop_bit_eq_div by (simp add: uint_div_distrib)
  with lt have "uint (to_server_id uuid_hasher p) = uint (uuid_hasher p) div 2 ^ 33"
    unfolding to_server_id_def unsigned_ucast_eq
    by (simp add: take_bit_int_eq_self_iff pos_imp_zdiv_nonneg_iff)
  moreover have nn: "0 \<le> uint (uuid_hasher p) div 2 ^ 33" by (simp add: pos_imp_zdiv_nonneg_iff)
  moreover have "signed_take_bit 31 (uint (uuid_hasher p) div 2 ^ 33) = uint (uuid_hasher p) div 2 ^ 33"
    by (rule signed_take_bit_int_eq_self) (use lt nn in linarith)+
  ultimately have "sint (to_server_id uuid_hasher p) = uint (uuid_hasher p) div 2 ^ 33"
    by (simp add: sint_uint)
  with nn show ?thesis by simp
qed

end
