(* ===== verification/Data_Channel.thy ===== *)
theory Data_Channel
  imports Repl_Ctx Membership
begin

text \<open>
  The data channel from one node to another: the client end of \<open>mesg_factory\<close>, the request
  map and the gRPC server of the peer, the handler with its response, and the completion.
\<close>

section \<open>Dispatch\<close>

text \<open>
  The gRPC server looks up the method name in the table of registered calls. The table and the
  request map agree as long as every registration was accepted.
\<close>

definition dispatch :: "('p, 'srv, 'h) node \<Rightarrow> string \<Rightarrow> 'h option" where
  "dispatch n meth = (case nd_grpc_server n of None \<Rightarrow> None | Some srv \<Rightarrow> map_of (gs_rpcs srv) meth)"

definition data_synced :: "('p, 'srv, 'h) node \<Rightarrow> bool" where
  "data_synced n \<longleftrightarrow>
     (\<exists>srv. nd_grpc_server n = Some srv \<and> gs_rpcs srv = ds_request_map (nd_data_service n))"

text \<open>A call as it arrives.\<close>

definition generic_rpc_new :: "buffer \<Rightarrow> generic_rpc" where
  "generic_rpc_new payload = \<lparr>gr_request = payload, gr_response = None\<rparr>"

lemma dispatch_synced: "data_synced n \<Longrightarrow> dispatch n meth = map_of (ds_request_map (nd_data_service n)) meth"
  by (auto simp: data_synced_def dispatch_def)

lemma bind_request_synced:
  assumes "bind_data_service_request io env name gid (Some cb) n = (Ret True, n1)" and "data_synced n"
  shows "data_synced n1 \<and> nd_data_service_enabled n1 \<and> nd_started n1 \<and>
    map_of (ds_request_map (nd_data_service n)) (get_generic_method_name io name gid) = None \<and>
    ds_request_map (nd_data_service n1) =
      ds_request_map (nd_data_service n) @ [(get_generic_method_name io name gid, cb)]"
  using assms
  by (auto simp: bind_data_service_request_def svc_bind_data_service_request_def ds_bind_def register_generic_rpc_def
      data_synced_def Let_def case_prod_unfold split: if_splits option.splits)

lemma ds_bind_all_rpcs:
  assumes "fst (ds_bind_all env ds srv) = Ret ()"
  shows "gs_rpcs (snd (ds_bind_all env ds srv)) = gs_rpcs srv @ ds_request_map ds"
proof -
  obtain srv' where "ds_bind_loop env (ds_request_map ds) srv = (Ret (), srv')"
    using assms by (metis ds_bind_all_def prod.collapse)
  then show ?thesis using ds_bind_loop_rpcs [of env "ds_request_map ds" srv srv'] by (simp add: ds_bind_all_def)
qed

lemma restart_synced:
  assumes "restart_server env (Ret True) n = (Ret (), n')" and "nd_data_service_enabled n"
  shows "data_synced n' \<and> ds_request_map (nd_data_service n') = ds_request_map (nd_data_service n)"
  using assms
  by (auto simp: restart_server_def proto_associate_def svc_associate_def ds_associate_def proto_bind_def svc_bind_def
      ds_set_grpc_server_def data_synced_def grpc_srv_new_def ds_bind_all_rpcs Let_def case_prod_unfold
      split: if_splits run.splits prod.splits)

lemma data_request_method:
  assumes "data_service_request_bidirectional io env mf (Some (Inr p)) name st = Ret (Inr [(m, meth)], st')"
  shows "meth = get_generic_method_name io name (mf_group_id mf)"
  using assms
  by (auto simp: data_service_request_bidirectional_def data_request_new_def proto_data_request_def run_bind_Ret_iff Let_def
      split: option.splits if_splits)

section \<open>From the request to the answer\<close>

text \<open>A handler that answers a call with \<open>respond\<close> of what came in.\<close>

definition answering :: "(buffer \<Rightarrow> buffer list) \<Rightarrow> generic_rpc \<Rightarrow> generic_rpc run" where
  "answering respond rpc = send_data_service_response (respond (gr_request rpc)) (Some rpc)"

lemma answering_call:
  "generic_handler_cb (answering respond) (generic_rpc_new payload) =
     Ret (\<lparr>gr_request = payload, gr_response = Some (concat (respond payload))\<rparr>, False)"
  by (simp add: generic_handler_cb_def answering_def send_data_service_response_def generic_rpc_new_def)

text \<open>
  C7: The data channel, end to end. Once a node has accepted a handler for a request name and
  a group, a bidirectional request of that name sent by a client of that group names the
  method under which the node's gRPC server finds this handler. Its response comes back to
  the caller unchanged, with the connection not marked as bad. Every other pair of name and
  group is dispatched as before, and after a restart of the server the same method still
  finds the handler, and every other one what it found.
\<close>

theorem data_request_end_to_end:
  assumes "uuid_io_ok io" and "data_synced n"
    and "bind_data_service_request io genv name (mf_group_id mf) (Some (answering respond)) n = (Ret True, n1)"
    and "data_service_request_bidirectional io env mf (Some (Inr p)) name st = Ret (Inr [(m, meth)], st')"
  shows "(\<exists>h rpc. dispatch n1 meth = Some h \<and> generic_handler_cb h (generic_rpc_new payload) = Ret (rpc, False) \<and>
      bidirectional_complete m (Inr (the (gr_response rpc))) (st_heap st') =
        (Inr (concat (respond payload)), st_heap st')) \<and>
    (\<forall>name' g. (name', g) \<noteq> (name, mf_group_id mf) \<longrightarrow>
      dispatch n1 (get_generic_method_name io name' g) = dispatch n (get_generic_method_name io name' g)) \<and>
    (\<forall>n2. restart_server genv (Ret True) n1 = (Ret (), n2) \<longrightarrow> dispatch n2 = dispatch n1)"
proof -
  note meth = data_request_method [OF assms(4)]
  from bind_request_synced [OF assms(3,2)]
  have sync: "data_synced n1" "nd_data_service_enabled n1"
    and map: "map_of (ds_request_map (nd_data_service n)) meth = None"
      "ds_request_map (nd_data_service n1) = ds_request_map (nd_data_service n) @ [(meth, answering respond)]"
    by (simp_all add: meth)
  have "dispatch n1 meth = Some (answering respond)"
    using map by (simp add: dispatch_synced [OF sync(1)] map_add_def)
  moreover have "dispatch n1 (get_generic_method_name io name' g) = dispatch n (get_generic_method_name io name' g)"
    if "(name', g) \<noteq> (name, mf_group_id mf)" for name' g
    using that get_generic_method_name_inject [OF assms(1)]
    by (auto simp: dispatch_synced [OF sync(1)] dispatch_synced [OF assms(2)] map(2) meth map_add_def split: option.splits)
  moreover have "dispatch n2 = dispatch n1" if "restart_server genv (Ret True) n1 = (Ret (), n2)" for n2
    using restart_synced [OF that sync(2)] by (auto simp: dispatch_synced sync(1))
  ultimately show ?thesis by (simp add: answering_call bidirectional_complete_def)
qed

definition sample_channel :: "(nat, sample_srv, generic_rpc \<Rightarrow> generic_rpc run) node" where
  "sample_channel =
     \<lparr>nd_srv_id = 1, nd_state_mgr_types = [], nd_state_managers = [], nd_is_leader = [], nd_config_notified = 0,
      nd_started = True, nd_manager_alive = True, nd_metrics_enabled = False, nd_data_service_enabled = True,
      nd_default_group_type = [], nd_service_address = 7, nd_raft_servers = [],
      nd_data_service = data_service_new\<lparr>ds_server_set := True\<rparr>,
      nd_grpc_server = Some (grpc_srv_new\<lparr>gs_running := True\<rparr>), nd_servers = [], nd_smgrs = [], nd_metrics = []\<rparr>"

theorem data_request_end_to_end_witness:
  "\<exists>n1 m meth st' h rpc.
    bind_data_service_request bits_uuid_io sample_env ''put'' 3 (Some (answering (\<lambda>b. [b, [9]]))) sample_channel = (Ret True, n1) \<and>
    data_service_request_bidirectional bits_uuid_io sample_cenv sample_mf (Some (Inr 7)) ''put''
      ([(7, Some 1)], [(7, Some 0)], sample_heap 0) = Ret (Inr [(m, meth)], st') \<and>
    dispatch n1 meth = Some h \<and> generic_handler_cb h (generic_rpc_new [5]) = Ret (rpc, False) \<and>
    bidirectional_complete m (Inr (the (gr_response rpc))) (st_heap st') = (Inr [5, 9], st_heap st')"
proof -
  let ?st = "([(7, Some 1)], [(7, Some 0)], sample_heap 0) :: mf_state"
  have sync: "data_synced sample_channel"
    by (simp add: data_synced_def sample_channel_def data_service_new_def grpc_srv_new_def)
  obtain n1 where b: "bind_data_service_request bits_uuid_io sample_env ''put'' (mf_group_id sample_mf)
      (Some (answering (\<lambda>b. [b, [9]]))) sample_channel = (Ret True, n1)"
    by (simp add: bind_data_service_request_def svc_bind_data_service_request_def ds_bind_def register_generic_rpc_def
        sample_channel_def data_service_new_def grpc_srv_new_def sample_env_def Let_def)
  obtain m meth st' where r: "data_service_request_bidirectional bits_uuid_io sample_cenv sample_mf (Some (Inr 7)) ''put'' ?st =
      Ret (Inr [(m, meth)], st')"
    by (simp add: data_service_request_bidirectional_def proto_cast_def reinitRequired_def proto_data_request_def Let_def)
  have "mf_group_id sample_mf = 3" by (simp add: sample_mf_def)
  with data_request_end_to_end [OF bits_uuid_io_ok sync b r, of "[5]"] b r show ?thesis by auto
qed

end
