(* ===== verification/Client_Types.thy ===== *)
theory Client_Types
  imports Client_Requests
begin

text \<open>
  The client objects of a process are used through two kinds of casts: \<open>dynamic_pointer_cast\<close>
  in the factories and in the data requests, and the \<open>static_cast<grpc_proto_client*>(this)\<close>
  in \<open>grpc_base_client::send\<close>, which is undefined on any other object. This theory gives the
  caches and the store a typing and shows that every operation of every group's factory, in
  any order, keeps it, so that no cast fails.
\<close>

section \<open>Typing\<close>

text \<open>A wrapper always has a connection. This is about every wrapper, cached or not.\<close>

definition heap_typed :: "client_heap \<Rightarrow> bool" where
  "heap_typed h \<longleftrightarrow>
     (\<forall>a i c ad g t. obj_at h a = Some (Proto_client i c ad g t) \<longrightarrow> (\<exists>m. c = Some m \<and> is_messaging_at h m))"

text \<open>What an object keeps for life: its class, its id and its address, peer and group.\<close>

fun fixed_part :: "client_obj \<Rightarrow> client_obj" where
  "fixed_part (Messaging_client i ad _) = Messaging_client i ad 0"
| "fixed_part (Proto_client i _ ad g t) = Proto_client i None ad g t"
| "fixed_part (Error_client i) = Error_client i"

definition keeps_class :: "client_heap \<Rightarrow> client_heap \<Rightarrow> bool" where
  "keeps_class h h' \<longleftrightarrow>
     (\<forall>a ob. obj_at h a = Some ob \<longrightarrow> (\<exists>ob'. obj_at h' a = Some ob' \<and> fixed_part ob' = fixed_part ob))"

text \<open>
  The factories of a process: the cache of each group's factory, the cache of the process's
  own and the store they share.
\<close>

record fleet =
  fl_clients :: "nat \<Rightarrow> clients"
  fl_group :: clients
  fl_heap :: client_heap

definition fleet_new :: fleet where
  "fleet_new = \<lparr>fl_clients = (\<lambda>_. []), fl_group = [], fl_heap = \<lparr>h_counter = 0, h_objs = []\<rparr>\<rparr>"

definition fleet_view :: "nat \<Rightarrow> fleet \<Rightarrow> mf_state" where
  "fleet_view k s = (fl_clients s k, fl_group s, fl_heap s)"

definition fleet_put :: "nat \<Rightarrow> mf_state \<Rightarrow> fleet \<Rightarrow> fleet" where
  "fleet_put k st s = \<lparr>fl_clients = (fl_clients s)(k := fst st), fl_group = fst (snd st), fl_heap = snd (snd st)\<rparr>"

definition fleet_typed :: "uuid_io \<Rightarrow> (nat \<Rightarrow> mesg_factory) \<Rightarrow> fleet \<Rightarrow> bool" where
  "fleet_typed io mfs s \<longleftrightarrow> heap_typed (fl_heap s) \<and> (\<forall>k. st_ok io (mfs k) (fleet_view k s))"

text \<open>
  What the factories do: lookups for the RAFT library and for others, data requests, client
  requests and the handling of their responses, and the completions of calls. What the
  application and the network answer is arbitrary at every step.
\<close>

inductive fleet_step ::
  "uuid_io \<Rightarrow> msg_types \<Rightarrow> entry_codec \<Rightarrow> (nat \<Rightarrow> mesg_factory) \<Rightarrow> fleet \<Rightarrow> fleet \<Rightarrow> bool"
  for io mt ec mfs where
  lookup: "mf_create_or_reinit io env (mfs k) p f (fleet_view k s) = Ret (q, st) \<Longrightarrow>
     fleet_step io mt ec mfs s (fleet_put k st s)"
| group_lookup: "gf_create_or_reinit env p f (fl_group s, fl_heap s) = Ret (q, gcl, h) \<Longrightarrow>
     fleet_step io mt ec mfs s (s\<lparr>fl_group := gcl, fl_heap := h\<rparr>)"
| unidirectional: "data_service_request_unidirectional io env (mfs k) dest name (fleet_view k s) = Ret (r, st) \<Longrightarrow>
     fleet_step io mt ec mfs s (fleet_put k st s)"
| bidirectional: "data_service_request_bidirectional io env (mfs k) dest name (fleet_view k s) = Ret (r, st) \<Longrightarrow>
     fleet_step io mt ec mfs s (fleet_put k st s)"
| request: "start_request io mt ec env (mfs k) payload addr cfg (fleet_view k s) = Ret (ar, st) \<Longrightarrow>
     fleet_step io mt ec mfs s (fleet_put k st s)"
| response: "respHandler io mt ec env (mfs k) ctx rsp err (fleet_view k s) = Ret (hs, st) \<Longrightarrow>
     fleet_step io mt ec mfs s (fleet_put k st s)"
| raft_completed: "fleet_step io mt ec mfs s (s\<lparr>fl_heap := send_grp_complete m status (fl_heap s)\<rparr>)"
| data_completed: "bidirectional_complete m (reply :: grpc_status + buffer) (fl_heap s) = (r, h) \<Longrightarrow>
     fleet_step io mt ec mfs s (s\<lparr>fl_heap := h\<rparr>)"

inductive fleet_run :: "uuid_io \<Rightarrow> msg_types \<Rightarrow> entry_codec \<Rightarrow> (nat \<Rightarrow> mesg_factory) \<Rightarrow> fleet \<Rightarrow> bool"
  for io mt ec mfs where
  start: "fleet_run io mt ec mfs fleet_new"
| step: "fleet_run io mt ec mfs s \<Longrightarrow> fleet_step io mt ec mfs s s' \<Longrightarrow> fleet_run io mt ec mfs s'"

section \<open>The factories keep the store typed\<close>

lemma heap_typed_ext:
  assumes "heap_typed h" and "heap_ext h h'"
    and "\<And>a i c ad g t. obj_at h' a = Some (Proto_client i c ad g t) \<Longrightarrow> obj_at h a = None \<Longrightarrow>
      \<exists>m. c = Some m \<and> is_messaging_at h' m"
  shows "heap_typed h'"
  unfolding heap_typed_def
proof (intro allI impI)
  fix a i c ad g t
  assume a: "obj_at h' a = Some (Proto_client i c ad g t)"
  show "\<exists>m. c = Some m \<and> is_messaging_at h' m"
  proof (cases "obj_at h a")
    case (Some ob)
    with a assms(2) have "obj_at h a = Some (Proto_client i c ad g t)" by (auto simp: heap_ext_def)
    with assms(1) heap_ext_messaging [OF assms(2)] show ?thesis unfolding heap_typed_def by blast
  qed (use assms(3) [OF a] in simp)
qed

lemma heap_typed_new:
  assumes "heap_typed h" and "\<And>j i c ad g t. mk j = Proto_client i c ad g t \<Longrightarrow> \<exists>m. c = Some m \<and> is_messaging_at h m"
  shows "heap_typed (snd (new_obj mk h))"
proof (rule heap_typed_ext [OF assms(1)])
  fix a i c ad g t
  assume "obj_at (snd (new_obj mk h)) a = Some (Proto_client i c ad g t)" and "obj_at h a = None"
  then have "mk (h_counter h) = Proto_client i c ad g t" by (auto split: if_splits)
  from assms(2) [OF this] show "\<exists>m. c = Some m \<and> is_messaging_at (snd (new_obj mk h)) m"
    using heap_ext_messaging [OF heap_ext_new(1)] by blast
qed simp

lemma heap_typed_counter [simp]: "heap_typed (h\<lparr>h_counter := c\<rparr>) \<longleftrightarrow> heap_typed h"
  by (simp add: heap_typed_def is_messaging_at_def)

lemma gf_create_typed:
  assumes "heap_typed h" and "gf_create_client env p slot h = Ret (c, slot', h')"
  shows "heap_typed h'"
  using assms heap_typed_new [OF assms(1), of "\<lambda>i. Messaging_client i (ce_lookup_endpoint env p) 0"]
  by (auto simp: gf_create_client_def Let_def case_prod_unfold split: if_splits option.splits)

interpretation gft: client_factory "gf_create_client env" "gf_reinit_client env" gf_error
  heap_typed gf_proper is_error_at heap_ext for env
proof unfold_locales
  fix h slot p
  assume "heap_typed h" and "\<And>a. slot = Some a \<Longrightarrow> gf_proper h p a"
  then show "\<exists>c slot' h'. gf_create_client env p slot h = Ret (c, slot', h') \<and> heap_typed h' \<and> (c = OK \<longrightarrow> slot' \<noteq> None)
    \<and> (\<forall>a. slot' = Some a \<longrightarrow> gf_proper h' p a) \<and> heap_ext h h'"
    using gf.create_law [OF TrueI, of slot h p env] gf_create_typed by blast
next
  fix h p a
  assume h: "heap_typed h" and "gf_proper h p a"
  then obtain c slot' h' where r: "gf_reinit_client env p (Some a) h = Ret (c, slot', h')" "c = OK \<longrightarrow> slot' \<noteq> None"
      "\<forall>a. slot' = Some a \<longrightarrow> gf_proper h' p a" "heap_ext h h'"
    using gf.reinit_law [OF TrueI, of h p a env] by blast
  moreover have "heap_typed h'"
    using r(1) h gf_create_typed [OF h]
    by (auto simp: gf_reinit_client_def split: option.splits client_obj.splits if_splits)
  ultimately show "\<exists>c slot' h'. gf_reinit_client env p (Some a) h = Ret (c, slot', h') \<and> heap_typed h' \<and> (c = OK \<longrightarrow> slot' \<noteq> None)
    \<and> (\<forall>a. slot' = Some a \<longrightarrow> gf_proper h' p a) \<and> heap_ext h h'"
    by blast
next
  fix h e h'
  assume "heap_typed h" and "gf_error h = (e, h')"
  then show "heap_typed h' \<and> is_error_at h' e \<and> heap_ext h h'"
    using gf.error_law [OF TrueI, of h e h'] heap_typed_new [of h Error_client] by (auto simp: gf_error_def)
qed (use gf.ext_proper gf.ext_trans in blast)+

text \<open>The same for a group's factory, on top of the process's.\<close>

definition mf_typed :: "shared_clients \<Rightarrow> bool" where
  "mf_typed s \<longleftrightarrow> mf_inv s \<and> heap_typed (snd s)"

lemma mf_messaging_typed:
  assumes "mf_typed s" and "mf_messaging_client env p s = Ret (m, s')"
  shows "mf_typed s' \<and> (\<forall>a. m = Some a \<longrightarrow> is_messaging_at (snd s') a)"
  using gft.create_or_reinit_safe [where s = "snd s" and cl = "fst s" and env = env and p = p and f = False] assms
  by (cases s) (auto simp: mf_typed_def mf_inv_def mf_messaging_client_def gf_create_or_reinit_def split: if_splits)

lemma heap_typed_upd:
  assumes "heap_typed h" and "obj_at h a = Some (Proto_client i c ad g t)" and "is_messaging_at h m"
  shows "heap_typed (upd_obj a (Proto_client i (Some m) ad g t) h)"
proof -
  let ?h = "upd_obj a (Proto_client i (Some m) ad g t) h"
  have keep: "is_messaging_at ?h b" if "is_messaging_at h b" for b
    using that assms(2) by (auto simp: is_messaging_iff)
  show ?thesis
    unfolding heap_typed_def
  proof (intro allI impI)
    fix b j c' ad' g' t'
    assume b: "obj_at ?h b = Some (Proto_client j c' ad' g' t')"
    show "\<exists>m. c' = Some m \<and> is_messaging_at ?h m"
    proof (cases "b = a")
      case True
      with b assms(2) have "c' = Some m" by simp
      with keep [OF assms(3)] show ?thesis by blast
    next
      case False
      with b have "obj_at h b = Some (Proto_client j c' ad' g' t')" by simp
      with assms(1) keep show ?thesis unfolding heap_typed_def by blast
    qed
  qed
qed

lemma mf_create_typed:
  assumes "mf_typed s" and "mf_create_client io env mf p slot s = Ret (c, slot', s')"
  shows "heap_typed (snd s')"
proof -
  obtain m gcl h where m: "mf_messaging_client env p s = Ret (m, gcl, h)"
    using mf_messaging_law [of s env p] assms(1) by (auto simp: mf_typed_def)
  note typed = mf_messaging_typed [OF assms(1) m]
  show ?thesis
  proof (cases m)
    case None
    with assms(2) m typed show ?thesis by (auto simp: mf_create_client_def mf_typed_def)
  next
    case (Some b)
    with assms(2) m typed heap_typed_new [of h "\<lambda>i. Proto_client i (Some b) (to_string io p) (mf_group_id mf) (mf_group_type mf)"]
    show ?thesis by (auto simp: mf_create_client_def mf_typed_def Let_def case_prod_unfold)
  qed
qed

lemma mf_reinit_typed:
  assumes "mf_typed s" and "mf_reinit_client env p slot s = Ret (c, slot', s')"
  shows "heap_typed (snd s')"
proof -
  obtain m gcl h where m: "mf_messaging_client env p s = Ret (m, gcl, h)" and ext: "heap_ext (snd s) h"
    using mf_messaging_law [of s env p] assms(1) by (auto simp: mf_typed_def)
  note typed = mf_messaging_typed [OF assms(1) m]
  show ?thesis
  proof (cases "\<exists>a i d ad g t. slot = Some a \<and> obj_at (snd s) a = Some (Proto_client i d ad g t)")
    case True
    then obtain a i d ad g t where a: "slot = Some a" "obj_at (snd s) a = Some (Proto_client i d ad g t)" by blast
    with ext have "obj_at h a = Some (Proto_client i d ad g t)" by (simp add: heap_ext_def)
    with a assms(2) m typed heap_typed_upd [of h a i d ad g t] show ?thesis
      by (auto simp: mf_reinit_client_def mf_typed_def split: option.splits)
  next
    case False
    with assms have "s' = s"
      by (auto simp: mf_reinit_client_def split: option.splits client_obj.splits)
    with assms(1) show ?thesis by (simp add: mf_typed_def)
  qed
qed

interpretation mft: client_factory "mf_create_client io env mf" "mf_reinit_client env" mf_error
  mf_typed "mf_proper io mf" mf_failed mf_ext for io env mf
proof unfold_locales
  fix s slot p
  assume s: "mf_typed s" and "\<And>a. slot = Some a \<Longrightarrow> mf_proper io mf s p a"
  then have "\<exists>c slot' s'. mf_create_client io env mf p slot s = Ret (c, slot', s') \<and> mf_inv s' \<and> (c = OK \<longrightarrow> slot' \<noteq> None)
    \<and> (\<forall>a. slot' = Some a \<longrightarrow> mf_proper io mf s' p a) \<and> mf_ext s s'"
    by (intro mf.create_law) (auto simp: mf_typed_def)
  with mf_create_typed [OF s] show "\<exists>c slot' s'. mf_create_client io env mf p slot s = Ret (c, slot', s') \<and> mf_typed s' \<and> (c = OK \<longrightarrow> slot' \<noteq> None)
    \<and> (\<forall>a. slot' = Some a \<longrightarrow> mf_proper io mf s' p a) \<and> mf_ext s s'"
    unfolding mf_typed_def by blast
next
  fix s p a
  assume s: "mf_typed s" and "mf_proper io mf s p a"
  then have "\<exists>c slot' s'. mf_reinit_client env p (Some a) s = Ret (c, slot', s') \<and> mf_inv s' \<and> (c = OK \<longrightarrow> slot' \<noteq> None)
    \<and> (\<forall>a. slot' = Some a \<longrightarrow> mf_proper io mf s' p a) \<and> mf_ext s s'"
    by (intro mf.reinit_law) (auto simp: mf_typed_def)
  with mf_reinit_typed [OF s] show "\<exists>c slot' s'. mf_reinit_client env p (Some a) s = Ret (c, slot', s') \<and> mf_typed s' \<and> (c = OK \<longrightarrow> slot' \<noteq> None)
    \<and> (\<forall>a. slot' = Some a \<longrightarrow> mf_proper io mf s' p a) \<and> mf_ext s s'"
    unfolding mf_typed_def by blast
next
  fix s e s'
  assume s: "mf_typed s" and e: "mf_error s = (e, s')"
  then have "s' = (fst s, snd (new_obj Error_client (snd s)))"
    by (simp add: mf_error_def Let_def case_prod_unfold)
  with s heap_typed_new [of "snd s" Error_client] mf.error_law [OF _ e]
  show "mf_typed s' \<and> mf_failed s' e \<and> mf_ext s s'" by (simp add: mf_typed_def)
qed (use mf.ext_proper mf.ext_trans in blast)+

section \<open>Operations on a view\<close>

definition typed_ok :: "uuid_io \<Rightarrow> mesg_factory \<Rightarrow> mf_state \<Rightarrow> bool" where
  "typed_ok io mf st \<longleftrightarrow> mf_typed (snd st) \<and> clients_ok (mf_proper io mf) (fst st) (snd st)"

lemma typed_ok_iff: "typed_ok io mf st \<longleftrightarrow> st_ok io mf st \<and> heap_typed (st_heap st)"
  by (auto simp: typed_ok_def st_ok_def mf_typed_def)

text \<open>An operation that returns keeps the typing and every object.\<close>

definition op_typed :: "uuid_io \<Rightarrow> mesg_factory \<Rightarrow> mf_state \<Rightarrow> mf_state \<Rightarrow> bool" where
  "op_typed io mf st st' \<longleftrightarrow> (typed_ok io mf st \<longrightarrow> typed_ok io mf st' \<and> mf_ext (snd st) (snd st'))"

lemma op_typed_refl [simp]: "op_typed io mf st st"
  by (simp add: op_typed_def mf_ext_def)

lemma lookup_typed:
  assumes "mf_create_or_reinit io env mf p f st = Ret (q, st')"
  shows "op_typed io mf st st'"
proof -
  obtain cl s where st: "st = (cl, s)" by (cases st)
  obtain cl' s' where st': "st' = (cl', s')" by (cases st')
  show ?thesis
    using mft.create_or_reinit_safe [where s = s and cl = cl and env = env and p = p and f = f and io = io and mf = mf] assms
    unfolding op_typed_def typed_ok_def st st' mf_create_or_reinit_def by auto
qed

lemma lookup_client_typed:
  "lookup_client io env mf name st = Ret (q, st') \<Longrightarrow> op_typed io mf st st'"
  by (cases st) (auto simp: lookup_client_def client_by_name_def split: option.splits dest: lookup_typed)

lemma respHandler_typed:
  "respHandler io mt ec env mf ctx rsp err st = Ret (hs, st') \<Longrightarrow> op_typed io mf st st'"
  by (auto simp: respHandler_def Let_def run_bind_Ret_iff split: option.splits if_splits dest: lookup_client_typed)

lemma start_request_typed:
  assumes "start_request io mt ec env mf payload addr cfg st = Ret (r, st')"
  shows "op_typed io mf st st'"
proof -
  obtain c st1 where c: "lookup_client io env mf (sc_endpoint cfg) st = Ret (c, st1)"
    using assms by (auto simp: start_request_def run_bind_Ret_iff)
  have "op_typed io mf st1 st'"
  proof (cases c)
    case None
    with assms c show ?thesis by (simp add: start_request_def)
  next
    case (Some a)
    with assms c obtain x where
      x: "client_send io (st_heap st1) a (createMessage io mt ec payload addr) = Ret x"
      by (auto simp: start_request_def run_bind_Ret_iff Let_def)
    with assms c Some show ?thesis
      by (cases x) (auto simp: start_request_def run_bind_Ret_iff Let_def dest: respHandler_typed)
  qed
  with lookup_client_typed [OF c] mf_ext_trans show ?thesis unfolding op_typed_def by blast
qed

lemma data_request_new_typed:
  "data_request_new io env mf p method st = Ret (r, st') \<Longrightarrow> op_typed io mf st st'"
  by (auto simp: data_request_new_def run_bind_Ret_iff split: option.splits dest: lookup_typed)

lemma data_requests_typed:
  "data_service_request_unidirectional io env mf dest name st = Ret (r, st') \<Longrightarrow> op_typed io mf st st'"
  "data_service_request_bidirectional io env mf dest name st = Ret (r, st') \<Longrightarrow> op_typed io mf st st'"
  by (auto simp: data_service_request_unidirectional_def data_service_request_bidirectional_def run_bind_Ret_iff Let_def
      split: option.splits sum.splits if_splits dest: data_request_new_typed)

section \<open>The fleet\<close>

lemma fleet_typed_iff: "fleet_typed io mfs s \<longleftrightarrow> (\<forall>k. typed_ok io (mfs k) (fleet_view k s))"
  by (auto simp: fleet_typed_def typed_ok_iff fleet_view_def)

lemma keeps_class_ext: "mf_ext s s' \<Longrightarrow> keeps_class (snd s) (snd s')"
  unfolding mf_ext_def keeps_class_def by (metis fixed_part.simps(2))

lemma clients_ok_ext:
  "clients_ok (mf_proper io mf) cl s \<Longrightarrow> mf_ext s s' \<Longrightarrow> clients_ok (mf_proper io mf) cl s'"
  by (erule clients_ok_mono) (rule mf_proper_ext)

lemma fleet_put_typed:
  assumes "fleet_typed io mfs s" and "op_typed io (mfs k) (fleet_view k s) st"
  shows "fleet_typed io mfs (fleet_put k st s) \<and> keeps_class (fl_heap s) (fl_heap (fleet_put k st s))"
proof -
  obtain cl gcl h where st: "st = (cl, gcl, h)" by (cases st)
  have k: "typed_ok io (mfs k) st" and ext: "mf_ext (fl_group s, fl_heap s) (gcl, h)"
    using assms by (auto simp: fleet_typed_iff op_typed_def fleet_view_def st)
  have "typed_ok io (mfs j) (fleet_view j (fleet_put k st s))" for j
  proof (cases "j = k")
    case True
    with k show ?thesis by (simp add: fleet_view_def fleet_put_def st)
  next
    case False
    have "clients_ok (mf_proper io (mfs j)) (fl_clients s j) (fl_group s, fl_heap s)"
      using assms(1) by (auto simp: fleet_typed_iff typed_ok_def fleet_view_def)
    from clients_ok_ext [OF this ext] k False show ?thesis
      by (simp add: typed_ok_def fleet_view_def fleet_put_def st)
  qed
  with keeps_class_ext [OF ext] show ?thesis by (simp add: fleet_typed_iff fleet_put_def st)
qed

lemma fleet_group_typed:
  assumes "fleet_typed io mfs s" and "gf_create_or_reinit env p f (fl_group s, fl_heap s) = Ret (q, gcl, h)"
  shows "fleet_typed io mfs (s\<lparr>fl_group := gcl, fl_heap := h\<rparr>) \<and> keeps_class (fl_heap s) h"
proof -
  have s: "heap_typed (fl_heap s)" "clients_ok gf_proper (fl_group s) (fl_heap s)"
    using assms(1) by (auto simp: fleet_typed_def st_ok_def mf_inv_def fleet_view_def)
  from gft.create_or_reinit_safe [OF s, of env p f] assms(2)
  have r: "heap_typed h" "clients_ok gf_proper gcl h" "heap_ext (fl_heap s) h"
    by (auto simp: gf_create_or_reinit_def)
  then have ext: "mf_ext (fl_group s, fl_heap s) (gcl, h)" by (intro mf_ext_heap) simp
  have "clients_ok (mf_proper io (mfs k)) (fl_clients s k) (gcl, h)" for k
    using assms(1) ext by (intro clients_ok_ext [OF _ ext]) (auto simp: fleet_typed_def st_ok_def fleet_view_def)
  with r keeps_class_ext [OF ext] show ?thesis
    by (simp add: fleet_typed_def st_ok_def fleet_view_def mf_inv_def)
qed

lemma mark_bad_typed [simp]: "heap_typed (mark_bad m h) \<longleftrightarrow> heap_typed h"
  by (auto simp: heap_typed_def mark_bad_obj split: option.splits client_obj.splits)

lemma mark_bad_keeps: "keeps_class h (mark_bad m h)"
  by (auto simp: keeps_class_def mark_bad_obj split: client_obj.splits)

lemma fleet_mark_bad:
  "fleet_typed io mfs s \<Longrightarrow> fleet_typed io mfs (s\<lparr>fl_heap := mark_bad m (fl_heap s)\<rparr>)"
  by (simp add: fleet_typed_def fleet_view_def)

lemma keeps_class_refl [simp]: "keeps_class h h"
  by (simp add: keeps_class_def)

lemma fleet_step_typed:
  assumes "fleet_step io mt ec mfs s s'" and "fleet_typed io mfs s"
  shows "fleet_typed io mfs s' \<and> keeps_class (fl_heap s) (fl_heap s')"
  using assms
proof (cases rule: fleet_step.cases)
  case (raft_completed m status)
  with assms(2) show ?thesis by (simp add: send_grp_complete_def fleet_mark_bad mark_bad_keeps)
next
  case (data_completed m reply r h)
  with assms(2) show ?thesis
    by (auto simp: bidirectional_complete_def fleet_mark_bad mark_bad_keeps split: sum.splits)
next
  case (group_lookup env p f q gcl h)
  with fleet_group_typed [OF assms(2)] show ?thesis by simp
next
  case (lookup env k p f q st)
  with fleet_put_typed [OF assms(2) lookup_typed] show ?thesis by simp
next
  case (unidirectional env k dest name r st)
  with fleet_put_typed [OF assms(2) data_requests_typed(1)] show ?thesis by simp
next
  case (bidirectional env k dest name r st)
  with fleet_put_typed [OF assms(2) data_requests_typed(2)] show ?thesis by simp
next
  case (request env k payload addr cfg ar st)
  with fleet_put_typed [OF assms(2) start_request_typed] show ?thesis by simp
next
  case (response env k ctx rsp err hs st)
  with fleet_put_typed [OF assms(2) respHandler_typed] show ?thesis by simp
qed

lemma fleet_run_typed: "fleet_run io mt ec mfs s \<Longrightarrow> fleet_typed io mfs s"
proof (induction rule: fleet_run.induct)
  case start
  show ?case
    by (simp add: fleet_typed_def fleet_new_def fleet_view_def st_ok_def mf_inv_def heap_typed_def obj_at_def)
qed (use fleet_step_typed in blast)

text \<open>A client is a wrapper or an error client; both can be sent on.\<close>

lemma client_send_typed:
  assumes "heap_typed h" and "obj_at h a \<noteq> None" and "\<not> is_messaging_at h a"
  shows "\<exists>s. client_send io h a req = Ret s"
proof -
  obtain ob where ob: "obj_at h a = Some ob" using assms(2) by blast
  show ?thesis
  proof (cases ob)
    case (Proto_client i c ad g t)
    with assms(1) ob obtain m where "c = Some m" unfolding heap_typed_def by blast
    with ob Proto_client show ?thesis by (simp add: client_send_def)
  qed (use assms(3) ob in \<open>simp_all add: client_send_def is_messaging_at_def\<close>)
qed

section \<open>Property\<close>



end
