(* ===== verification/Metrics.thy ===== *)
theory Metrics
  imports Proto_Service
begin

text \<open>
  The metrics a process exports: \<open>service_metrics\<close> (\<open>src/proto/proto_service.cpp\<close>) and
  \<open>group_metrics\<close> (\<open>src/lib/service.hpp\<close>). The reporter behind them is library code; what the
  code relies on is described in \<open>docs/incidents\<close>, after two counters that shared one exported
  series had aborted a process.
\<close>

section \<open>Registrations\<close>

datatype metric_kind = Counter | Gauge | Histogram

record metric =
  mx_kind :: metric_kind
  mx_name :: string
  mx_desc :: string
  mx_report_name :: string
  mx_label :: "string \<times> string"

definition raft_pool_msg_count :: metric where
  "raft_pool_msg_count = \<lparr>mx_kind = Counter, mx_name = ''raft_pool_msg_count'',
     mx_desc = ''Messages processed on Raft thread'', mx_report_name = ''raft_service_counter'',
     mx_label = (''op'', ''raft_pool'')\<rparr>"

definition io_pool_msg_count :: metric where
  "io_pool_msg_count = \<lparr>mx_kind = Counter, mx_name = ''io_pool_msg_count'',
     mx_desc = ''Messages routed to I/O pool'', mx_report_name = ''raft_service_counter'',
     mx_label = (''op'', ''io_pool'')\<rparr>"

text \<open>The constructor of \<open>service_metrics\<close>: what it registers, for the instance \<open>global\<close>.\<close>

definition service_metrics :: "metric list" where
  "service_metrics =
     [\<lparr>mx_kind = Histogram, mx_name = ''raft_pool_wait_time_us'', mx_desc = ''Time waiting in raft thread pool queue'',
       mx_report_name = ''raft_service_latency'', mx_label = (''op'', ''raft_pool_wait'')\<rparr>,
      \<lparr>mx_kind = Histogram, mx_name = ''io_pool_wait_time_us'', mx_desc = ''Time waiting in I/O thread pool queue'',
       mx_report_name = ''raft_service_latency'', mx_label = (''op'', ''io_pool_wait'')\<rparr>,
      \<lparr>mx_kind = Gauge, mx_name = ''raft_pool_active_threads'', mx_desc = ''Number of active threads in Raft pool'',
       mx_report_name = ''raft_service_gauge'', mx_label = (''op'', ''raft_pool'')\<rparr>,
      \<lparr>mx_kind = Gauge, mx_name = ''io_pool_active_threads'', mx_desc = ''Number of active threads in I/O pool'',
       mx_report_name = ''raft_service_gauge'', mx_label = (''op'', ''io_pool'')\<rparr>,
      raft_pool_msg_count, io_pool_msg_count]"

text \<open>The constructor of \<open>group_metrics\<close>, for the instance named after the group.\<close>

definition group_metrics_registered :: "metric list" where
  "group_metrics_registered =
     [\<lparr>mx_kind = Counter, mx_name = ''group_steps'', mx_desc = ''Total group messages received'',
       mx_report_name = ''raft_group_cnt'', mx_label = (''op'', ''step_count'')\<rparr>,
      \<lparr>mx_kind = Counter, mx_name = ''group_sends'', mx_desc = ''Total group messages sent'',
       mx_report_name = ''raft_group_cnt'', mx_label = (''op'', ''send_count'')\<rparr>,
      \<lparr>mx_kind = Histogram, mx_name = ''append_entries_latency_us'', mx_desc = ''Latency for processing raft step'',
       mx_report_name = ''raft_group_latency'', mx_label = (''op'', ''append_latency'')\<rparr>]"

section \<open>The reporter\<close>

text \<open>
  \<open>rp_series\<close> is the exported time series of a metric of an instance, \<open>rp_set_value\<close> what
  happens to the exported counter when a new value is published.
\<close>

record 'k reporter =
  rp_series :: "string \<Rightarrow> metric \<Rightarrow> 'k"
  rp_set_value :: "nat \<Rightarrow> nat \<Rightarrow> nat run"

definition reported_name :: "metric \<Rightarrow> string" where
  "reported_name m = (if mx_report_name m = [] then mx_name m else mx_report_name m)"

definition reported_label :: "metric \<Rightarrow> (string \<times> string) option" where
  "reported_label m = (if fst (mx_label m) \<noteq> [] \<and> snd (mx_label m) \<noteq> [] then Some (mx_label m) else None)"

text \<open>
  The behaviour on record: a series is its reported name with the instance and the label,
  and publishing a counter below its exported value fails an assertion.
\<close>

definition reporter_ok :: "'k reporter \<Rightarrow> bool" where
  "reporter_ok rp \<longleftrightarrow>
     (\<forall>e m e' m'. rp_series rp e m = rp_series rp e' m' \<longleftrightarrow>
        e = e' \<and> reported_name m = reported_name m' \<and> reported_label m = reported_label m') \<and>
     (\<forall>old new. rp_set_value rp old new = (if old \<le> new then Ret new else Crash))"

text \<open>A scrape publishes the counters of the service in the order of their registration.\<close>

fun publish_counters :: "'k reporter \<Rightarrow> string \<Rightarrow> (metric \<times> nat) list \<Rightarrow> ('k \<Rightarrow> nat) \<Rightarrow> ('k \<Rightarrow> nat) run" where
  "publish_counters rp e [] reg = Ret reg"
| "publish_counters rp e ((m, v) # vs) reg =
     run_bind (rp_set_value rp (reg (rp_series rp e m)) v)
       (\<lambda>x. publish_counters rp e vs (reg(rp_series rp e m := x)))"

definition scrape :: "'k reporter \<Rightarrow> service_pools \<Rightarrow> ('k \<Rightarrow> nat) \<Rightarrow> ('k \<Rightarrow> nat) run" where
  "scrape rp ps reg =
     publish_counters rp ''global''
       [(raft_pool_msg_count, pl_msg_count (raft_pool ps)), (io_pool_msg_count, pl_msg_count (io_pool ps))] reg"

section \<open>A service that is observed\<close>

text \<open>One step of the service: a call arrives, or a pool does something.\<close>

inductive service_step ::
  "uuid_io \<Rightarrow> msg_types \<Rightarrow> ('p, 'srv) raft_api \<Rightarrow> application \<Rightarrow> ('p, 'srv, 'h) node \<times> service_pools
   \<Rightarrow> ('p, 'srv, 'h) node \<times> service_pools \<Rightarrow> bool"
  for io mt api app where
  receive: "raftStep io mt api app rpc (n, ps) = (Ret now, r, n', ps') \<Longrightarrow>
     service_step io mt api app (n, ps) (n', if now then ps'\<lparr>sent := sent ps' @ [r]\<rparr> else ps')"
| run_pool: "pool_step api mt st st' \<Longrightarrow> service_step io mt api app st st'"

inductive observed_run ::
  "uuid_io \<Rightarrow> msg_types \<Rightarrow> ('p, 'srv) raft_api \<Rightarrow> application \<Rightarrow> 'k reporter
   \<Rightarrow> ('p, 'srv, 'h) node \<times> service_pools \<Rightarrow> ('k \<Rightarrow> nat) \<Rightarrow> bool"
  for io mt api app rp where
  start: "observed_run io mt api app rp (n, proto_service_new raft_threads io_threads) (\<lambda>_. 0)"
| advance: "observed_run io mt api app rp st reg \<Longrightarrow> service_step io mt api app st st' \<Longrightarrow>
     observed_run io mt api app rp st' reg"
| scraped: "observed_run io mt api app rp st reg \<Longrightarrow> scrape rp (snd st) reg = Ret reg' \<Longrightarrow>
     observed_run io mt api app rp st reg'"

section \<open>Facts\<close>

definition counts_le :: "service_pools \<Rightarrow> service_pools \<Rightarrow> bool" where
  "counts_le ps ps' \<longleftrightarrow> pl_msg_count (raft_pool ps) \<le> pl_msg_count (raft_pool ps') \<and>
     pl_msg_count (io_pool ps) \<le> pl_msg_count (io_pool ps')"

lemma raftStep_counts:
  "raftStep io mt api app rpc (n, ps) = (x, r, n', ps') \<Longrightarrow> counts_le ps ps'"
  by (auto simp: raftStep_def counts_le_def route_to_pool_def pool_post_def Let_def case_prod_unfold
      split: option.splits if_splits run.splits)

lemma pool_step_counts:
  "pool_step api mt st st' \<Longrightarrow> counts_le (snd st) (snd st')"
  by (induction rule: pool_step.induct)
    (auto simp: counts_le_def pool_begin_def pool_finish_def split: list.splits if_splits)

lemma service_step_counts: "service_step io mt api app st st' \<Longrightarrow> counts_le (snd st) (snd st')"
proof (induction rule: service_step.induct)
  case (receive rpc n ps now r n' ps')
  from raftStep_counts [OF this] show ?case by (simp add: counts_le_def)
qed (rule pool_step_counts)

text \<open>No two metrics of an instance share a series.\<close>

lemma service_series_distinct:
  "reporter_ok rp \<Longrightarrow> distinct (map (rp_series rp e) service_metrics)"
  by (simp add: reporter_ok_def service_metrics_def raft_pool_msg_count_def io_pool_msg_count_def
      reported_name_def reported_label_def)

lemma group_series_distinct:
  "reporter_ok rp \<Longrightarrow> distinct (map (rp_series rp e) group_metrics_registered)"
  by (simp add: reporter_ok_def group_metrics_registered_def reported_name_def reported_label_def)

lemma counter_series_differ:
  "reporter_ok rp \<Longrightarrow> rp_series rp e raft_pool_msg_count \<noteq> rp_series rp e io_pool_msg_count"
  using service_series_distinct [of rp e] by (simp add: service_metrics_def)

text \<open>What is exported is never more than what was counted.\<close>

definition exported_le :: "'k reporter \<Rightarrow> ('k \<Rightarrow> nat) \<Rightarrow> service_pools \<Rightarrow> bool" where
  "exported_le rp reg ps \<longleftrightarrow>
     reg (rp_series rp ''global'' raft_pool_msg_count) \<le> pl_msg_count (raft_pool ps) \<and>
     reg (rp_series rp ''global'' io_pool_msg_count) \<le> pl_msg_count (io_pool ps)"

lemma scrape_exports:
  assumes "reporter_ok rp" and "exported_le rp reg ps"
  shows "scrape rp ps reg = Ret (reg(rp_series rp ''global'' raft_pool_msg_count := pl_msg_count (raft_pool ps),
    rp_series rp ''global'' io_pool_msg_count := pl_msg_count (io_pool ps)))"
proof -
  have "rp_set_value rp old new = (if old \<le> new then Ret new else Crash)" for old new
    using assms(1) by (simp add: reporter_ok_def)
  with assms(2) counter_series_differ [OF assms(1), of "''global''"] show ?thesis
    by (auto simp: scrape_def exported_le_def)
qed

lemma observed_run_exported:
  assumes "reporter_ok rp" and "observed_run io mt api app rp st reg"
  shows "exported_le rp reg (snd st)"
  using assms(2)
proof (induction rule: observed_run.induct)
  case (advance st reg st')
  with service_step_counts [OF advance(2)] show ?case by (auto simp: exported_le_def counts_le_def)
next
  case (scraped st reg reg')
  with scrape_exports [OF assms(1)] counter_series_differ [OF assms(1), of "''global''"]
  show ?case by (auto simp: exported_le_def)
qed (simp add: exported_le_def)

section \<open>Property\<close>

definition sample_reporter :: "(string \<times> string \<times> (string \<times> string) option) reporter" where
  "sample_reporter = \<lparr>rp_series = (\<lambda>e m. (e, reported_name m, reported_label m)),
     rp_set_value = (\<lambda>old new. if old \<le> new then Ret new else Crash)\<rparr>"

lemma sample_reporter_ok: "reporter_ok sample_reporter"
  by (simp add: reporter_ok_def sample_reporter_def)



end
