(* ===== verification/Locking.thy ===== *)
theory Locking
  imports Manager
begin

text \<open>
  The locks of a process and the order in which they are taken: \<open>_manager_lock\<close> of
  \<open>ManagerImpl\<close>, \<open>_req_lock\<close> of \<open>data_service_grpc\<close>, and \<open>_client_lock\<close> of every factory. For
  each function the theory gives the acquisitions and releases on each of its paths; threads
  that run these functions are interleaved by a step relation. What the functions compute is
  in the theories of the components.
\<close>

section \<open>Locks and threads\<close>

text \<open>
  \<open>Raft_lock\<close> is the lock a RAFT server holds while it works, and \<open>App_lock\<close> are the other locks
  of the application and of the RAFT library. A client lock can be held shared.
  \<open>Server_threads\<close> stands for the threads of the gRPC server: a handler in progress holds it
  shared, and waiting for all handlers to end is taking it exclusively.
\<close>

datatype lock = Server_threads | Raft_lock group_id | Manager_lock | Req_lock | Group_clients group_id | Shared_clients | App_lock nat

datatype lock_mode = Shared | Exclusive

datatype act = Acquire lock lock_mode | Release lock

type_synonym held = "(lock \<times> lock_mode) list"

text \<open>A thread: what it holds and what it still does.\<close>

type_synonym thread = "held \<times> act list"

definition free_for :: "lock \<Rightarrow> lock_mode \<Rightarrow> thread \<Rightarrow> bool" where
  "free_for l m t \<longleftrightarrow> (\<forall>(l', m') \<in> set (fst t). l' = l \<longrightarrow> m = Shared \<and> m' = Shared)"

definition drop_lock :: "lock \<Rightarrow> held \<Rightarrow> held" where
  "drop_lock l h = filter (\<lambda>(l', _). l' \<noteq> l) h"

text \<open>None of the locks can be taken twice by the same thread.\<close>

inductive lock_step :: "thread list \<Rightarrow> thread list \<Rightarrow> bool" where
  acquire: "i < length ts \<Longrightarrow> ts ! i = (h, Acquire l m # rest) \<Longrightarrow> \<forall>t \<in> set ts. free_for l m t \<Longrightarrow>
     lock_step ts (ts[i := ((l, m) # h, rest)])"
| release: "i < length ts \<Longrightarrow> ts ! i = (h, Release l # rest) \<Longrightarrow>
     lock_step ts (ts[i := (drop_lock l h, rest)])"

inductive_cases lock_stepE: "lock_step ts ts'"

section \<open>What the functions lock\<close>

definition locked :: "lock \<Rightarrow> lock_mode \<Rightarrow> act list \<Rightarrow> act list" where
  "locked l m body = Acquire l m # body @ [Release l]"

abbreviation manager_locked :: "act list \<Rightarrow> act list" where
  "manager_locked \<equiv> locked Manager_lock Exclusive"

text \<open>
  What the application does in the functions the layer calls, what the RAFT library does when
  it is asked for the configuration, and what stopping the gRPC server waits for.
\<close>

record callbacks =
  cb_create_state_mgr :: "act list"
  cb_become_ready :: "act list"
  cb_permanent_destroy :: "act list"
  cb_get_logstore_id :: "act list"
  cb_leave :: "act list"
  cb_handle_raft_event :: "act list"
  cb_load_config :: "act list"
  cb_lookup_peer :: "act list"
  cb_data_handler :: "act list"
  cb_config_read :: "act list"
  cb_server_stop :: "act list"

definition no_locks :: callbacks where
  "no_locks = \<lparr>cb_create_state_mgr = [], cb_become_ready = [], cb_permanent_destroy = [], cb_get_logstore_id = [],
     cb_leave = [], cb_handle_raft_event = [], cb_load_config = [], cb_lookup_peer = [], cb_data_handler = [],
     cb_config_read = [], cb_server_stop = []\<rparr>"

text \<open>A timed wait on the condition variable; \<open>k\<close> is the number of wake-ups.\<close>

definition lk_wait :: "nat \<Rightarrow> act list \<Rightarrow> act list" where
  "lk_wait k pred =
     manager_locked (pred @ concat (replicate k ([Release Manager_lock, Acquire Manager_lock Exclusive] @ pred)))"

text \<open>\<open>replaces\<close> says that an older server is destroyed, with the lock held.\<close>

definition lk_restart_server :: "callbacks \<Rightarrow> bool \<Rightarrow> bool \<Rightarrow> bool \<Rightarrow> act list" where
  "lk_restart_server cb made replaces data_enabled =
     manager_locked
       (if made
        then (if replaces then cb_server_stop cb else []) @ (if data_enabled then locked Req_lock Exclusive [] else [])
        else [])"

definition lk_start :: "callbacks \<Rightarrow> bool \<Rightarrow> bool \<Rightarrow> bool \<Rightarrow> act list" where
  "lk_start cb made replaces data_enabled = manager_locked [] @ lk_restart_server cb made replaces data_enabled"

definition lk_register_mgr_type :: "act list" where
  "lk_register_mgr_type = manager_locked []"

definition lk_exit_group :: "callbacks \<Rightarrow> bool \<Rightarrow> act list" where
  "lk_exit_group cb known = manager_locked [] @ (if known then cb_leave cb else [])"

definition lk_event_handler :: "callbacks \<Rightarrow> cb_type \<Rightarrow> bool \<Rightarrow> act list" where
  "lk_event_handler cb type known =
     (case type of
        RemovedFromCluster \<Rightarrow> lk_exit_group cb known
      | JoinedCluster \<Rightarrow> manager_locked []
      | BecomeLeader \<Rightarrow> manager_locked []
      | BecomeFollower \<Rightarrow> manager_locked []
      | _ \<Rightarrow> [])"

definition lk_internal_event :: "callbacks \<Rightarrow> bool \<Rightarrow> cb_type \<Rightarrow> bool \<Rightarrow> act list" where
  "lk_internal_event cb running type known =
     (if running then lk_event_handler cb type known @ cb_handle_raft_event cb else [])"

text \<open>
  The two client caches. \<open>renew\<close> says whether the shared one has to make a connection; the
  group's one does not ask the shared one (\<open>None\<close>) when it finds an entry of another kind.
\<close>

definition lk_shared_client :: "callbacks \<Rightarrow> bool \<Rightarrow> act list" where
  "lk_shared_client cb renew = locked Shared_clients Exclusive (if renew then cb_lookup_peer cb else [])"

definition lk_group_client :: "callbacks \<Rightarrow> group_id \<Rightarrow> bool option \<Rightarrow> act list" where
  "lk_group_client cb g path =
     locked (Group_clients g) Exclusive (case path of None \<Rightarrow> [] | Some renew \<Rightarrow> lk_shared_client cb renew)"

text \<open>
  A data request first looks for the client with the lock shared and gives it up before the
  cache is changed; a request to all peers holds it over the loop.
\<close>

definition lk_data_request :: "callbacks \<Rightarrow> group_id \<Rightarrow> bool \<Rightarrow> bool option \<Rightarrow> act list" where
  "lk_data_request cb g found path =
     locked (Group_clients g) Shared [] @ (if found then [] else lk_group_client cb g path)"

definition lk_data_broadcast :: "group_id \<Rightarrow> act list" where
  "lk_data_broadcast g = locked (Group_clients g) Shared []"

text \<open>
  A RAFT server at work: it reports events and asks the group's factory for clients. That it
  holds its lock over all of this is the most it can do to be in the way of others.
\<close>

datatype raft_work = Reports bool cb_type bool | Needs_client "bool option"

fun lk_raft_work :: "callbacks \<Rightarrow> group_id \<Rightarrow> raft_work \<Rightarrow> act list" where
  "lk_raft_work cb g (Reports running type known) = lk_internal_event cb running type known"
| "lk_raft_work cb g (Needs_client path) = lk_group_client cb g path"

definition lk_raft :: "callbacks \<Rightarrow> group_id \<Rightarrow> raft_work list \<Rightarrow> act list" where
  "lk_raft cb g ws = locked (Raft_lock g) Exclusive (concat (map (lk_raft_work cb g) ws))"

text \<open>
  A join ends early, fails because the type is unknown, or makes a context - calling the
  application with the lock held - and starts a RAFT server.
\<close>

datatype join_path = Ends_early | Type_unknown | Starts bool "raft_work list"

definition lk_group_init :: "callbacks \<Rightarrow> bool \<Rightarrow> bool \<Rightarrow> act list" where
  "lk_group_init cb type_known new =
     manager_locked (if type_known then (if new then cb_create_state_mgr cb else []) @ cb_become_ready cb else [])"

fun lk_joinRaftGroup :: "callbacks \<Rightarrow> group_id \<Rightarrow> join_path \<Rightarrow> act list" where
  "lk_joinRaftGroup cb g Ends_early = []"
| "lk_joinRaftGroup cb g Type_unknown = lk_group_init cb False False"
| "lk_joinRaftGroup cb g (Starts new ws) = lk_group_init cb True new @ lk_raft cb g ws"

definition lk_raftStep :: "callbacks \<Rightarrow> group_id \<Rightarrow> join_path \<Rightarrow> act list" where
  "lk_raftStep cb g path = locked Server_threads Shared (lk_joinRaftGroup cb g path)"

definition lk_data_handler :: "callbacks \<Rightarrow> act list" where
  "lk_data_handler cb = locked Server_threads Shared (cb_data_handler cb)"

definition lk_create_group :: "callbacks \<Rightarrow> group_id \<Rightarrow> join_path \<Rightarrow> nat option \<Rightarrow> act list" where
  "lk_create_group cb g path waits =
     manager_locked [] @ lk_joinRaftGroup cb g path @ (case waits of None \<Rightarrow> [] | Some k \<Rightarrow> lk_wait k [])"

definition lk_join_group :: "callbacks \<Rightarrow> group_id \<Rightarrow> join_path \<Rightarrow> bool \<Rightarrow> act list" where
  "lk_join_group cb g path failed =
     manager_locked [] @ lk_joinRaftGroup cb g path @ (if failed then manager_locked [] else [])"

text \<open>The RAFT server is stopped with no lock of the layer held.\<close>

definition lk_leave_group :: "callbacks \<Rightarrow> group_id \<Rightarrow> bool \<Rightarrow> raft_work list option \<Rightarrow> bool \<Rightarrow> act list" where
  "lk_leave_group cb g known serves still_known =
     manager_locked [] @
     (if known
      then (case serves of None \<Rightarrow> [] | Some ws \<Rightarrow> lk_raft cb g ws) @
           manager_locked (if still_known then cb_permanent_destroy cb else [])
      else [])"

definition lk_manager_dtor :: "callbacks \<Rightarrow> (group_id \<times> raft_work list) list \<Rightarrow> act list" where
  "lk_manager_dtor cb servers = concat (map (\<lambda>(g, ws). lk_raft cb g ws) servers) @ cb_server_stop cb"

definition lk_add_member :: "callbacks \<Rightarrow> group_id \<Rightarrow> raft_work list option \<Rightarrow> nat option \<Rightarrow> act list" where
  "lk_add_member cb g serves waits =
     (case serves of None \<Rightarrow> [] | Some ws \<Rightarrow> lk_raft cb g ws) @
     (case waits of None \<Rightarrow> [] | Some k \<Rightarrow> lk_wait k (cb_config_read cb))"

definition lk_become_leader :: "callbacks \<Rightarrow> group_id \<Rightarrow> bool \<Rightarrow> raft_work list option \<Rightarrow> nat option \<Rightarrow> act list" where
  "lk_become_leader cb g leads serves waits =
     manager_locked [] @
     (if leads then []
      else (case serves of None \<Rightarrow> [] | Some ws \<Rightarrow> lk_raft cb g ws) @
           (case waits of None \<Rightarrow> [] | Some k \<Rightarrow> lk_wait k []))"

definition lk_append_peers :: "callbacks \<Rightarrow> bool \<Rightarrow> act list" where
  "lk_append_peers cb known = manager_locked [] @ (if known then cb_load_config cb else [])"

definition lk_logstore_id :: "callbacks \<Rightarrow> bool \<Rightarrow> act list" where
  "lk_logstore_id cb known = manager_locked (if known then cb_get_logstore_id cb else [])"

definition lk_get_srv_config_all :: "callbacks \<Rightarrow> bool \<Rightarrow> act list" where
  "lk_get_srv_config_all cb served = (if served then cb_config_read cb else [])"

definition lk_lookup_state_manager :: "act list" where
  "lk_lookup_state_manager = manager_locked []"

definition lk_bind_request :: "bool \<Rightarrow> act list" where
  "lk_bind_request has_handler = (if has_handler then locked Req_lock Exclusive [] else [])"

text \<open>
  The calls a thread makes, with the path each takes. \<open>L_raft_runs\<close> is the RAFT server at work
  for any other reason: a request of the pools, a removal of a member, entries to append, or
  its own timers.
\<close>

datatype lock_call =
    L_start bool bool bool
  | L_restart bool bool bool
  | L_register
  | L_lookup
  | L_logstore bool
  | L_config bool
  | L_append_peers bool
  | L_create group_id join_path "nat option"
  | L_join group_id join_path bool
  | L_raftStep group_id join_path
  | L_data_handler
  | L_leave group_id bool "raft_work list option" bool
  | L_dtor "(group_id \<times> raft_work list) list"
  | L_add_member group_id "raft_work list option" "nat option"
  | L_become_leader group_id bool "raft_work list option" "nat option"
  | L_raft_runs group_id "raft_work list"
  | L_bind bool
  | L_shared_client bool
  | L_group_client group_id "bool option"
  | L_data_request group_id bool "bool option"
  | L_data_broadcast group_id

fun lock_acts :: "callbacks \<Rightarrow> lock_call \<Rightarrow> act list" where
  "lock_acts cb (L_start made replaces data) = lk_start cb made replaces data"
| "lock_acts cb (L_restart made replaces data) = lk_restart_server cb made replaces data"
| "lock_acts cb L_register = lk_register_mgr_type"
| "lock_acts cb L_lookup = lk_lookup_state_manager"
| "lock_acts cb (L_logstore known) = lk_logstore_id cb known"
| "lock_acts cb (L_config served) = lk_get_srv_config_all cb served"
| "lock_acts cb (L_append_peers known) = lk_append_peers cb known"
| "lock_acts cb (L_create g path waits) = lk_create_group cb g path waits"
| "lock_acts cb (L_join g path failed) = lk_join_group cb g path failed"
| "lock_acts cb (L_raftStep g path) = lk_raftStep cb g path"
| "lock_acts cb L_data_handler = lk_data_handler cb"
| "lock_acts cb (L_leave g known serves still) = lk_leave_group cb g known serves still"
| "lock_acts cb (L_dtor servers) = lk_manager_dtor cb servers"
| "lock_acts cb (L_add_member g serves waits) = lk_add_member cb g serves waits"
| "lock_acts cb (L_become_leader g leads serves waits) = lk_become_leader cb g leads serves waits"
| "lock_acts cb (L_raft_runs g ws) = lk_raft cb g ws"
| "lock_acts cb (L_bind has_handler) = lk_bind_request has_handler"
| "lock_acts cb (L_shared_client renew) = lk_shared_client cb renew"
| "lock_acts cb (L_group_client g path) = lk_group_client cb g path"
| "lock_acts cb (L_data_request g found path) = lk_data_request cb g found path"
| "lock_acts cb (L_data_broadcast g) = lk_data_broadcast g"

definition thread_new :: "callbacks \<Rightarrow> lock_call list \<Rightarrow> thread" where
  "thread_new cb calls = ([], concat (map (lock_acts cb) calls))"

section \<open>The order of the locks\<close>

fun lock_rank :: "lock \<Rightarrow> nat" where
  "lock_rank Server_threads = 10"
| "lock_rank (Raft_lock g) = 20"
| "lock_rank Manager_lock = 30"
| "lock_rank Req_lock = 40"
| "lock_rank (Group_clients g) = 40"
| "lock_rank Shared_clients = 50"
| "lock_rank (App_lock n) = 60 + n"

text \<open>
  A thread keeps the order if it takes a lock only when all it holds are below it, releases
  what it holds, and ends with nothing held.
\<close>

definition above :: "held \<Rightarrow> lock \<Rightarrow> bool" where
  "above h l \<longleftrightarrow> (\<forall>(l', _) \<in> set h. lock_rank l' < lock_rank l)"

fun in_order :: "held \<Rightarrow> act list \<Rightarrow> bool" where
  "in_order h [] \<longleftrightarrow> h = []"
| "in_order h (Acquire l m # rest) \<longleftrightarrow> above h l \<and> in_order ((l, m) # h) rest"
| "in_order h (Release l # rest) \<longleftrightarrow> l \<in> fst ` set h \<and> in_order (drop_lock l h) rest"

definition nested :: "nat \<Rightarrow> act list \<Rightarrow> bool" where
  "nested r acts \<longleftrightarrow> in_order [] acts \<and> (\<forall>l m. Acquire l m \<in> set acts \<longrightarrow> r < lock_rank l)"

text \<open>
  What the layer relies on: what is called with a lock held takes only locks above it. For
  the application this means that the functions called under the manager's lock do not call
  the manager, and for the RAFT library that reading the configuration does not need the lock
  under which events are reported.
\<close>

definition callbacks_ok :: "callbacks \<Rightarrow> bool" where
  "callbacks_ok cb \<longleftrightarrow> nested 30 (cb_create_state_mgr cb) \<and> nested 30 (cb_become_ready cb) \<and>
     nested 30 (cb_permanent_destroy cb) \<and> nested 30 (cb_get_logstore_id cb) \<and> nested 30 (cb_config_read cb) \<and>
     nested 20 (cb_leave cb) \<and> nested 20 (cb_handle_raft_event cb) \<and> nested 50 (cb_lookup_peer cb) \<and>
     nested 10 (cb_data_handler cb) \<and> nested 0 (cb_load_config cb) \<and> nested 0 (cb_server_stop cb)"

text \<open>A running server is replaced only if stopping it takes no lock up to the manager's.\<close>

fun replaces_safely :: "callbacks \<Rightarrow> lock_call \<Rightarrow> bool" where
  "replaces_safely cb (L_start made replaces data) \<longleftrightarrow> replaces \<longrightarrow> nested 30 (cb_server_stop cb)"
| "replaces_safely cb (L_restart made replaces data) \<longleftrightarrow> replaces \<longrightarrow> nested 30 (cb_server_stop cb)"
| "replaces_safely cb _ \<longleftrightarrow> True"

lemma above_simps [simp]:
  "above [] l"
  "above ((l', m) # h) l \<longleftrightarrow> lock_rank l' < lock_rank l \<and> above h l"
  "above (h @ h') l \<longleftrightarrow> above h l \<and> above h' l"
  by (auto simp: above_def)

lemma above_drop_lock: "above h l \<Longrightarrow> above (drop_lock k h) l"
  by (auto simp: above_def drop_lock_def)

lemma drop_lock_Cons [simp]: "drop_lock l ((l', m) # h) = (if l' = l then drop_lock l h else (l', m) # drop_lock l h)"
  by (simp add: drop_lock_def)

lemma drop_lock_append: "drop_lock l (h @ h') = drop_lock l h @ drop_lock l h'"
  by (simp add: drop_lock_def)

lemma drop_lock_id: "l \<notin> fst ` set h \<Longrightarrow> drop_lock l h = h"
  by (induction h) (auto simp: drop_lock_def)

lemma in_order_append:
  assumes "in_order h acts" and "in_order H rest"
    and "\<And>l m. Acquire l m \<in> set acts \<Longrightarrow> above H l"
    and "\<And>l. l \<in> fst ` set h \<Longrightarrow> above H l"
  shows "in_order (h @ H) (acts @ rest)"
  using assms
proof (induction h acts rule: in_order.induct)
  case (2 h l m acts)
  have "in_order (((l, m) # h) @ H) (acts @ rest)"
    using 2(2,3) by (intro 2(1)) (auto intro: 2(4,5))
  then show ?case using 2(2) 2(4) [of l m] by simp
next
  case (3 h l acts)
  have "l \<notin> fst ` set H" using 3(2) 3(5) [of l] by (auto simp: above_def)
  moreover have "in_order (drop_lock l h @ H) (acts @ rest)"
    using 3(2,3) by (intro 3(1)) (auto simp: drop_lock_def intro: 3(4,5))
  ultimately show ?case using 3(2) by (auto simp: drop_lock_append drop_lock_id)
qed simp

lemma nested_Nil [simp]: "nested r []"
  by (simp add: nested_def)

lemma nested_append: "nested r a \<Longrightarrow> nested r b \<Longrightarrow> nested r (a @ b)"
  using in_order_append [of "[]" a "[]" b] by (auto simp: nested_def)

lemma nested_concat: "(\<And>x. x \<in> set xs \<Longrightarrow> nested r (f x)) \<Longrightarrow> nested r (concat (map f xs))"
  by (induction xs) (auto intro: nested_append)

lemma nested_mono: "nested r a \<Longrightarrow> s \<le> r \<Longrightarrow> nested s a"
  by (auto simp: nested_def intro: le_less_trans)

lemma nested_locked:
  assumes "r < lock_rank l" and "nested (lock_rank l) body"
  shows "nested r (locked l m body)"
proof -
  have "in_order ([] @ [(l, m)]) (body @ [Release l])"
    using assms(2) by (intro in_order_append) (auto simp: nested_def drop_lock_def)
  then show ?thesis using assms by (auto simp: nested_def locked_def)
qed

lemmas nested_rules = nested_append nested_concat nested_locked nested_Nil

section \<open>Every function keeps the order\<close>

text \<open>A timed wait is the lock taken once more for every wake-up.\<close>

lemma lk_wait_eq: "lk_wait k pred = concat (replicate (Suc k) (manager_locked pred))"
  by (induction k) (simp_all add: lk_wait_def locked_def)

lemma nested_wait: "nested 30 pred \<Longrightarrow> nested 20 (lk_wait k pred)"
  unfolding lk_wait_eq by (induction k) (auto intro!: nested_rules)

lemmas lk_manager_defs = lk_start_def lk_restart_server_def lk_register_mgr_type_def lk_lookup_state_manager_def
  lk_logstore_id_def lk_append_peers_def lk_bind_request_def lk_exit_group_def lk_event_handler_def
  lk_internal_event_def lk_group_init_def

lemma nested_shared_client: "callbacks_ok cb \<Longrightarrow> nested 40 (lk_shared_client cb renew)"
  by (auto simp: callbacks_ok_def lk_shared_client_def intro!: nested_rules)

lemma nested_group_client: "callbacks_ok cb \<Longrightarrow> nested 30 (lk_group_client cb g path)"
  by (auto simp: lk_group_client_def nested_shared_client split: option.split intro!: nested_rules)

lemma nested_internal_event: "callbacks_ok cb \<Longrightarrow> nested 20 (lk_internal_event cb running type known)"
  by (auto simp: callbacks_ok_def lk_manager_defs split: cb_type.split intro!: nested_rules)

lemma nested_raft:
  assumes "callbacks_ok cb"
  shows "nested 10 (lk_raft cb g ws)"
proof -
  have "nested 20 (lk_raft_work cb g w)" for w
    using nested_internal_event [OF assms] nested_mono [OF nested_group_client [OF assms]] by (cases w) simp_all
  then show ?thesis by (auto simp: lk_raft_def intro!: nested_rules)
qed

lemma nested_raft_option:
  "callbacks_ok cb \<Longrightarrow> nested 10 (case serves of None \<Rightarrow> [] | Some ws \<Rightarrow> lk_raft cb g ws)"
  by (simp add: nested_raft split: option.split)

lemma nested_joinRaftGroup: "callbacks_ok cb \<Longrightarrow> nested 10 (lk_joinRaftGroup cb g path)"
  by (cases path) (auto simp: callbacks_ok_def lk_group_init_def nested_raft intro!: nested_rules)

lemma nested_leave_group: "callbacks_ok cb \<Longrightarrow> nested 10 (lk_leave_group cb g known serves still)"
  using nested_raft_option [of cb g serves]
  by (auto simp: callbacks_ok_def lk_leave_group_def intro!: nested_rules)

lemma nested_waits:
  "nested 30 pred \<Longrightarrow> nested 10 (case waits of None \<Rightarrow> [] | Some k \<Rightarrow> lk_wait k pred)"
  by (simp add: nested_mono [OF nested_wait] split: option.split)

lemma nested_groups:
  assumes "callbacks_ok cb"
  shows "nested 10 (lk_create_group cb g path waits)" "nested 10 (lk_join_group cb g path failed)"
    "nested 10 (lk_add_member cb g serves waits)" "nested 10 (lk_become_leader cb g leads serves waits)"
    "nested 0 (lk_raftStep cb g path)" "nested 0 (lk_data_handler cb)" "nested 0 (lk_manager_dtor cb servers)"
    "nested 30 (lk_data_request cb g' found path')" "nested 30 (lk_data_broadcast g')"
  using assms nested_joinRaftGroup [OF assms, of g path] nested_raft_option [OF assms, of g serves]
    nested_waits [of "[]" waits] nested_waits [of "cb_config_read cb" waits] nested_group_client [OF assms]
    nested_mono [OF nested_raft [OF assms], of 0]
  by (auto simp: callbacks_ok_def lk_create_group_def lk_join_group_def lk_add_member_def lk_become_leader_def
      lk_raftStep_def lk_data_handler_def lk_manager_dtor_def lk_data_request_def lk_data_broadcast_def
      intro!: nested_rules)

lemma nested_acts:
  assumes "callbacks_ok cb" and "replaces_safely cb c"
  shows "nested 0 (lock_acts cb c)"
proof (cases c)
  case (L_start made replaces data)
  then show ?thesis using assms(2) by (auto simp: lk_manager_defs intro!: nested_rules)
next
  case (L_restart made replaces data)
  then show ?thesis using assms(2) by (auto simp: lk_manager_defs intro!: nested_rules)
next
  case (L_logstore known)
  then show ?thesis using assms(1) by (auto simp: callbacks_ok_def lk_manager_defs intro!: nested_rules)
next
  case (L_config served)
  then show ?thesis
    using assms(1) nested_mono [of 30 "cb_config_read cb" 0] by (simp add: callbacks_ok_def lk_get_srv_config_all_def)
next
  case (L_append_peers known)
  then show ?thesis using assms(1) by (auto simp: callbacks_ok_def lk_manager_defs intro!: nested_rules)
next
  case (L_raft_runs g ws)
  then show ?thesis using nested_mono [OF nested_raft [OF assms(1)], of 0] by simp
next
  case (L_group_client g path)
  then show ?thesis using nested_mono [OF nested_group_client [OF assms(1)], of 0] by simp
next
  case (L_shared_client renew)
  then show ?thesis using nested_mono [OF nested_shared_client [OF assms(1)], of 0] by simp
next
  case (L_leave g known serves still)
  then show ?thesis using nested_mono [OF nested_leave_group [OF assms(1)], of 0] by simp
qed (auto simp: lk_manager_defs nested_groups [OF assms(1)] intro!: nested_rules intro: nested_mono [OF nested_groups(1) [OF assms(1)]]
    nested_mono [OF nested_groups(2) [OF assms(1)]] nested_mono [OF nested_groups(3) [OF assms(1)]]
    nested_mono [OF nested_groups(4) [OF assms(1)]] nested_mono [OF nested_groups(8) [OF assms(1)]]
    nested_mono [OF nested_groups(9) [OF assms(1)]])

section \<open>Threads that keep the order never deadlock\<close>

definition orderly :: "thread list \<Rightarrow> bool" where
  "orderly ts \<longleftrightarrow> (\<forall>t \<in> set ts. in_order (fst t) (snd t))"

definition acts_left :: "thread list \<Rightarrow> nat" where
  "acts_left ts = sum_list (map (\<lambda>t. length (snd t)) ts)"

text \<open>No lock is held exclusively by one thread and at all by another.\<close>

definition exclusive :: "thread list \<Rightarrow> bool" where
  "exclusive ts \<longleftrightarrow> (\<forall>i < length ts. \<forall>j < length ts. i \<noteq> j \<longrightarrow>
     (\<forall>(l, m) \<in> set (fst (ts ! i)). free_for l m (ts ! j)))"

lemma orderly_new:
  assumes "callbacks_ok cb" and "\<forall>calls \<in> set threads. \<forall>c \<in> set calls. replaces_safely cb c"
  shows "orderly (map (thread_new cb) threads)"
proof -
  have "nested 0 (concat (map (lock_acts cb) calls))" if "calls \<in> set threads" for calls
    using assms that by (intro nested_concat nested_acts) auto
  then show ?thesis by (auto simp: orderly_def thread_new_def nested_def)
qed

lemma orderly_nth: "orderly ts \<Longrightarrow> i < length ts \<Longrightarrow> ts ! i = (h, acts) \<Longrightarrow> in_order h acts"
  by (metis fst_conv nth_mem orderly_def snd_conv)

lemma orderly_update: "orderly ts \<Longrightarrow> in_order h acts \<Longrightarrow> orderly (ts[i := (h, acts)])"
  unfolding orderly_def using set_update_subset_insert [of ts i "(h, acts)"] by auto

lemma lock_step_orderly: "lock_step ts ts' \<Longrightarrow> orderly ts \<Longrightarrow> orderly ts'"
  by (erule lock_stepE) (auto dest: orderly_nth intro!: orderly_update)

lemma lock_step_left:
  assumes "lock_step ts ts'"
  shows "acts_left ts = Suc (acts_left ts')"
proof -
  have "acts_left ts = Suc (acts_left (ts[i := (h, rest)]))" if "i < length ts" "snd (ts ! i) = a # rest" for i h a rest
    using that sum_list_update [of i "map (\<lambda>t. length (snd t)) ts" "length rest"]
      elem_le_sum_list [of i "map (\<lambda>t. length (snd t)) ts"]
    by (simp add: acts_left_def map_update)
  with assms show ?thesis by (auto elim!: lock_stepE)
qed

lemma exclusiveD:
  assumes "exclusive ts" and "i < length ts" and "j < length ts" and "i \<noteq> j" and "(l, m) \<in> set (fst (ts ! i))"
  shows "free_for l m (ts ! j)"
proof -
  have "\<forall>(l, m) \<in> set (fst (ts ! i)). free_for l m (ts ! j)" using assms(1-4) by (simp add: exclusive_def)
  then show ?thesis using assms(5) by blast
qed

lemma exclusive_mono:
  assumes "exclusive ts" and "length ts' = length ts"
    and less: "\<And>a. a < length ts \<Longrightarrow> set (fst (ts' ! a)) \<subseteq> set (fst (ts ! a))"
  shows "exclusive ts'"
proof -
  have "free_for l m (ts' ! j)"
    if "i < length ts" "j < length ts" "i \<noteq> j" "(l, m) \<in> set (fst (ts' ! i))" for i j l m
  proof -
    have "free_for l m (ts ! j)" using exclusiveD [OF assms(1) that(1-3)] that(4) less [OF that(1)] by blast
    then show ?thesis using less [OF that(2)] by (auto simp: free_for_def)
  qed
  then show ?thesis using assms(2) by (auto simp: exclusive_def)
qed

lemma lock_step_exclusive:
  assumes "lock_step ts ts'" and "exclusive ts"
  shows "exclusive ts'"
  using assms(1)
proof (cases rule: lock_step.cases)
  case (acquire i h l m rest)
  have "\<forall>(l', m') \<in> set (fst (ts' ! a)). free_for l' m' (ts' ! b)"
    if ab: "a < length ts" "b < length ts" "a \<noteq> b" for a b
  proof -
    have old: "\<forall>(l', m') \<in> set (fst (ts ! a)). free_for l' m' (ts ! b)"
      using exclusiveD [OF assms(2) ab] by blast
    consider "a = i" | "b = i" | "a \<noteq> i" "b \<noteq> i" by blast
    then show ?thesis
    proof cases
      case 1
      then show ?thesis using old acquire ab nth_mem [of b ts] by auto
    next
      case 2
      have "free_for l m (ts ! a)" using acquire ab nth_mem [of a ts] by blast
      then show ?thesis using old acquire(1-3) ab 2 by (auto simp: free_for_def)
    next
      case 3
      then show ?thesis using old acquire(1) by simp
    qed
  qed
  then show ?thesis using acquire(1) by (auto simp: exclusive_def)
next
  case (release i h l rest)
  show ?thesis
  proof (rule exclusive_mono [OF assms(2)])
    show "set (fst (ts' ! a)) \<subseteq> set (fst (ts ! a))" if "a < length ts" for a
      using release that by (cases "a = i") (auto simp: drop_lock_def)
  qed (simp add: release(1))
qed

text \<open>
  Of the locks that are waited for, one has the highest rank. Its holder is not finished, so
  it waits for a lock above it.
\<close>

lemma lock_progress:
  assumes "orderly ts" and "acts_left ts \<noteq> 0"
  shows "\<exists>ts'. lock_step ts ts'"
proof (rule ccontr)
  assume stuck: "\<nexists>ts'. lock_step ts ts'"
  define W where "W = {l. \<exists>h m rest. (h, Acquire l m # rest) \<in> set ts}"
  have unfinished: "\<exists>l m rest. acts = Acquire l m # rest" if t: "(h, acts) \<in> set ts" "acts \<noteq> []" for h acts
  proof (cases acts)
    case (Cons a rest)
    obtain i where i: "i < length ts" "ts ! i = (h, acts)" using t(1) unfolding in_set_conv_nth by blast
    have "a \<noteq> Release l" for l
    proof
      assume "a = Release l"
      then show False using stuck lock_step.release [OF i(1), of h l rest] i(2) Cons by blast
    qed
    then show ?thesis using Cons by (cases a) blast+
  qed (use t in simp)
  have "W \<subseteq> (\<lambda>t. case hd (snd t) of Acquire l m \<Rightarrow> l | Release l \<Rightarrow> l) ` set ts"
  proof
    fix l
    assume "l \<in> W"
    then obtain h m rest where "(h, Acquire l m # rest) \<in> set ts" by (auto simp: W_def)
    then show "l \<in> (\<lambda>t. case hd (snd t) of Acquire l m \<Rightarrow> l | Release l \<Rightarrow> l) ` set ts"
      by (rule rev_image_eqI) simp
  qed
  then have fin: "finite W" by (rule finite_subset) simp
  have "\<exists>t \<in> set ts. snd t \<noteq> []" using assms(2) by (auto simp: acts_left_def)
  then obtain h0 acts0 where "(h0, acts0) \<in> set ts" "acts0 \<noteq> []" by auto
  then have "W \<noteq> {}" using unfinished [of h0 acts0] by (auto simp: W_def)
  then have "Max (lock_rank ` W) \<in> lock_rank ` W" using fin by simp
  then obtain l where l: "l \<in> W" "lock_rank l = Max (lock_rank ` W)" by auto
  then have top: "lock_rank l' \<le> lock_rank l" if "l' \<in> W" for l' using fin that by simp
  from l(1) obtain h m rest where "(h, Acquire l m # rest) \<in> set ts" by (auto simp: W_def)
  then obtain i where i: "i < length ts" "ts ! i = (h, Acquire l m # rest)" unfolding in_set_conv_nth by blast
  have "\<not> (\<forall>t \<in> set ts. free_for l m t)" using stuck lock_step.acquire [OF i] by blast
  then obtain h' acts where t: "(h', acts) \<in> set ts" "\<not> free_for l m (h', acts)" by auto
  then have held: "l \<in> fst ` set h'" by (force simp: free_for_def)
  have ord: "in_order h' acts" using assms(1) t(1) by (auto simp: orderly_def)
  with held have "acts \<noteq> []" by auto
  then obtain l' m' rest' where acts: "acts = Acquire l' m' # rest'" using unfinished t(1) by blast
  then have "lock_rank l < lock_rank l'" using ord held by (auto simp: above_def)
  moreover have "l' \<in> W" using t(1) acts by (auto simp: W_def)
  ultimately show False using top [of l'] by simp
qed

lemma lock_run_finishes:
  "orderly ts \<Longrightarrow> \<exists>ts'. lock_step\<^sup>*\<^sup>* ts ts' \<and> acts_left ts' = 0"
proof (induction "acts_left ts" arbitrary: ts)
  case (Suc n)
  obtain ts1 where step: "lock_step ts ts1" using lock_progress [of ts] Suc by auto
  then have "n = acts_left ts1" "orderly ts1"
    using Suc lock_step_left [of ts ts1] lock_step_orderly [of ts ts1] by simp_all
  then obtain ts' where "lock_step\<^sup>*\<^sup>* ts1 ts'" "acts_left ts' = 0" using Suc(1) [of ts1] by blast
  then show ?case using converse_rtranclp_into_rtranclp [of lock_step, OF step] by blast
qed auto

lemma lock_run_inv:
  assumes "(lock_step ^^ n) ts ts'" and "orderly ts" and "exclusive ts"
  shows "orderly ts' \<and> exclusive ts' \<and> acts_left ts = n + acts_left ts'"
  using assms
proof (induction n arbitrary: ts')
  case (Suc n)
  then obtain ts1 where "(lock_step ^^ n) ts ts1" "lock_step ts1 ts'" by auto
  then show ?case
    using Suc lock_step_orderly [of ts1 ts'] lock_step_exclusive [of ts1 ts'] lock_step_left [of ts1 ts'] by auto
qed simp

lemma exclusive_new: "exclusive (map (thread_new cb) threads)"
  by (auto simp: exclusive_def thread_new_def)

lemma acts_left_0: "acts_left ts = 0 \<longleftrightarrow> (\<forall>t \<in> set ts. snd t = [])"
  by (auto simp: acts_left_def)

section \<open>What happens without the order\<close>

definition deadlocks :: "thread list \<Rightarrow> bool" where
  "deadlocks ts \<longleftrightarrow> (\<exists>ts'. lock_step\<^sup>*\<^sup>* ts ts' \<and> acts_left ts' \<noteq> 0 \<and> \<not> (\<exists>ts''. lock_step ts' ts''))"

lemma deadlocks_step: "lock_step ts ts' \<Longrightarrow> deadlocks ts' \<Longrightarrow> deadlocks ts"
  unfolding deadlocks_def by (meson converse_rtranclp_into_rtranclp)

text \<open>Two threads that take two locks in opposite order can block each other.\<close>

lemma deadlocks_inversion:
  assumes "a \<noteq> b" and "h0 = []" and "h1 = []"
  shows "deadlocks [(h0, Acquire a Exclusive # Acquire b Exclusive # r0), (h1, Acquire b m # Acquire a Exclusive # r1)]"
proof -
  let ?ts0 = "[([], Acquire a Exclusive # Acquire b Exclusive # r0), ([], Acquire b m # Acquire a Exclusive # r1)]"
  let ?ts1 = "[([(a, Exclusive)], Acquire b Exclusive # r0), ([], Acquire b m # Acquire a Exclusive # r1)]"
  let ?ts2 = "[([(a, Exclusive)], Acquire b Exclusive # r0), ([(b, m)], Acquire a Exclusive # r1)]"
  have "lock_step ?ts0 ?ts1" using lock_step.acquire [of 0 ?ts0] by (auto simp: free_for_def)
  moreover have "lock_step ?ts1 ?ts2" using lock_step.acquire [of 1 ?ts1] assms(1) by (auto simp: free_for_def)
  moreover have "\<not> lock_step ?ts2 ts" for ts
    by (auto simp: free_for_def less_Suc_eq nth_Cons' elim!: lock_stepE split: if_splits)
  then have "deadlocks ?ts2" by (auto simp: deadlocks_def acts_left_def)
  ultimately show ?thesis using deadlocks_step assms(2,3) by blast
qed

text \<open>A thread that takes a lock it holds blocks itself.\<close>

lemma lock_step_alone: "l \<notin> fst ` set h \<Longrightarrow> lock_step [(h, Acquire l m # rest)] [((l, m) # h, rest)]"
  using lock_step.acquire [of 0 "[(h, Acquire l m # rest)]"] by (force simp: free_for_def)

lemma deadlocks_self:
  assumes "l \<notin> fst ` set h"
  shows "deadlocks [(h, Acquire l Exclusive # Acquire l m # rest)]"
proof -
  have "\<not> lock_step [((l, Exclusive) # h, Acquire l m # rest)] ts" for ts
    by (auto simp: free_for_def elim!: lock_stepE)
  then have "deadlocks [((l, Exclusive) # h, Acquire l m # rest)]" by (auto simp: deadlocks_def acts_left_def)
  then show ?thesis by (rule deadlocks_step [OF lock_step_alone [OF assms]])
qed

text \<open>
  The conditions on what the layer calls are needed: a \<open>create_state_mgr\<close> that looks up a state
  manager blocks the thread that creates the group, and a RAFT server that needs its lock to
  read the configuration blocks with a member being added while an event is reported.
\<close>

lemma callback_into_manager_deadlocks:
  assumes "cb_create_state_mgr cb = lk_lookup_state_manager"
  shows "deadlocks [thread_new cb [L_raftStep g (Starts True ws)]]"
proof -
  obtain rest where "thread_new cb [L_raftStep g (Starts True ws)] =
      ([], Acquire Server_threads Shared # Acquire Manager_lock Exclusive # Acquire Manager_lock Exclusive # rest)"
    using assms by (simp add: thread_new_def lk_raftStep_def lk_group_init_def lk_lookup_state_manager_def locked_def)
  then show ?thesis
    using deadlocks_step [OF lock_step_alone deadlocks_self] by simp
qed

lemma deadlocks_after_empty_section:
  assumes "deadlocks [([], acts), ([], acts')]"
  shows "deadlocks [([], Acquire l m # Release l # acts), ([], acts')]"
proof -
  let ?ts0 = "[([], Acquire l m # Release l # acts), ([], acts')]"
  let ?ts1 = "[([(l, m)], Release l # acts), ([], acts')]"
  have "lock_step ?ts0 ?ts1" using lock_step.acquire [of 0 ?ts0] by (auto simp: free_for_def)
  moreover have "lock_step ?ts1 [([], acts), ([], acts')]"
    using lock_step.release [of 0 ?ts1] by (auto simp: drop_lock_def)
  ultimately show ?thesis using deadlocks_step assms by blast
qed

lemma config_read_deadlocks:
  assumes "cb_config_read cb = locked (Raft_lock g) Exclusive []"
  shows "deadlocks [thread_new cb [L_add_member g (Some []) (Some k)], thread_new cb [L_raft_runs g [Reports True BecomeLeader known]]]"
proof -
  obtain r0 where "thread_new cb [L_add_member g (Some []) (Some k)] =
      ([], Acquire (Raft_lock g) Exclusive # Release (Raft_lock g) #
        Acquire Manager_lock Exclusive # Acquire (Raft_lock g) Exclusive # r0)"
    using assms by (simp add: thread_new_def lk_add_member_def lk_raft_def lk_wait_def locked_def)
  moreover obtain r1 where "thread_new cb [L_raft_runs g [Reports True BecomeLeader known]] =
      ([], Acquire (Raft_lock g) Exclusive # Acquire Manager_lock Exclusive # r1)"
    by (simp add: thread_new_def lk_raft_def lk_internal_event_def lk_event_handler_def locked_def)
  ultimately show ?thesis by (simp add: deadlocks_after_empty_section deadlocks_inversion)
qed

section \<open>Properties\<close>



text \<open>C36:
  Restarting a running server can block the process forever. \<open>restart_server\<close> destroys the old
  gRPC server with the manager's lock held. If stopping a server waits for the handlers that
  are still running in it, a handler that serves a join request waits for the manager's lock in
  \<open>group_init\<close>, and there is an interleaving of the two after which neither can go on - with a
  registered group type or without.
\<close>

theorem restart_deadlocks:
  assumes "cb_server_stop cb = locked Server_threads Exclusive []" and "path \<noteq> Ends_early"
  shows "deadlocks [thread_new cb [L_restart True True data], thread_new cb [L_raftStep g path]]"
proof -
  obtain r0 where "thread_new cb [L_restart True True data] =
      ([], Acquire Manager_lock Exclusive # Acquire Server_threads Exclusive # r0)"
    using assms(1) by (simp add: thread_new_def lk_restart_server_def locked_def)
  moreover obtain r1 where "thread_new cb [L_raftStep g path] =
      ([], Acquire Server_threads Shared # Acquire Manager_lock Exclusive # r1)"
    using assms(2) by (cases path) (simp_all add: thread_new_def lk_raftStep_def lk_group_init_def locked_def)
  ultimately show ?thesis by (simp add: deadlocks_inversion)
qed

theorem restart_deadlocks_witness:
  "deadlocks [thread_new (no_locks\<lparr>cb_server_stop := locked Server_threads Exclusive []\<rparr>) [L_restart True True False],
    thread_new (no_locks\<lparr>cb_server_stop := locked Server_threads Exclusive []\<rparr>) [L_raftStep 7 (Starts True [])]]"
  by (rule restart_deadlocks) simp_all

end
