(* ===== verification/Process.thy ===== *)
theory Process
  imports Membership
begin

text \<open>
  A process with all its threads: calls of the application, requests of the gRPC server,
  events of the RAFT servers and the pools, interleaved. A join is two steps, as in
  \<open>joinRaftGroup\<close>: no lock is held between the check for the group and the insertion of its
  server, so any other step can come between them.
\<close>

section \<open>State and steps\<close>

text \<open>A join under way: its context, and the request that asked for it, if one did.\<close>

record ('p, 'srv, 'h) process =
  pr_node :: "('p, 'srv, 'h) node"
  pr_pools :: service_pools
  pr_joins :: "('p raft_context \<times> rpc option) list"

text \<open>\<open>raftStep\<close> after the join: the lookup of the server and the routing.\<close>

definition route_request ::
  "msg_types \<Rightarrow> rpc \<Rightarrow> group_id \<Rightarrow> ('p, 'srv, 'h) node \<Rightarrow> service_pools \<Rightarrow> bool \<times> rpc \<times> service_pools" where
  "route_request mt rpc gid n ps =
     (let group_id = gm_group_id (rpc_request rpc) in
      case om_find (nd_raft_servers n) gid of
        None \<Rightarrow>
          (True, rpc\<lparr>rpc_response := (rpc_response rpc)\<lparr>gm_group_id := group_id\<rparr>,
             rpc_status := \<lparr>error_code = S_NOT_FOUND, error_message = ''Missing RAFT group '' @ group_id\<rparr>\<rparr>, ps)
      | Some w \<Rightarrow>
          (False, rpc, route_to_pool mt (pb_type (rm_base (gm_msg (rpc_request rpc))))
             \<lparr>tk_server = w_server w, tk_metrics = w_metrics w, tk_rpc = rpc\<rparr> ps))"

text \<open>A response that is final is sent at once.\<close>

definition reply_now :: "bool \<times> rpc \<times> service_pools \<Rightarrow> service_pools" where
  "reply_now q = (case q of (now, r, ps) \<Rightarrow> if now then ps\<lparr>sent := sent ps @ [r]\<rparr> else ps)"

definition removed :: "nat \<Rightarrow> 'a list \<Rightarrow> 'a list" where
  "removed i xs = take i xs @ drop (Suc i) xs"

text \<open>
  The steps. The second argument is the number of the request that is received, if one is.
  A call of the manager that does not join (\<open>manager_step\<close>) is one step; so are \<open>start\<close>,
  \<open>restart_server\<close>, the binding of data requests and the destructor.
\<close>

fun is_join :: "'p manager_op \<Rightarrow> bool" where
  "is_join (Create g t) = True"
| "is_join (Join g t) = True"
| "is_join (Remote_join g t) = True"
| "is_join _ = False"

inductive process_step ::
  "uuid_io \<Rightarrow> msg_types \<Rightarrow> ('p, 'srv) raft_api \<Rightarrow> application
   \<Rightarrow> ('p, 'srv, 'h) process \<Rightarrow> nat option \<Rightarrow> ('p, 'srv, 'h) process \<Rightarrow> bool"
  for io mt api app where
  p_operation: "manager_step api app (pr_node p) x n' \<Longrightarrow> \<not> is_join x \<Longrightarrow>
     process_step io mt api app p None (p\<lparr>pr_node := n'\<rparr>)"
| p_start: "start env made data (pr_node p) = (Ret (), n') \<Longrightarrow>
     process_step io mt api app p None (p\<lparr>pr_node := n'\<rparr>)"
| p_bind: "bind_data_service_request io env name g h (pr_node p) = (Ret b, n') \<Longrightarrow>
     process_step io mt api app p None (p\<lparr>pr_node := n'\<rparr>)"
| p_destroy: "manager_dtor api (pr_node p) = (Ret (), n') \<Longrightarrow>
     process_step io mt api app p None (p\<lparr>pr_node := n'\<rparr>)"
| p_create_done: "join_check app (nd_srv_id (pr_node p)) g t (touch_leader g (pr_node p)) = (Ret (Inl c), n') \<Longrightarrow>
     process_step io mt api app p None (p\<lparr>pr_node := n'\<rparr>)"
| p_create: "join_check app (nd_srv_id (pr_node p)) g t (touch_leader g (pr_node p)) = (Ret (Inr ctx), n') \<Longrightarrow>
     process_step io mt api app p None (p\<lparr>pr_node := n', pr_joins := pr_joins p @ [(ctx, None)]\<rparr>)"
| p_adopt: "n = pr_node p \<Longrightarrow>
     process_step io mt api app p None
       (p\<lparr>pr_node := n\<lparr>nd_smgrs := nd_smgrs n @ [sm],
          nd_state_managers := fst (om_emplace g (Some (length (nd_smgrs n))) (nd_state_managers n))\<rparr>\<rparr>)"
| p_join_done: "join_check app (nd_srv_id (pr_node p)) g t (pr_node p) = (Ret (Inl c), n') \<Longrightarrow>
     process_step io mt api app p None
       (p\<lparr>pr_node := (if c \<noteq> OK then n'\<lparr>nd_state_managers := om_erase g (nd_state_managers n')\<rparr> else n')\<rparr>)"
| p_join: "join_check app (nd_srv_id (pr_node p)) g t (pr_node p) = (Ret (Inr ctx), n') \<Longrightarrow>
     process_step io mt api app p None (p\<lparr>pr_node := n', pr_joins := pr_joins p @ [(ctx, None)]\<rparr>)"
| p_joined: "i < length (pr_joins p) \<Longrightarrow> pr_joins p ! i = (ctx, None) \<Longrightarrow>
     process_step io mt api app p None
       (p\<lparr>pr_node := join_commit api ctx (pr_node p), pr_joins := removed i (pr_joins p)\<rparr>)"
| p_receive: "raftStep io mt api app (rpc_new k req) (pr_node p, pr_pools p) = (Ret b, r, n', ps') \<Longrightarrow>
     process_step io mt api app p (Some k) (p\<lparr>pr_node := n', pr_pools := reply_now (b, r, ps')\<rparr>)"
| p_receive_join: "pb_type (rm_base (gm_msg req)) = join_cluster_request mt \<Longrightarrow>
     string_generator io (gm_group_id req) = Some g \<Longrightarrow>
     string_generator io (gm_intended_addr req) = Some (nd_service_address (pr_node p)) \<Longrightarrow>
     join_check app (pb_dest (rm_base (gm_msg req))) g (gm_group_type req) (pr_node p) = (Ret (Inr ctx), n') \<Longrightarrow>
     process_step io mt api app p (Some k)
       (p\<lparr>pr_node := n', pr_joins := pr_joins p @ [(ctx, Some (rpc_new k req))]\<rparr>)"
| p_received_join: "i < length (pr_joins p) \<Longrightarrow> pr_joins p ! i = (ctx, Some rpc) \<Longrightarrow>
     n' = join_commit api ctx (pr_node p) \<Longrightarrow>
     process_step io mt api app p None
       (p\<lparr>pr_node := n', pr_pools := reply_now (route_request mt rpc (cx_group ctx) n' (pr_pools p)),
          pr_joins := removed i (pr_joins p)\<rparr>)"
| p_pool: "pool_step api mt (pr_node p, pr_pools p) (n', ps') \<Longrightarrow>
     process_step io mt api app p None (p\<lparr>pr_node := n', pr_pools := ps'\<rparr>)"

inductive process_run ::
  "uuid_io \<Rightarrow> msg_types \<Rightarrow> ('p, 'srv) raft_api \<Rightarrow> application
   \<Rightarrow> ('p, 'srv, 'h) process \<Rightarrow> nat list \<Rightarrow> ('p, 'srv, 'h) process \<Rightarrow> bool"
  for io mt api app where
  process_run_Nil: "process_run io mt api app p [] p"
| process_run_step: "process_run io mt api app p ks p' \<Longrightarrow> process_step io mt api app p' k p'' \<Longrightarrow>
     process_run io mt api app p (ks @ (case k of None \<Rightarrow> [] | Some i \<Rightarrow> [i])) p''"

section \<open>The pointers of the node\<close>

text \<open>
  What holds between the two halves of a join: every pointer of the node's maps is to an object
  that exists. Objects are never removed while pointers to them may be around.
\<close>

definition cells_ok :: "('p, 'srv, 'h) node \<Rightarrow> bool" where
  "cells_ok n \<longleftrightarrow> node_maps_ok n \<and> smgrs_ok n \<and> (\<forall>g w. om_find (nd_raft_servers n) g = Some w \<longrightarrow> wrapper_ok n w)"

definition grows :: "('p, 'srv, 'h) node \<Rightarrow> ('p, 'srv, 'h) node \<Rightarrow> bool" where
  "grows n n' \<longleftrightarrow> length (nd_servers n) \<le> length (nd_servers n') \<and> length (nd_metrics n) \<le> length (nd_metrics n')"

definition keeps :: "('p, 'srv, 'h) node \<Rightarrow> ('p, 'srv, 'h) node \<Rightarrow> bool" where
  "keeps n n' \<longleftrightarrow> (cells_ok n \<longrightarrow> cells_ok n') \<and> grows n n'"

lemmas cells_defs = cells_ok_def node_maps_ok_def smgrs_ok_def wrapper_ok_def

lemma keeps_refl [simp]: "keeps n n"
  by (simp add: keeps_def grows_def)

lemma keeps_trans [trans]: "keeps n n1 \<Longrightarrow> keeps n1 n2 \<Longrightarrow> keeps n n2"
  by (auto simp: keeps_def grows_def)

lemma keeps_upd [simp]:
  "keeps n (upd_smgr a f n)" "keeps n (upd_server a srv n)" "keeps n (upd_metrics m h n)"
  by (auto simp: keeps_def grows_def cells_defs cell_defs split: option.split)

lemma keeps_leader [simp]: "keeps n (touch_leader g n)" "keeps n (set_leader g b n)" "keeps n (notify_all n)"
  by (auto simp: keeps_def grows_def cells_defs touch_leader_def set_leader_def notify_all_def)

lemma keeps_register [simp]: "keeps n (register_mgr_type t p n)"
  by (auto simp: keeps_def grows_def cells_defs register_mgr_type_def)

lemma keeps_shutdown_for [simp]: "keeps n (shutdown_for g n)"
  by (auto simp: keeps_def grows_def cells_defs shutdown_for_def)

lemma keeps_erase [simp]: "keeps n (n\<lparr>nd_state_managers := om_erase g (nd_state_managers n)\<rparr>)"
  by (auto simp: keeps_def grows_def cells_defs)

lemma keeps_adopt:
  "keeps n (n\<lparr>nd_smgrs := nd_smgrs n @ [sm],
     nd_state_managers := fst (om_emplace g (Some (length (nd_smgrs n))) (nd_state_managers n))\<rparr>)"
  by (auto simp: keeps_def grows_def cells_defs less_Suc_eq split: if_splits option.splits)

lemma keeps_event: "keeps n (generic_raft_event_handler g ty prm n)"
  using keeps_trans [OF keeps_leader(2) keeps_leader(3)]
  by (auto simp: generic_raft_event_handler_def exit_group_def split: cb_type.split option.split)

lemma keeps_stop_entry: "keeps n (stop_entry api g w n)"
  using keeps_trans [OF keeps_upd(2) keeps_shutdown_for] by (auto simp: stop_entry_def Let_def)

lemma keeps_shutdown_loop: "keeps n (svc_shutdown_loop api es n)"
  by (induction api es n rule: svc_shutdown_loop.induct) (auto intro: keeps_trans keeps_stop_entry)

lemma keeps_on_group: "on_group f g n = (r, n') \<Longrightarrow> keeps n n'"
  by (auto simp: on_group_def Let_def split: option.splits prod.splits run.splits)

lemma keeps_become: "svc_become_leader api g n = (r, n') \<Longrightarrow> keeps n n'"
  by (auto simp: svc_become_leader_def Let_def split: option.splits prod.splits run.splits)

lemma keeps_leave_group:
  assumes "leave_group api g n = (r, n')"
  shows "keeps n n'"
proof -
  define n1 where "n1 = svc_leave_group api g n"
  have n1: "keeps n n1" by (simp add: n1_def svc_leave_group_def keeps_stop_entry split: option.split)
  have "keeps n1 ((upd_smgr a f n1)\<lparr>nd_state_managers := om_erase g (nd_state_managers n1)\<rparr>)" for a f
    using keeps_trans [OF keeps_upd(1) [of n1 a f] keeps_erase [of _ g]] by (simp add: upd_smgr_def)
  then show ?thesis
    using assms keeps_trans [OF n1]
    by (auto simp: leave_group_def n1_def [symmetric] n1 Let_def upd_smgr_def split: if_splits option.splits)
qed

lemma keeps_members:
  shows "add_member_cfg api g cfg seen n = (r, n') \<Longrightarrow> keeps n n'"
    and "rem_member h api g q n = (r, n') \<Longrightarrow> keeps n n'"
    and "append_entries api g bufs n = (r, n') \<Longrightarrow> keeps n n'"
    and "become_leader api g seen n = (r, n') \<Longrightarrow> keeps n n'"
proof -
  show "keeps n n'" if "add_member_cfg api g cfg seen n = (r, n')"
  proof -
    obtain q n1 where q: "svc_add_member api g cfg n = (q, n1)" by (rule prod.exhaust)
    then have "n' = n \<or> n' = n1" using that by (cases q) (auto simp: add_member_cfg_def split: if_splits sum.splits)
    with keeps_on_group [OF q [unfolded svc_add_member_def]] show ?thesis by auto
  qed
  show "keeps n n'" if "rem_member h api g q n = (r, n')"
    using that by (auto simp: rem_member_def svc_rem_member_def intro: keeps_on_group split: if_splits)
  show "keeps n n'" if "append_entries api g bufs n = (r, n')"
    using that by (auto simp: append_entries_def svc_append_entries_def intro: keeps_on_group split: if_splits)
  show "keeps n n'" if "become_leader api g seen n = (r, n')"
  proof -
    obtain q n1 where q: "svc_become_leader api g (touch_leader g n) = (q, n1)" by (rule prod.exhaust)
    then have "n' = touch_leader g n \<or> n' = n1"
      using that by (cases q) (auto simp: become_leader_def Let_def split: if_splits bool.splits)
    with keeps_trans [OF keeps_leader(1) keeps_become [OF q]] show ?thesis by auto
  qed
qed

lemma keeps_operation:
  assumes "manager_step api app n x n'" and "\<not> is_join x"
  shows "keeps n n'"
  using assms by (cases rule: manager_step.cases) (auto intro: keeps_event keeps_leave_group keeps_members)

text \<open>The server, the data service and the counters are not pointers.\<close>

lemma keeps_view:
  assumes "nd_state_mgr_types n' = nd_state_mgr_types n" "nd_state_managers n' = nd_state_managers n"
    "nd_is_leader n' = nd_is_leader n" "nd_raft_servers n' = nd_raft_servers n" "nd_servers n' = nd_servers n"
    "nd_smgrs n' = nd_smgrs n" "nd_metrics n' = nd_metrics n"
  shows "keeps n n'"
  using assms by (simp add: keeps_def grows_def cells_defs)

lemma keeps_restart:
  assumes "restart_server env made n = (r, n')"
  shows "keeps n n'"
proof (rule keeps_view)
qed (use assms in \<open>auto simp: restart_server_def proto_associate_def svc_associate_def Let_def
    split: if_splits run.splits bool.splits prod.splits\<close>)

lemma keeps_start:
  assumes "start env made data n = (r, n')"
  shows "keeps n n'"
proof -
  have "keeps n (if nd_started n then n else msg_service_new data n)"
    by (auto simp: msg_service_new_def keeps_def grows_def cells_defs)
  then show ?thesis using assms keeps_trans keeps_restart unfolding start_def by blast
qed

lemma keeps_bind:
  assumes "bind_data_service_request io env name g h n = (r, n')"
  shows "keeps n n'"
proof (rule keeps_view)
qed (use assms in \<open>auto simp: bind_data_service_request_def svc_bind_data_service_request_def Let_def
    split: if_splits option.splits prod.splits\<close>)

lemma keeps_dtor:
  assumes "manager_dtor api n = (r, n')"
  shows "keeps n n'"
proof -
  define n1 where "n1 = svc_shutdown api (n\<lparr>nd_manager_alive := False\<rparr>)"
  have "keeps n (n\<lparr>nd_manager_alive := False\<rparr>)" by (rule keeps_view) simp_all
  moreover from this have "keeps n n1" using keeps_shutdown_loop keeps_trans unfolding n1_def svc_shutdown_def by blast
  moreover have "keeps n1 (n1\<lparr>nd_grpc_server := srv\<rparr>)" for srv by (rule keeps_view) simp_all
  ultimately show ?thesis
    using assms keeps_trans by (auto simp: manager_dtor_def n1_def [symmetric] Let_def split: if_splits option.splits)
qed

section \<open>Joins\<close>

definition ctx_ok :: "('p, 'srv, 'h) node \<Rightarrow> 'p raft_context \<Rightarrow> bool" where
  "ctx_ok n ctx \<longleftrightarrow> (\<forall>a. cx_metrics ctx = Some a \<longrightarrow> a < length (nd_metrics n))"

lemma ctx_ok_grows: "ctx_ok n ctx \<Longrightarrow> grows n n' \<Longrightarrow> ctx_ok n' ctx"
  by (auto simp: ctx_ok_def grows_def)

lemma cells_group_state_mgr:
  assumes "group_state_mgr app s g n = (Ret a, n')" and "cells_ok n"
  shows "cells_ok n' \<and> nd_servers n' = nd_servers n \<and> nd_metrics n' = nd_metrics n"
proof (cases "om_find (nd_state_managers n) g")
  case (Some p)
  then have "n' = n" using assms by (auto simp: group_state_mgr_def om_emplace_def)
  with assms(2) show ?thesis by simp
next
  case None
  then obtain sm where "n' = n\<lparr>nd_smgrs := nd_smgrs n @ [sm],
      nd_state_managers := om_assign g (Some (length (nd_smgrs n))) (om_assign g None (nd_state_managers n))\<rparr>"
    using assms(1) by (auto simp: group_state_mgr_def om_emplace_def Let_def split: if_splits option.splits)
  then show ?thesis using assms(2) by (auto simp: cells_defs less_Suc_eq split: if_splits)
qed

lemma cells_join_check:
  assumes "join_check app s g t n = (Ret (Inr ctx), n')" and "cells_ok n"
  shows "cells_ok n' \<and> grows n n' \<and> ctx_ok n' ctx \<and> cx_group ctx = g"
proof -
  define m where "m = (if nd_metrics_enabled n then Some (length (nd_metrics n)) else None)"
  from assms(1) obtain t' n0 where gi: "group_init app s g t' m n = (Ret (Inr ctx), n0)"
    and n': "n' = (if nd_metrics_enabled n
       then n0\<lparr>nd_metrics := nd_metrics n0 @ [\<lparr>group_steps = 0, group_sends = 0, append_entries_observed = 0\<rparr>]\<rparr> else n0)"
    by (auto simp: join_check_def m_def Let_def split: if_splits prod.splits run.splits sum.splits)
  from gi obtain a n1 where gs: "group_state_mgr app s g n = (Ret a, n1)" and n0: "n0 = ready_state_mgr a n1"
    and ctx: "cx_group ctx = g" "cx_metrics ctx = m"
    by (elim group_init_Inr) auto
  note facts = cells_group_state_mgr [OF gs assms(2)]
  have "cells_ok n0" using facts keeps_upd(1) unfolding n0 ready_state_mgr_def keeps_def by blast
  then have "cells_ok n'" by (auto simp: n' cells_defs intro: less_SucI)
  with facts ctx show ?thesis by (auto simp: n' n0 m_def grows_def ctx_ok_def)
qed

lemma cells_join_commit:
  assumes "cells_ok n" and "ctx_ok n ctx"
  shows "cells_ok (join_commit api ctx n) \<and> grows n (join_commit api ctx n)"
proof -
  define n1 where "n1 srv = n\<lparr>nd_servers := nd_servers n @ [srv]\<rparr>" for srv
  define n2 where "n2 srv = (n1 srv)\<lparr>nd_raft_servers := om_assign (cx_group ctx)
    \<lparr>w_metrics = cx_metrics ctx, w_server = length (nd_servers n)\<rparr> (nd_raft_servers n)\<rparr>" for srv
  have "cells_ok (n1 srv) \<and> grows n (n1 srv)" "cells_ok (n2 srv) \<and> grows n (n2 srv)" for srv
    using assms by (auto simp: n1_def n2_def cells_defs grows_def ctx_ok_def intro: less_SucI split: if_splits)
  moreover have "join_commit api ctx n =
      (let srv = api_new_server api (ctx\<lparr>cx_listener := Some (cx_group ctx)\<rparr>) in
       if om_find (nd_raft_servers n) (cx_group ctx) = None
       then (if nd_data_service_enabled n
             then upd_smgr (cx_state_mgr ctx) (make_repl_ctx (length (nd_servers n)) (cx_group ctx, cx_group_type ctx)) (n2 srv)
             else n2 srv)
       else if api_dtor_releases api then shutdown_for (cx_group ctx) (n1 srv) else n1 srv)"
    by (simp add: join_commit_def n1_def n2_def Let_def)
  moreover have "cells_ok (f k) \<and> grows n (f k)" if "cells_ok k \<and> grows n k" "keeps k (f k)"
    for k and f :: "('a, 'b, 'c) node \<Rightarrow> ('a, 'b, 'c) node"
    using that by (auto simp: keeps_def grows_def)
  ultimately show ?thesis by (simp add: Let_def)
qed

text \<open>The whole join, and a message that is received.\<close>

lemma keeps_join:
  assumes "joinRaftGroup api app s g t n = (Ret c, n')" and "cells_ok n"
  shows "cells_ok n' \<and> grows n n'"
proof -
  from assms(1) consider (early) "join_check app s g t n = (Ret (Inl c), n')"
    | (commit) ctx n1 where "join_check app s g t n = (Ret (Inr ctx), n1)" "n' = join_commit api ctx n1"
    by (auto simp: joinRaftGroup_def split: prod.splits run.splits sum.splits)
  then show ?thesis
  proof cases
    case early
    then show ?thesis using join_check_Inl [OF early] assms(2) by (simp add: grows_def)
  next
    case commit
    note ck = cells_join_check [OF commit(1) assms(2)]
    then show ?thesis using cells_join_commit [of n1 ctx api] commit(2) by (auto simp: grows_def)
  qed
qed

lemma raftStep_node:
  assumes "raftStep io mt api app rpc (n, ps) = (Ret b, r, n', ps')" and "cells_ok n"
  shows "cells_ok n' \<and> grows n n'"
proof -
  from assms(1) consider "n' = n"
    | s g t c where "joinRaftGroup api app s g t n = (Ret c, n')"
    by (auto simp: raftStep_def Let_def split: option.splits if_splits prod.splits run.splits)
  then show ?thesis
  proof cases
    case 1
    then show ?thesis using assms(2) by (simp add: grows_def)
  next
    case 2
    then show ?thesis using keeps_join [OF 2 assms(2)] by simp
  qed
qed

text \<open>The two halves of a join request make up \<open>raftStep\<close>.\<close>

lemma raftStep_halves:
  assumes "pb_type (rm_base (gm_msg (rpc_request rpc))) = join_cluster_request mt"
    and "string_generator io (gm_group_id (rpc_request rpc)) = Some g"
    and "string_generator io (gm_intended_addr (rpc_request rpc)) = Some (nd_service_address n)"
    and "join_check app (pb_dest (rm_base (gm_msg (rpc_request rpc)))) g (gm_group_type (rpc_request rpc)) n = (Ret (Inr ctx), n1)"
  shows "raftStep io mt api app rpc (n, ps) =
    (case route_request mt rpc g (join_commit api ctx n1) ps of (b, r, ps') \<Rightarrow> (Ret b, r, join_commit api ctx n1, ps'))"
  using assms by (simp add: raftStep_def route_request_def joinRaftGroup_def Let_def split: option.split)

section \<open>The invariant\<close>

definition tasks_of :: "service_pools \<Rightarrow> task list" where
  "tasks_of ps = pl_queue (raft_pool ps) @ pl_running (raft_pool ps) @ pl_queue (io_pool ps) @ pl_running (io_pool ps)"

text \<open>The RAFT server and the metrics a closure has captured exist.\<close>

definition task_ok :: "('p, 'srv, 'h) node \<Rightarrow> task \<Rightarrow> bool" where
  "task_ok n t \<longleftrightarrow> wrapper_ok n \<lparr>w_metrics = tk_metrics t, w_server = tk_server t\<rparr>"

definition process_ok :: "('p, 'srv, 'h) process \<Rightarrow> bool" where
  "process_ok p \<longleftrightarrow> cells_ok (pr_node p) \<and> pools_ok (pr_pools p) \<and>
     (\<forall>t \<in> set (tasks_of (pr_pools p)). task_ok (pr_node p) t) \<and>
     (\<forall>j \<in> set (pr_joins p). ctx_ok (pr_node p) (fst j))"

definition join_ids :: "('p raft_context \<times> rpc option) list \<Rightarrow> nat multiset" where
  "join_ids js = mset (concat (map (\<lambda>j. case snd j of None \<Rightarrow> [] | Some r \<Rightarrow> [rpc_id r]) js))"

definition call_ids :: "('p, 'srv, 'h) process \<Rightarrow> nat multiset" where
  "call_ids p = all_ids (pr_pools p) + join_ids (pr_joins p)"

lemma task_ok_grows: "task_ok n t \<Longrightarrow> grows n n' \<Longrightarrow> task_ok n' t"
  by (auto simp: task_ok_def wrapper_ok_def grows_def)

lemma set_removed: "set (removed i xs) \<subseteq> set xs"
  unfolding removed_def using set_take_subset [of i xs] set_drop_subset [of "Suc i" xs] by auto

lemma join_ids_removed:
  assumes "i < length js"
  shows "join_ids js = join_ids (removed i js) + join_ids [js ! i]"
proof -
  have "js = take i js @ js ! i # drop (Suc i) js" by (rule id_take_nth_drop [OF assms])
  then have "join_ids js = join_ids (take i js @ js ! i # drop (Suc i) js)" by simp
  then show ?thesis by (simp add: join_ids_def removed_def)
qed

lemma join_ids_simps [simp]:
  "join_ids (js @ [(ctx, None)]) = join_ids js"
  "join_ids (js @ [(ctx, Some r)]) = add_mset (rpc_id r) (join_ids js)"
  "join_ids [(ctx, None)] = {#}" "join_ids [(ctx, Some r)] = {#rpc_id r#}"
  by (simp_all add: join_ids_def)

lemma process_ok_node:
  assumes "process_ok p" and "cells_ok n'" and "grows (pr_node p) n'"
  shows "process_ok (p\<lparr>pr_node := n'\<rparr>)"
  using assms by (auto simp: process_ok_def intro: task_ok_grows ctx_ok_grows)

lemma process_ok_keeps: "process_ok p \<Longrightarrow> keeps (pr_node p) n' \<Longrightarrow> process_ok (p\<lparr>pr_node := n'\<rparr>)"
  using process_ok_node [of p n'] by (auto simp: keeps_def process_ok_def)

lemma process_ok_join:
  assumes "process_ok p" and "join_check app s g t n = (Ret (Inr ctx), n')" and "keeps (pr_node p) n"
  shows "process_ok (p\<lparr>pr_node := n', pr_joins := pr_joins p @ [(ctx, r)]\<rparr>)"
proof -
  have n: "cells_ok n" "grows (pr_node p) n" using assms(1,3) by (auto simp: keeps_def process_ok_def)
  note ck = cells_join_check [OF assms(2) n(1)]
  then have "process_ok (p\<lparr>pr_node := n'\<rparr>)"
    using n(2) by (intro process_ok_node [OF assms(1)]) (auto simp: grows_def)
  then show ?thesis using ck by (auto simp: process_ok_def)
qed

lemma process_ok_pools:
  assumes "process_ok p" and "pools_ok ps'" and "\<forall>t \<in> set (tasks_of ps'). task_ok (pr_node p) t"
  shows "process_ok (p\<lparr>pr_pools := ps'\<rparr>)"
  using assms by (simp add: process_ok_def)

lemma process_ok_removed: "process_ok p \<Longrightarrow> process_ok (p\<lparr>pr_joins := removed i (pr_joins p)\<rparr>)"
  using set_removed [of i "pr_joins p"] by (auto simp: process_ok_def)

lemma process_ok_commit:
  assumes "process_ok p" and "i < length (pr_joins p)" and "pr_joins p ! i = (ctx, r)"
  shows "process_ok (p\<lparr>pr_node := join_commit api ctx (pr_node p), pr_joins := removed i (pr_joins p)\<rparr>)"
proof -
  have "ctx_ok (pr_node p) ctx" using assms nth_mem [OF assms(2)] by (force simp: process_ok_def)
  with assms(1) have "process_ok (p\<lparr>pr_node := join_commit api ctx (pr_node p)\<rparr>)"
    using cells_join_commit [of "pr_node p" ctx api] process_ok_node [OF assms(1)] by (simp add: process_ok_def)
  from process_ok_removed [OF this, of i] show ?thesis by simp
qed

text \<open>What the routing of a request does to the pools.\<close>

lemma tasks_route: "set (tasks_of (route_to_pool mt ty t ps)) = insert t (set (tasks_of ps))"
  by (auto simp: tasks_of_def route_to_pool_def pool_post_def)

lemma reply_now_route:
  assumes "cells_ok n" and "pools_ok ps" and "\<forall>t \<in> set (tasks_of ps). task_ok n t"
  shows "pools_ok (reply_now (route_request mt rpc g n ps)) \<and>
    (\<forall>t \<in> set (tasks_of (reply_now (route_request mt rpc g n ps))). task_ok n t) \<and>
    all_ids (reply_now (route_request mt rpc g n ps)) = add_mset (rpc_id rpc) (all_ids ps)"
proof (cases "om_find (nd_raft_servers n) g")
  case None
  then show ?thesis
    using assms by (simp add: reply_now_def route_request_def Let_def pools_ok_def tasks_of_def all_ids_def)
next
  case (Some w)
  then have "wrapper_ok n w" using assms(1) by (simp add: cells_ok_def)
  with Some assms show ?thesis
    by (auto simp: reply_now_def route_request_def Let_def tasks_route task_ok_def wrapper_ok_def)
qed

lemma reply_now_raftStep:
  assumes "raftStep io mt api app rpc (n, ps) = (Ret b, r, n', ps')"
    and "cells_ok n'" and "pools_ok ps" and "\<forall>t \<in> set (tasks_of ps). task_ok n' t"
  shows "pools_ok (reply_now (b, r, ps')) \<and> (\<forall>t \<in> set (tasks_of (reply_now (b, r, ps'))). task_ok n' t) \<and>
    all_ids (reply_now (b, r, ps')) = add_mset (rpc_id rpc) (all_ids ps)"
proof (cases b)
  case True
  then have "ps' = ps" "rpc_id r = rpc_id rpc"
    using raftStep_True_pools [of io mt api app rpc n ps r n' ps'] raftStep_Ret_id [OF assms(1)] assms(1) True by auto
  then show ?thesis
    using assms(3,4) True by (simp add: reply_now_def pools_ok_def tasks_of_def all_ids_def)
next
  case False
  then obtain g w where "om_find (nd_raft_servers n') g = Some w"
    and ps': "ps' = route_to_pool mt (pb_type (rm_base (gm_msg (rpc_request rpc))))
        \<lparr>tk_server = w_server w, tk_metrics = w_metrics w, tk_rpc = rpc\<rparr> ps"
    using raftStep_False [of io mt api app rpc n ps r n' ps'] assms(1) by auto
  then have "wrapper_ok n' w" using assms(2) by (simp add: cells_ok_def)
  with False assms(3,4) show ?thesis
    by (auto simp: reply_now_def ps' tasks_route task_ok_def wrapper_ok_def)
qed

text \<open>A step of a pool.\<close>

lemma keeps_execute_step:
  assumes "execute_step api mt t n = (Ret r, n')"
  shows "keeps n n'"
proof -
  define n1 where "n1 = upd_metrics (tk_metrics t) (\<lambda>m. m\<lparr>group_steps := Suc (group_steps m)\<rparr>) n"
  have "keeps n1 (upd_server a srv n1)" "keeps n1 (upd_metrics m f (upd_server a srv n1))" for a srv m f
    using keeps_trans [OF keeps_upd(2) keeps_upd(3)] by simp_all
  then have "keeps n1 n'"
    using assms unfolding execute_step_def Let_def n1_def [symmetric] step_def
    by (auto split: run.splits prod.splits option.splits if_splits)
  then show ?thesis using keeps_trans [OF keeps_upd(3)] unfolding n1_def by blast
qed

lemma pool_step_node: "pool_step api mt (n, ps) (n', ps') \<Longrightarrow> keeps n n'"
  by (elim pool_stepE) (auto dest: keeps_execute_step)

definition pool_tasks :: "pool \<Rightarrow> task set" where
  "pool_tasks q = set (pl_queue q) \<union> set (pl_running q)"

lemma set_tasks_of: "set (tasks_of ps) = pool_tasks (raft_pool ps) \<union> pool_tasks (io_pool ps)"
  by (auto simp: tasks_of_def pool_tasks_def)

lemma pool_begin_tasks: "pool_begin q = Some q' \<Longrightarrow> pool_tasks q' = pool_tasks q"
  by (auto simp: pool_begin_def pool_tasks_def split: list.splits if_splits)

lemma pool_finish_tasks: "pool_tasks (pool_finish i q) \<subseteq> pool_tasks q"
  using set_removed [of i "pl_running q"] by (auto simp: pool_finish_def removed_def pool_tasks_def)

lemma pool_step_tasks:
  assumes "pool_step api mt (n, ps) (n', ps')"
  shows "set (tasks_of ps') \<subseteq> set (tasks_of ps)"
  using assms pool_finish_tasks unfolding set_tasks_of by (elim pool_stepE) (auto simp: pool_begin_tasks)

lemma process_step_inv:
  assumes "process_step io mt api app p k p'" and ok: "process_ok p"
  shows "process_ok p' \<and> call_ids p' = call_ids p + mset (case k of None \<Rightarrow> [] | Some i \<Rightarrow> [i])"
  using assms(1)
proof (cases rule: process_step.cases)
  case (p_receive j req b r n' ps')
  have n: "cells_ok n' \<and> grows (pr_node p) n'"
    using raftStep_node [OF p_receive(3)] ok by (simp add: process_ok_def)
  then have "process_ok (p\<lparr>pr_node := n'\<rparr>)" using process_ok_node [OF ok] by simp
  moreover from this have "\<forall>t \<in> set (tasks_of (pr_pools p)). task_ok n' t" "pools_ok (pr_pools p)"
    by (simp_all add: process_ok_def)
  ultimately show ?thesis
    using reply_now_raftStep [OF p_receive(3)] n p_receive(1,2)
    by (simp add: process_ok_def call_ids_def rpc_new_def)
next
  case (p_received_join i ctx rpc n')
  have "process_ok (p\<lparr>pr_node := n', pr_joins := removed i (pr_joins p)\<rparr>)"
    using process_ok_commit [OF ok p_received_join(3,4)] p_received_join(5) by simp
  then show ?thesis
    using reply_now_route [of n' "pr_pools p" mt rpc "cx_group ctx"] p_received_join
      join_ids_removed [OF p_received_join(3)]
    by (simp add: process_ok_def call_ids_def)
next
  case (p_joined i ctx)
  then show ?thesis
    using process_ok_commit [OF ok p_joined(3,4)] join_ids_removed [OF p_joined(3)] by (simp add: call_ids_def)
next
  case (p_pool n' ps')
  have "process_ok (p\<lparr>pr_node := n'\<rparr>)" using process_ok_keeps [OF ok pool_step_node [OF p_pool(3)]] .
  then show ?thesis
    using p_pool(1,2) pool_step_inv [OF p_pool(3)] pool_step_tasks [OF p_pool(3)] pool_step_ids [OF p_pool(3)]
    by (auto simp: process_ok_def call_ids_def)
next
  case (p_create_done g t c n')
  then have "keeps (pr_node p) n'" using join_check_Inl [OF p_create_done(3)] by simp
  then show ?thesis using process_ok_keeps [OF ok] p_create_done by (simp add: call_ids_def)
next
  case (p_join_done g t c n')
  then have "n' = pr_node p" using join_check_Inl [OF p_join_done(3)] by simp
  then show ?thesis using process_ok_keeps [OF ok] ok p_join_done by (simp add: call_ids_def)
qed (simp_all add: call_ids_def rpc_new_def process_ok_keeps [OF ok] process_ok_join [OF ok] keeps_adopt
    keeps_operation keeps_start keeps_bind keeps_dtor)

lemma process_run_inv:
  assumes "process_run io mt api app p ks p'" and "process_ok p"
  shows "process_ok p' \<and> call_ids p' = call_ids p + mset ks"
  using assms
proof (induction rule: process_run.induct)
  case (process_run_step p ks p' k p'')
  then show ?case using process_step_inv [of io mt api app p' k p''] by simp
qed simp

section \<open>Progress\<close>

definition threads_of :: "service_pools \<Rightarrow> nat \<times> nat" where
  "threads_of ps = (pl_threads (raft_pool ps), pl_threads (io_pool ps))"

lemma threads_reply_route [simp]: "threads_of (reply_now (route_request mt rpc g n ps)) = threads_of ps"
  by (auto simp: threads_of_def reply_now_def route_request_def route_to_pool_def pool_post_def Let_def split: option.split)

lemma threads_pool_step: "pool_step api mt (n, ps) (n', ps') \<Longrightarrow> threads_of ps' = threads_of ps"
  by (elim pool_stepE) (auto simp: threads_of_def pool_begin_threads pool_finish_def)

lemma threads_raftStep:
  assumes "raftStep io mt api app rpc (n, ps) = (Ret b, r, n', ps')"
  shows "threads_of (reply_now (b, r, ps')) = threads_of ps"
  using assms raftStep_True_pools [of io mt api app rpc n ps r n' ps'] raftStep_False [of io mt api app rpc n ps r n' ps']
  by (cases b) (auto simp: threads_of_def reply_now_def route_to_pool_def pool_post_def)

lemma threads_process_step:
  "process_step io mt api app p k p' \<Longrightarrow> threads_of (pr_pools p') = threads_of (pr_pools p)"
  by (erule process_step.cases) (auto simp: threads_pool_step threads_raftStep)

lemma threads_process_run: "process_run io mt api app p ks p' \<Longrightarrow> threads_of (pr_pools p') = threads_of (pr_pools p)"
  by (induction rule: process_run.induct) (auto dest: threads_process_step)

text \<open>Every call that is not answered holds a request.\<close>

definition rpc_has_request :: "rpc \<Rightarrow> bool" where
  "rpc_has_request r \<longleftrightarrow> (\<exists>q. rm_req_resp (gm_msg (rpc_request r)) = Rc_request q)"

definition calls_hold_requests :: "('p, 'srv, 'h) process \<Rightarrow> bool" where
  "calls_hold_requests p \<longleftrightarrow> (\<forall>t \<in> set (tasks_of (pr_pools p)). rpc_has_request (tk_rpc t)) \<and>
     (\<forall>ctx r. (ctx, Some r) \<in> set (pr_joins p) \<longrightarrow> rpc_has_request r)"

definition pool_load :: "pool \<Rightarrow> nat" where
  "pool_load q = 2 * length (pl_queue q) + length (pl_running q)"

definition load :: "('p, 'srv, 'h) process \<Rightarrow> nat" where
  "load p = 3 * length (pr_joins p) + pool_load (raft_pool (pr_pools p)) + pool_load (io_pool (pr_pools p))"

lemma pool_begin_load:
  assumes "pl_queue q \<noteq> []" and "pl_running q = []" and "0 < pl_threads q"
  shows "\<exists>q'. pool_begin q = Some q' \<and> pool_load q' < pool_load q"
  using assms by (cases "pl_queue q") (auto simp: pool_begin_def pool_load_def)

lemma pool_finish_load: "pl_running q \<noteq> [] \<Longrightarrow> pool_load (pool_finish 0 q) < pool_load q"
  by (cases "pl_running q") (simp_all add: pool_finish_def pool_load_def)

text \<open>A pool that has something to do can do it.\<close>

lemma pools_progress:
  assumes "\<And>r srv. fst (api_process_req api r srv) \<noteq> Crash"
    and "\<forall>t \<in> set (tasks_of ps). rpc_has_request (tk_rpc t)"
    and "0 < pl_threads (raft_pool ps)" and "0 < pl_threads (io_pool ps)"
    and "pool_load (raft_pool ps) + pool_load (io_pool ps) \<noteq> 0"
  shows "\<exists>n' ps'. pool_step api mt (n, ps) (n', ps') \<and>
    pool_load (raft_pool ps') + pool_load (io_pool ps') < pool_load (raft_pool ps) + pool_load (io_pool ps)"
proof -
  have ex: "\<exists>r n'. execute_step api mt (pl_running q ! 0) n = (Ret r, n')"
    if "pl_running q \<noteq> []" "q = raft_pool ps \<or> q = io_pool ps" for q
  proof -
    have "pl_running q ! 0 \<in> set (tasks_of ps)" using that by (auto simp: tasks_of_def)
    then have "task_has_request (pl_running q ! 0)"
      using assms(2) by (simp add: rpc_has_request_def task_has_request_def)
    then show ?thesis by (rule execute_step_returns [OF _ assms(1)])
  qed
  consider "pl_running (raft_pool ps) \<noteq> []" | "pl_running (io_pool ps) \<noteq> []"
    | "pl_running (raft_pool ps) = []" "pl_queue (raft_pool ps) \<noteq> []"
    | "pl_running (io_pool ps) = []" "pl_queue (io_pool ps) \<noteq> []"
    using assms(5) by (auto simp: pool_load_def)
  then show ?thesis
  proof cases
    case 1
    then obtain r n' where "execute_step api mt (pl_running (raft_pool ps) ! 0) n = (Ret r, n')" using ex by blast
    with 1 show ?thesis using pool_step.raft_finish [of 0 ps api mt n r n'] pool_finish_load [OF 1] by fastforce
  next
    case 2
    then obtain r n' where "execute_step api mt (pl_running (io_pool ps) ! 0) n = (Ret r, n')" using ex by blast
    with 2 show ?thesis using pool_step.io_finish [of 0 ps api mt n r n'] pool_finish_load [OF 2] by fastforce
  next
    case 3
    then show ?thesis using pool_begin_load [OF 3(2,1) assms(3)] pool_step.raft_begin by fastforce
  next
    case 4
    then show ?thesis using pool_begin_load [OF 4(2,1) assms(4)] pool_step.io_begin by fastforce
  qed
qed

lemma load_reply_route:
  "pool_load (raft_pool (reply_now (route_request mt rpc g n ps))) + pool_load (io_pool (reply_now (route_request mt rpc g n ps)))
     \<le> pool_load (raft_pool ps) + pool_load (io_pool ps) + 2"
  by (auto simp: reply_now_def route_request_def route_to_pool_def pool_post_def pool_load_def Let_def split: option.split)

lemma tasks_reply_route:
  "set (tasks_of (reply_now (route_request mt rpc g n ps))) \<subseteq>
     set (tasks_of ps) \<union> {t. tk_rpc t = rpc}"
  by (auto simp: reply_now_def route_request_def Let_def tasks_route split: option.splits)
    (simp_all add: tasks_of_def)

lemma process_progress:
  assumes crash: "\<And>r srv. fst (api_process_req api r srv) \<noteq> Crash"
    and hold: "calls_hold_requests p"
    and "0 < fst (threads_of (pr_pools p))" and "0 < snd (threads_of (pr_pools p))"
    and "load p \<noteq> 0"
  shows "\<exists>p'. process_step io mt api app p None p' \<and> calls_hold_requests p' \<and> load p' < load p"
proof (cases "pr_joins p")
  case (Cons j js)
  obtain ctx r where j: "j = (ctx, r)" by (cases j)
  define n' where "n' = join_commit api ctx (pr_node p)"
  show ?thesis
  proof (cases r)
    case None
    let ?p = "p\<lparr>pr_node := n', pr_joins := removed 0 (pr_joins p)\<rparr>"
    have "process_step io mt api app p None ?p"
      using process_step.p_joined [of 0 p ctx io mt api app] Cons j None by (simp add: n'_def)
    moreover have "calls_hold_requests ?p" "load ?p < load p"
      using hold Cons by (auto simp: calls_hold_requests_def load_def removed_def)
    ultimately show ?thesis by blast
  next
    case (Some rpc)
    let ?ps = "reply_now (route_request mt rpc (cx_group ctx) n' (pr_pools p))"
    let ?p = "p\<lparr>pr_node := n', pr_pools := ?ps, pr_joins := removed 0 (pr_joins p)\<rparr>"
    have "process_step io mt api app p None ?p"
      using process_step.p_received_join [of 0 p ctx rpc n' api io mt app] Cons j Some by (simp add: n'_def)
    moreover have "load ?p < load p"
      using load_reply_route [of mt rpc "cx_group ctx" n' "pr_pools p"] Cons by (simp add: load_def removed_def)
    moreover have "rpc_has_request rpc" using hold Cons j Some by (auto simp: calls_hold_requests_def)
    then have "calls_hold_requests ?p"
      using hold Cons tasks_reply_route [of mt rpc "cx_group ctx" n' "pr_pools p"]
      by (auto simp: calls_hold_requests_def removed_def)
    ultimately show ?thesis by blast
  qed
next
  case Nil
  obtain n' ps' where st: "pool_step api mt (pr_node p, pr_pools p) (n', ps')"
    and less: "pool_load (raft_pool ps') + pool_load (io_pool ps') < pool_load (raft_pool (pr_pools p)) + pool_load (io_pool (pr_pools p))"
    using pools_progress [OF crash, where ps = "pr_pools p" and n = "pr_node p" and mt = mt] hold assms(3-5) Nil
    by (auto simp: calls_hold_requests_def threads_of_def load_def)
  let ?p = "p\<lparr>pr_node := n', pr_pools := ps'\<rparr>"
  have "process_step io mt api app p None ?p" by (rule process_step.p_pool [OF st])
  moreover have "calls_hold_requests ?p" using hold pool_step_tasks [OF st] Nil by (auto simp: calls_hold_requests_def)
  moreover have "load ?p < load p" using less by (simp add: load_def)
  ultimately show ?thesis by blast
qed

lemma process_run_trans:
  assumes "process_run io mt api app p' ks' p''" and "process_run io mt api app p ks p'"
  shows "process_run io mt api app p (ks @ ks') p''"
  using assms
proof (induction rule: process_run.induct)
  case (process_run_step p' ks' q k q')
  then show ?case using process_run.process_run_step [of io mt api app p "ks @ ks'" q k q'] by simp
qed simp

lemma process_drains:
  assumes crash: "\<And>r srv. fst (api_process_req api r srv) \<noteq> Crash"
  shows "calls_hold_requests p \<Longrightarrow> 0 < fst (threads_of (pr_pools p)) \<Longrightarrow> 0 < snd (threads_of (pr_pools p)) \<Longrightarrow>
    \<exists>p'. process_run io mt api app p [] p' \<and> load p' = 0"
proof (induction "load p" arbitrary: p rule: less_induct)
  case less
  show ?case
  proof (cases "load p = 0")
    case True
    then show ?thesis using process_run_Nil by blast
  next
    case False
    obtain p1 where st: "process_step io mt api app p None p1" and p1: "calls_hold_requests p1" "load p1 < load p"
      using process_progress [OF crash less.prems False] by blast
    obtain p' where "process_run io mt api app p1 [] p'" "load p' = 0"
      using less.hyps [OF p1(2,1)] less.prems(2,3) threads_process_step [OF st] by auto
    moreover have "process_run io mt api app p [] p1"
      using process_run_step [OF process_run_Nil st] by simp
    ultimately show ?thesis using process_run_trans by fastforce
  qed
qed

section \<open>Properties\<close>

text \<open>A process that has just been constructed.\<close>

definition process_new ::
  "(uuid \<Rightarrow> u64) \<Rightarrow> peer_id \<Rightarrow> group_type \<Rightarrow> bool \<Rightarrow> u16 \<Rightarrow> u32 \<Rightarrow> ('p, 'srv, 'h) process" where
  "process_new hasher uuid default_type metrics raft_threads io_threads =
     \<lparr>pr_node = manager_new hasher uuid default_type metrics, pr_pools = proto_service_new raft_threads io_threads,
      pr_joins = []\<rparr>"

lemma process_new_ok: "process_ok (process_new h u t m rt it)" "call_ids (process_new h u t m rt it) = {#}"
  by (simp_all add: process_ok_def process_new_def cells_defs manager_new_def om_inv_def pools_ok_def
      proto_service_new_def tasks_of_def pool_new_def pool_ok_def call_ids_def all_ids_def pool_ids_def join_ids_def)


lemma sample_receive:
  "\<exists>p :: (nat, sample_srv, nat) process. process_run bits_uuid_io sample_mt sample_api sample_app
      (process_new (\<lambda>_. 0) 5 ''t'' True 2 0) [4] p \<and> length (sent (pr_pools p)) = 1"
proof -
  let ?p = "process_new (\<lambda>_. 0) 5 ''t'' True 2 0 :: (nat, sample_srv, nat) process"
  obtain req where req: "sample_rpc 3 = rpc_new 4 req" by (simp add: sample_rpc_def)
  obtain r n' where st: "raftStep bits_uuid_io sample_mt sample_api sample_app (rpc_new 4 req) (pr_node ?p, pr_pools ?p)
      = (Ret True, r, n', pr_pools ?p)"
    using sample_rpc_strings [of 3]
    by (simp add: req [symmetric] raftStep_def Let_def process_new_def manager_new_def sample_fields)
  show ?thesis
    using process_run_step [OF process_run_Nil process_step.p_receive [OF st]]
    by (intro exI conjI) (simp, simp add: reply_now_def process_new_def proto_service_new_def)
qed


text \<open>C9:
  No call is ever beyond being answered. From every state a process can reach, in any
  interleaving, the steps the layer takes by itself - finishing joins and running the pools -
  lead to a state in which every call received has been answered exactly once and nothing is
  left waiting. The hypotheses are that the RAFT pool was given a thread (the I/O pool always
  has one), that the calls not yet answered hold requests, and that the RAFT servers do not
  bring the process down.
\<close>

theorem process_answers_all:
  assumes "process_run io mt api app (process_new h u t m rt it) ks p" and "rt \<noteq> 0"
    and "calls_hold_requests p" and "\<And>r srv. fst (api_process_req api r srv) \<noteq> Crash"
  shows "\<exists>p'. process_run io mt api app p [] p' \<and> tasks_of (pr_pools p') = [] \<and> pr_joins p' = [] \<and>
    mset (map rpc_id (sent (pr_pools p'))) = mset ks"
proof -
  have "threads_of (pr_pools p) = (unat rt, calculate_io_pool_size it)"
    using threads_process_run [OF assms(1)] by (simp add: threads_of_def process_new_def proto_service_new_def pool_new_def)
  then have "0 < fst (threads_of (pr_pools p))" "0 < snd (threads_of (pr_pools p))"
    using assms(2) by (auto simp: calculate_io_pool_size_def unat_gt_0 word_gt_0)
  from process_drains [OF assms(4,3) this] obtain p' where run: "process_run io mt api app p [] p'" and 0: "load p' = 0"
    by blast
  then have rest: "tasks_of (pr_pools p') = []" "pr_joins p' = []"
    by (auto simp: load_def pool_load_def tasks_of_def)
  have "call_ids p' = mset ks"
    using process_run_inv [OF process_run_trans [OF run assms(1)] process_new_ok(1)] by (simp add: process_new_ok)
  then have "mset (map rpc_id (sent (pr_pools p'))) = mset ks"
    using rest by (simp add: call_ids_def all_ids_def pool_ids_def tasks_of_def join_ids_def)
  with run rest show ?thesis by blast
qed

theorem process_answers_all_witness:
  "\<exists>p p' :: (nat, sample_srv, nat) process. process_run bits_uuid_io sample_mt sample_api sample_app
      (process_new (\<lambda>_. 0) 5 ''t'' True 2 0) [4] p \<and>
     process_run bits_uuid_io sample_mt sample_api sample_app p [] p' \<and> mset (map rpc_id (sent (pr_pools p'))) = {#4#}"
proof -
  obtain p :: "(nat, sample_srv, nat) process" where run: "process_run bits_uuid_io sample_mt sample_api sample_app
      (process_new (\<lambda>_. 0) 5 ''t'' True 2 0) [4] p" and sent: "length (sent (pr_pools p)) = 1"
    using sample_receive by blast
  have "call_ids p = {#4#}" using process_run_inv [OF run process_new_ok(1)] by (simp add: process_new_ok)
  then have "size (call_ids p) = 1" by simp
  then have "tasks_of (pr_pools p) = []" "join_ids (pr_joins p) = {#}"
    using sent by (auto simp: call_ids_def all_ids_def pool_ids_def tasks_of_def)
  moreover from this(2) have "(ctx, Some r) \<notin> set (pr_joins p)" for ctx r by (force simp: join_ids_def)
  ultimately have "calls_hold_requests p" by (simp add: calls_hold_requests_def)
  from process_answers_all [OF run _ this] show ?thesis using run by (auto simp: sample_api_def)
qed

text \<open>C35:
  Leaving a group while it is being joined leaves a server behind that cannot be stopped. If
  \<open>leave_group\<close> runs between the check and the insertion of \<open>joinRaftGroup\<close>, it finds no RAFT
  server, tells the state manager to destroy itself and forgets it. The join then goes on: the
  node serves the group, with the destroyed state manager, and has no entry for it among its
  state managers - so every later \<open>leave_group\<close> returns without doing anything.
\<close>

theorem leave_during_join:
  assumes "manager_inv n" and "join_check app s g t n = (Ret (Inr ctx), n1)"
  shows "\<exists>n2. leave_group api g n1 = (Ret (), n2) \<and>
    (let n3 = join_commit api ctx n2 in
     om_find (nd_raft_servers n3) g = Some \<lparr>w_metrics = cx_metrics ctx, w_server = length (nd_servers n)\<rparr> \<and>
     Permanent_destroy \<in> set (sm_calls (nd_smgrs n3 ! cx_state_mgr ctx)) \<and>
     om_find (nd_state_managers n3) g = None \<and> leave_group api g n3 = (Ret (), n3))"
proof -
  define a where "a = cx_state_mgr ctx"
  have inv: "node_inv n" "nd_started n" using assms(1) by (simp_all add: manager_inv_def)
  note ck = join_check_Inr [OF inv(1) assms(2), folded a_def]
  have started: "nd_started n1" using join_check_frame [OF assms(2)] inv(2) by (simp add: join_frame_def)
  define n2 where "n2 = (upd_smgr a (sm_call Permanent_destroy) n1)\<lparr>nd_state_managers := om_erase g (nd_state_managers n1)\<rparr>"
  have leave: "leave_group api g n1 = (Ret (), n2)"
    using ck started by (simp add: leave_group_def svc_leave_group_def n2_def upd_smgr_def Let_def)
  define n3 where "n3 = join_commit api ctx n2"
  have fresh: "om_find (nd_raft_servers n2) (cx_group ctx) = None" and group: "cx_group ctx = g"
    using ck by (simp_all add: n2_def upd_smgr_def)
  note cm = join_commit_new [OF fresh, of api, folded n3_def]
  have "om_find (nd_raft_servers n3) g = Some \<lparr>w_metrics = cx_metrics ctx, w_server = length (nd_servers n)\<rparr>"
    using cm(1) group ck by (simp add: n2_def upd_smgr_def)
  moreover have none: "om_find (nd_state_managers n3) g = None"
    using cm(3) ck by (simp add: n2_def node_inv_def node_maps_ok_def)
  moreover have "leave_group api g n3 = (Ret (), n3)" using none by (simp add: leave_group_def)
  moreover have "Permanent_destroy \<in> set (sm_calls (nd_smgrs n3 ! a))"
    using ck fresh group
    by (simp add: n3_def join_commit_def n2_def upd_smgr_def sm_call_def make_repl_ctx_def Let_def a_def)
  ultimately show ?thesis using leave by (auto simp: n3_def a_def Let_def)
qed

theorem leave_during_join_witness:
  "\<exists>ctx n1 n2. join_check sample_app 1 7 ''t'' sample_node = (Ret (Inr ctx), n1) \<and>
     leave_group sample_api 7 n1 = (Ret (), n2) \<and> om_find (nd_state_managers (join_commit sample_api ctx n2)) 7 = None"
proof -
  obtain ctx n1 where ck: "join_check sample_app 1 7 ''t'' sample_node = (Ret (Inr ctx), n1)"
    by (simp add: join_check_def group_init_def group_state_mgr_def om_emplace_def Let_def sample_defs)
  show ?thesis using leave_during_join [OF sample_manager_inv(1) ck, of sample_api] ck by (auto simp: Let_def)
qed

end
