(* ===== verification/Log_Limiter.thy ===== *)
theory Log_Limiter
  imports Wire
begin

text \<open>
  The limiter on the log lines of failed data requests, \<open>log_every_nth\<close> of
  \<open>src/proto/proto_mesg_factory.cpp\<close>: the failures of a thread are counted per peer and
  error over a window of a minute, and a failure is logged when its number is a power of
  two.
\<close>

unbundle bit_operations_syntax

definition is_powerof2 :: "u64 \<Rightarrow> bool" where
  "is_powerof2 v \<longleftrightarrow> v \<noteq> 0 \<and> v AND (v - 1) = 0"

definition every_nth_sec :: u64 where
  "every_nth_sec = 60"

text \<open>
  The thread's table: count and start of the window, in seconds of the clock. The keys
  of a hash table are never iterated, so an ordered map stands for it.
\<close>

type_synonym t_errors = "(string, u64 \<times> nat) omap"

definition log_every_nth :: "nat \<Rightarrow> string \<Rightarrow> grpc_status \<Rightarrow> t_errors \<Rightarrow> bool \<times> t_errors" where
  "log_every_nth now addr status errors =
     (let msg = addr @ ''-'' @ error_message status;
          (failed_count, errors') =
            (case om_find errors msg of
               Some (count, since) \<Rightarrow>
                 (if unat every_nth_sec < now - since then (1, om_assign msg (1, now) errors)
                  else (count + 1, om_assign msg (count + 1, since) errors))
             | None \<Rightarrow> (1, om_assign msg (1, now) errors))
      in (is_powerof2 failed_count, errors'))"

text \<open>The same failure at the given times.\<close>

fun log_failures :: "string \<Rightarrow> grpc_status \<Rightarrow> nat list \<Rightarrow> t_errors \<Rightarrow> bool list" where
  "log_failures addr status [] errors = []"
| "log_failures addr status (now # ts) errors =
     (let (logged, errors') = log_every_nth now addr status errors in logged # log_failures addr status ts errors')"

section \<open>The bit trick\<close>

text \<open>Clearing the lowest bit set leaves nothing exactly for the powers of two.\<close>

lemma odd_part: "0 < n \<Longrightarrow> \<exists>k q. n = 2 ^ k * (2 * q + 1)" for n :: nat
proof (induction n rule: less_induct)
  case (less n)
  show ?case
  proof (cases "even n")
    case True
    then obtain m where m: "n = 2 * m" by (elim evenE)
    with less.prems have "m < n" "0 < m" by simp_all
    then obtain k q where "m = 2 ^ k * (2 * q + 1)" using less.IH by blast
    then have "n = 2 ^ Suc k * (2 * q + 1)" by (simp add: m)
    then show ?thesis by blast
  next
    case False
    then obtain q where "n = 2 * q + 1" by (elim oddE)
    then show ?thesis by (intro exI [of _ 0] exI [of _ q]) simp
  qed
qed

lemma clear_lowest_bit:
  fixes q :: nat
  shows "2 ^ k * (2 * q + 1) AND (2 ^ k * (2 * q + 1) - 1) = push_bit (Suc k) q"
proof -
  have "push_bit (Suc k) q + 2 ^ k = push_bit (Suc k) q OR 2 ^ k"
    by (rule disjunctive_add) (auto simp: bit_simps bit_0)
  moreover have "push_bit (Suc k) q + mask k = push_bit (Suc k) q OR mask k"
    by (rule disjunctive_add) (auto simp: bit_simps bit_0)
  moreover have "2 ^ k * (2 * q + 1) = push_bit (Suc k) q + 2 ^ k" "2 ^ k * (2 * q + 1) - 1 = push_bit (Suc k) q + mask k"
    by (simp_all add: push_bit_eq_mult mask_eq_exp_minus_1 algebra_simps)
  ultimately show ?thesis by (auto intro!: bit_eqI simp: bit_simps bit_0)
qed

lemma is_powerof2_iff: "is_powerof2 v \<longleftrightarrow> (\<exists>k. unat v = 2 ^ k)"
proof (cases "v = 0")
  case False
  then have pos: "0 < unat v" by (simp add: unat_gt_0)
  then obtain k q where v: "unat v = 2 ^ k * (2 * q + 1)" using odd_part by blast
  have and_unat: "unat (v AND (v - 1)) = unat v AND (unat v - 1)"
    unfolding unsigned_and_eq unat_minus_one [OF False] ..
  have "v AND (v - 1) = 0 \<longleftrightarrow> unat (v AND (v - 1)) = 0" by (rule unsigned_eq_0_iff [symmetric])
  with False have "is_powerof2 v \<longleftrightarrow> unat v AND (unat v - 1) = 0"
    unfolding and_unat by (simp only: is_powerof2_def simp_thms)
  moreover have "unat v AND (unat v - 1) = 0" if "unat v = 2 ^ j" for j
    using clear_lowest_bit [of j 0] unfolding that by (simp only: mult_0_right add_0 mult_1_right push_bit_of_0)
  moreover have "unat v = 2 ^ k" if "unat v AND (unat v - 1) = 0"
  proof -
    have "push_bit (Suc k) q = 0" using that unfolding v clear_lowest_bit .
    then have "q = 0" by (simp add: push_bit_eq_mult)
    then show ?thesis using v by simp
  qed
  ultimately show ?thesis by metis
qed (simp add: is_powerof2_def)

section \<open>A run of failures\<close>

lemma log_failures_window:
  assumes "om_find errors (addr @ ''-'' @ error_message status) = Some (c, since)"
    and "\<forall>t \<in> set ts. t \<le> since + 60" and "unat c + length ts < 2 ^ 64"
  shows "log_failures addr status ts errors = map (\<lambda>n. \<exists>k. unat c + n = 2 ^ k) [1..<Suc (length ts)]"
  using assms
proof (induction ts arbitrary: errors c)
  case (Cons t ts)
  have u: "unat (c + 1) = unat c + 1" using Cons.prems(3) by (simp add: unat_word_ariths)
  let ?e = "om_assign (addr @ ''-'' @ error_message status) (c + 1, since) errors"
  have step: "log_every_nth t addr status errors = (\<exists>k. unat c + 1 = 2 ^ k, ?e)"
    using Cons.prems(1,2) u by (auto simp: log_every_nth_def every_nth_sec_def is_powerof2_iff Let_def)
  have "log_failures addr status ts ?e = map (\<lambda>n. \<exists>k. unat (c + 1) + n = 2 ^ k) [1..<Suc (length ts)]"
    using Cons.prems u by (intro Cons.IH) simp_all
  moreover have "[1..<Suc (length (t # ts))] = 1 # map Suc [1..<Suc (length ts)]"
    by (simp add: upt_conv_Cons map_Suc_upt del: upt_Suc)
  ultimately show ?case by (simp add: step u comp_def del: upt_Suc)
qed simp

section \<open>Property\<close>

text \<open>
  C28: While a peer keeps failing with the same error within a minute of the first failure,
  the n-th failure is logged exactly if n is a power of two.
\<close>

theorem log_every_nth_powers:
  assumes "om_find errors (addr @ ''-'' @ error_message status) = None"
    and "\<forall>t' \<in> set ts. t' \<le> t + 60" and "length ts < 2 ^ 64 - 1"
  shows "log_failures addr status (t # ts) errors = map (\<lambda>n. \<exists>k. n = 2 ^ k) [1..<Suc (length (t # ts))]"
proof -
  let ?msg = "addr @ ''-'' @ error_message status"
  have one: "\<exists>k. (1 :: nat) = 2 ^ k" by (rule exI [of _ 0]) simp
  have first: "log_every_nth t addr status errors = (True, om_assign ?msg (1, t) errors)"
    using assms(1) one by (simp add: log_every_nth_def is_powerof2_iff)
  have "log_failures addr status ts (om_assign ?msg (1, t) errors) =
      map (\<lambda>n. \<exists>k. unat (1 :: u64) + n = 2 ^ k) [1..<Suc (length ts)]"
    using assms(2,3) by (intro log_failures_window) simp_all
  moreover have "[1..<Suc (length (t # ts))] = 1 # map Suc [1..<Suc (length ts)]"
    by (simp add: upt_conv_Cons map_Suc_upt del: upt_Suc)
  ultimately show ?thesis using one by (simp add: first comp_def del: upt_Suc)
qed

theorem log_every_nth_powers_witness:
  "log_failures ''host'' Status_OK [0, 1, 2, 3, 4] [] =
     map (\<lambda>n. \<exists>k. n = 2 ^ k) [1..<Suc (length [0, 1, 2, 3, 4 :: nat])]"
  by (rule log_every_nth_powers) simp_all

end
