(* ===== verification/Flatb.thy ===== *)
theory Flatb
  imports Wire
begin

text \<open>
  The flatbuffers client (\<open>src/flatb/flatb_client.cpp\<close>): the tables of \<open>raft_types.fbs\<close>, the
  translation of a request and of a response, and the completion of a request. Absent fields
  of a flatbuffers table are null pointers. Of a request the content is modelled that
  \<open>fromRequest\<close> puts into its builder; what it returns is an offset into that builder, which
  is destroyed when it returns.
\<close>

text \<open>A log type has 16 bits here; \<open>MessageBase\<close> has the fields of \<open>RCMsgBase\<close>.\<close>

record fb_LogEntry =
  fe_term :: u64
  fe_type :: u16
  fe_buffer :: buffer
  fe_timestamp :: u64

record fb_Request =
  fq_msg_base :: RCMsgBase
  fq_last_log_term :: u64
  fq_last_log_index :: u64
  fq_commit_index :: u64
  fq_logs :: "fb_LogEntry list"

fun fb_entry_vec :: "log_entry list \<Rightarrow> fb_LogEntry list" where
  "fb_entry_vec [] = []"
| "fb_entry_vec (entry # entries) =
     \<lparr>fe_term = le_term entry, fe_type = ucast (le_val_type entry), fe_buffer = le_buf entry,
      fe_timestamp = le_timestamp entry\<rparr> # fb_entry_vec entries"

definition fb_fromRequest :: "req_msg \<Rightarrow> fb_Request" where
  "fb_fromRequest rcmsg =
     \<lparr>fq_msg_base = \<lparr>pb_term = m_term rcmsg, pb_type = m_type rcmsg, pb_src = m_src rcmsg, pb_dest = m_dst rcmsg\<rparr>,
      fq_last_log_term = last_log_term rcmsg, fq_last_log_index = last_log_idx rcmsg,
      fq_commit_index = commit_idx rcmsg, fq_logs = fb_entry_vec (log_entries rcmsg)\<rparr>"

record fb_Response =
  fr_msg_base :: "RCMsgBase option"
  fr_next_index :: u64
  fr_accepted :: bool
  fr_dest_addr :: "string option"
  fr_result_code :: i32
  fr_context :: "buffer option"

text \<open>
  \<open>toResponse\<close>; unlike the protobuf translation it takes the code as it is and has no
  batch size hint, which stays at the library's default.
\<close>

definition fb_toResponse :: "fb_Response \<Rightarrow> grpc_resp run" where
  "fb_toResponse resp =
     run_bind (deref (fr_msg_base resp)) (\<lambda>base.
     run_bind (if fr_result_code resp = NOT_LEADER then deref (fr_dest_addr resp) else Ret []) (\<lambda>addr.
     run_bind (deref (fr_context resp)) (\<lambda>ctx.
       Ret \<lparr>m_term = pb_term base, m_type = pb_type base, m_src = pb_src base, m_dst = pb_dest base,
            next_idx = fr_next_index resp, accepted = fr_accepted resp,
            resp_ctx = (if 0 < length ctx then Some ctx else None), next_batch_size_hint = 0,
            result_code = fr_result_code resp, dest_addr = addr\<rparr>)))"

definition fb_send_complete ::
  "req_msg \<Rightarrow> fb_Response \<Rightarrow> grpc_status \<Rightarrow> (grpc_resp option \<times> rpc_exception option) run" where
  "fb_send_complete req response status =
     (if status_ok status then run_bind (fb_toResponse response) (\<lambda>resp. Ret (Some resp, None))
      else Ret (None, Some \<lparr>ex_what = error_message status, ex_req = req\<rparr>))"

text \<open>
  On the same content the two clients hand the RAFT library the same response, but for
  the hint; a response without a context, or a \<open>NOT_LEADER\<close> without an address, which the
  protobuf client reads as empty, is a null pointer here.
\<close>

definition as_proto :: "fb_Response \<Rightarrow> u64 \<Rightarrow> RaftMessage" where
  "as_proto r hint =
     \<lparr>rm_base = (case fr_msg_base r of Some b \<Rightarrow> b | None \<Rightarrow> RCMsgBase_default),
      rm_req_resp = Rc_response
        \<lparr>pr_next_index = fr_next_index r, pr_accepted = fr_accepted r,
         pr_context = (case fr_context r of Some c \<Rightarrow> c | None \<Rightarrow> []),
         pr_dest_addr = (case fr_dest_addr r of Some a \<Rightarrow> a | None \<Rightarrow> []),
         pr_result_code = 0 - fr_result_code r, pr_batch_size_hint = hint\<rparr>\<rparr>"

text \<open>The same request as a protobuf message, with the log type read back at 32 bits.\<close>

definition request_as_proto :: "fb_Request \<Rightarrow> RaftMessage" where
  "request_as_proto q =
     \<lparr>rm_base = fq_msg_base q,
      rm_req_resp = Rc_request
        \<lparr>pq_last_log_term = fq_last_log_term q, pq_last_log_index = fq_last_log_index q,
         pq_commit_index = fq_commit_index q,
         pq_log_entries = map (\<lambda>e. \<lparr>pl_term = fe_term e, pl_type = ucast (fe_type e), pl_buffer = fe_buffer e,
           pl_timestamp = fe_timestamp e\<rparr>) (fq_logs q)\<rparr>\<rparr>"

lemma ucast_16_32_iff: "ucast (ucast (t :: u32) :: u16) = t \<longleftrightarrow> t < 65536"
proof -
  have "ucast (ucast t :: u16) = t mod 65536"
    by (simp add: unsigned_ucast_eq take_bit_eq_mod)
  moreover have "uint t mod 65536 = uint t \<longleftrightarrow> uint t < 65536"
    using pos_mod_bound [of 65536 "uint t"] mod_pos_pos_trivial [of "uint t" 65536] uint_ge_0 [of t] by linarith
  ultimately show ?thesis unfolding word_uint_eq_iff uint_mod by (simp only: word_less_def uint_numeral) simp
qed

text \<open>
  The two clients put the same request on the wire exactly when no log entry has a type of
  more than 16 bits; all those of the schema have fewer.
\<close>

lemma fb_fromRequest_agrees:
  "request_as_proto (fb_fromRequest r) = grpc_request r \<longleftrightarrow> (\<forall>e \<in> set (log_entries r). le_val_type e < 65536)"
proof -
  have "map (\<lambda>e. \<lparr>pl_term = fe_term e, pl_type = ucast (fe_type e), pl_buffer = fe_buffer e,
      pl_timestamp = fe_timestamp e\<rparr>) (fb_entry_vec es) = map fromLogEntry es \<longleftrightarrow>
    (\<forall>e \<in> set es. le_val_type e < 65536)" for es
    by (induction es) (auto simp: fromLogEntry_def ucast_16_32_iff)
  then show ?thesis
    by (simp add: request_as_proto_def fb_fromRequest_def grpc_request_def fromBaseRequest_def fromRCRequest_def)
qed

lemma fb_toResponse_agrees:
  "fb_toResponse r =
     (if fr_msg_base r = None \<or> fr_context r = None \<or> fr_result_code r = NOT_LEADER \<and> fr_dest_addr r = None
      then Crash
      else Ret ((the (toResponse (as_proto r hint)))\<lparr>next_batch_size_hint := 0\<rparr>))"
  by (auto simp: fb_toResponse_def toResponse_def as_proto_def Let_def split: option.splits)

end
