(* ===== verification/Logger.thy ===== *)
theory Logger
  imports Std_Map
begin

text \<open>
  The logger the library hands to the RAFT servers (\<open>src/lib/logger.hpp\<close>): which of the two
  logs, the process's and the manager's own, a line of a given level goes to. Formatting and
  the logs are those of \<open>spdlog\<close>.
\<close>

datatype log_level = Critical | Err | Warn | Info | Debug | Trace

text \<open>
  A line as it is handed to a log: level, source file without its directory, line, function,
  text and group. \<open>file_name\<close> is the macro of the logging library.
\<close>

record log_line =
  ln_level :: log_level
  ln_file :: string
  ln_line :: u64
  ln_func :: string
  ln_text :: string
  ln_group :: group_id

record logs =
  global_log :: "log_line list"
  custom_log :: "log_line list"

record nuraft_mesg_logger =
  lo_group_id :: group_id
  lo_custom_logger :: bool

definition nuraft_mesg_logger_new :: "group_id \<Rightarrow> bool \<Rightarrow> nuraft_mesg_logger" where
  "nuraft_mesg_logger_new gid custom_logger = \<lparr>lo_group_id = gid, lo_custom_logger = custom_logger\<rparr>"

definition set_level :: "i32 \<Rightarrow> nuraft_mesg_logger \<Rightarrow> nuraft_mesg_logger" where
  "set_level level lg = lg"

text \<open>A line to the custom log, whose pointer may be null.\<close>

definition to_custom :: "nuraft_mesg_logger \<Rightarrow> log_line \<Rightarrow> logs \<Rightarrow> logs run" where
  "to_custom lg l s = (if lo_custom_logger lg then Ret (s\<lparr>custom_log := custom_log s @ [l]\<rparr>) else Crash)"

definition to_global :: "log_line \<Rightarrow> logs \<Rightarrow> logs" where
  "to_global l s = s\<lparr>global_log := global_log s @ [l]\<rparr>"

text \<open>\<open>put_details\<close>; \<open>levelcheck\<close> says which levels are enabled for the module.\<close>

definition put_details ::
  "(log_level \<Rightarrow> bool) \<Rightarrow> (string \<Rightarrow> string) \<Rightarrow> nuraft_mesg_logger \<Rightarrow> i32 \<Rightarrow> string \<Rightarrow> string \<Rightarrow> u64 \<Rightarrow> string
   \<Rightarrow> logs \<Rightarrow> logs run" where
  "put_details levelcheck file_name lg level source_file func_name line_number text s =
     (let line = (\<lambda>l. \<lparr>ln_level = l, ln_file = file_name source_file, ln_line = line_number, ln_func = func_name,
                        ln_text = text, ln_group = lo_group_id lg\<rparr>) in
      if level = 1 then
        (if levelcheck Critical then to_custom lg (line Critical) (to_global (line Critical) s) else Ret s)
      else if level = 2 then
        (if levelcheck Err then to_custom lg (line Err) (to_global (line Err) s) else Ret s)
      else if level = 3 then
        (if levelcheck Warn then Ret (to_global (line Warn) s) else Ret s)
      else if level = 4 then
        (if levelcheck Info then to_custom lg (line Info) s else Ret s)
      else if level = 5 then
        (if levelcheck Debug then to_custom lg (line Debug) s else Ret s)
      else
        (if levelcheck Trace then to_custom lg (line Trace) s else Ret s))"

text \<open>
  With a custom log no line is lost and none is logged twice in the same log: a line of an
  enabled level is in the process's log if it is a warning or worse, and in the custom log
  unless it is a warning; a line of another level is in neither. Levels that the RAFT library
  does not have are traces. Every line carries the group.
\<close>

definition level_of :: "i32 \<Rightarrow> log_level" where
  "level_of level =
     (if level = 1 then Critical else if level = 2 then Err else if level = 3 then Warn
      else if level = 4 then Info else if level = 5 then Debug else Trace)"

lemma put_details_routes:
  assumes "lo_custom_logger lg"
  shows "\<exists>s' l. put_details levelcheck file_name lg level src func no txt s = Ret s' \<and>
    ln_level l = level_of level \<and> ln_text l = txt \<and> ln_group l = lo_group_id lg \<and>
    global_log s' = global_log s @ (if levelcheck (level_of level) \<and> level_of level \<in> {Critical, Err, Warn} then [l] else []) \<and>
    custom_log s' = custom_log s @ (if levelcheck (level_of level) \<and> level_of level \<noteq> Warn then [l] else [])"
  using assms
  by (intro exI [where x = "case put_details levelcheck file_name lg level src func no txt s of Ret s' \<Rightarrow> s' | _ \<Rightarrow> s"]
      exI [where x = "\<lparr>ln_level = level_of level, ln_file = file_name src, ln_line = no, ln_func = func,
        ln_text = txt, ln_group = lo_group_id lg\<rparr>"])
    (simp add: put_details_def level_of_def to_custom_def to_global_def Let_def)

text \<open>Without a custom log every enabled line but a warning is a null pointer.\<close>

lemma put_details_no_custom:
  assumes "\<not> lo_custom_logger lg"
  shows "put_details levelcheck file_name lg level src func no txt s = Crash \<longleftrightarrow>
    levelcheck (level_of level) \<and> level_of level \<noteq> Warn"
  using assms by (simp add: put_details_def level_of_def to_custom_def to_global_def Let_def)

end
