(* ===== verification/Byte_Codec.thy ===== *)
theory Byte_Codec
  imports Prelude
begin

text \<open>
  Machine words as little-endian byte strings, used to give concrete instances of the
  RAFT library's buffer format. The only fact that matters is that reading gives back
  what was written.
\<close>

unbundle bit_operations_syntax

primrec to_bytes :: "nat \<Rightarrow> 'a::len word \<Rightarrow> byte list" where
  "to_bytes 0 w = []"
| "to_bytes (Suc n) w = ucast w # to_bytes n (drop_bit 8 w)"

primrec of_bytes :: "byte list \<Rightarrow> 'a::len word" where
  "of_bytes [] = 0"
| "of_bytes (b # bs) = ucast b OR push_bit 8 (of_bytes bs)"

lemma length_to_bytes [simp]: "length (to_bytes n w) = n"
  by (induction n arbitrary: w) simp_all

lemma of_bytes_to_bytes: "of_bytes (to_bytes n w) = take_bit (8 * n) w"
proof (induction n arbitrary: w)
  case 0
  then show ?case by simp
next
  case (Suc n)
  show ?case
  proof (rule bit_word_eqI)
    fix i
    assume "i < LENGTH('a)"
    then show "bit (of_bytes (to_bytes (Suc n) w) :: 'a word) i = bit (take_bit (8 * Suc n) w) i"
      by (cases "i < 8") (auto simp: Suc bit_simps)
  qed
qed

lemma of_bytes_to_bytes_full [simp]:
  "LENGTH('a::len) \<le> 8 * n \<Longrightarrow> of_bytes (to_bytes n (w :: 'a word)) = w"
  by (simp add: of_bytes_to_bytes take_bit_word_eq_self)

end
