(* ===== verification/Log_Store.thy ===== *)
theory Log_Store
  imports Wire Refinement Byte_Codec
begin

text \<open>
  The in-memory log of the example application (\<open>test_package/in_memory_log_store.cpp\<close>):
  a \<open>std::map\<close> from 64-bit indices to entries with a dummy at index 0, and the index of
  the first entry. It refines a start index with a list of entries. Assertions are on.
\<close>

section \<open>State\<close>

record inmem_log_store =
  ls_logs :: "(u64, log_entry) omap"
  ls_start_idx :: u64

text \<open>The constructor; the dummy entry is built by the RAFT library's constructor.\<close>

definition log_store_new :: "log_entry \<Rightarrow> inmem_log_store" where
  "log_store_new dummy = \<lparr>ls_logs = om_assign 0 dummy [], ls_start_idx = 1\<rparr>"

definition make_clone :: "log_entry \<Rightarrow> log_entry" where
  "make_clone entry =
     \<lparr>le_term = le_term entry, le_buf = le_buf entry, le_val_type = le_val_type entry,
      le_timestamp = le_timestamp entry\<rparr>"

section \<open>Reading\<close>

definition next_slot :: "inmem_log_store \<Rightarrow> u64" where
  "next_slot s = ls_start_idx s + of_nat (length (ls_logs s)) - 1"

definition start_index :: "inmem_log_store \<Rightarrow> u64" where
  "start_index s = ls_start_idx s"

text \<open>\<open>find(index)\<close>, or else \<open>find(0)\<close>, and the use of the iterator.\<close>

definition find_or_dummy :: "inmem_log_store \<Rightarrow> u64 \<Rightarrow> log_entry run" where
  "find_or_dummy s index =
     (case om_find (ls_logs s) index of
        Some e \<Rightarrow> Ret e
      | None \<Rightarrow> deref (om_find (ls_logs s) 0))"

definition last_entry :: "inmem_log_store \<Rightarrow> log_entry run" where
  "last_entry s = run_bind (find_or_dummy s (next_slot s - 1)) (\<lambda>e. Ret (make_clone e))"

definition entry_at :: "u64 \<Rightarrow> inmem_log_store \<Rightarrow> log_entry run" where
  "entry_at index s = run_bind (find_or_dummy s index) (\<lambda>e. Ret (make_clone e))"

definition term_at :: "u64 \<Rightarrow> inmem_log_store \<Rightarrow> u64 run" where
  "term_at index s = run_bind (find_or_dummy s index) (\<lambda>e. Ret (le_term e))"

definition last_durable_index :: "inmem_log_store \<Rightarrow> u64" where
  "last_durable_index s = next_slot s - 1"

text \<open>Nothing is buffered: \<open>flush\<close> succeeds and \<open>close\<close> does nothing.\<close>

definition ls_flush :: "inmem_log_store \<Rightarrow> bool \<times> inmem_log_store" where
  "ls_flush s = (True, s)"

definition ls_close :: "inmem_log_store \<Rightarrow> inmem_log_store" where
  "ls_close s = s"

text \<open>
  The loop \<open>for (ii = start; ii < end; ++ii)\<close>, by the number of rounds left; a missing
  entry is a failed assertion.
\<close>

fun collect_entries :: "nat \<Rightarrow> u64 \<Rightarrow> inmem_log_store \<Rightarrow> log_entry list run" where
  "collect_entries 0 ii s = Ret []"
| "collect_entries (Suc n) ii s =
     run_bind (deref (om_find (ls_logs s) ii))
       (\<lambda>e. run_bind (collect_entries n (ii + 1) s) (\<lambda>es. Ret (make_clone e # es)))"

text \<open>\<open>resize(end - start)\<close> of an inverted range asks for more memory than there is.\<close>

definition ls_log_entries :: "u64 \<Rightarrow> u64 \<Rightarrow> inmem_log_store \<Rightarrow> log_entry list run" where
  "ls_log_entries start end1 s =
     (if end1 < start then Crash else collect_entries (unat end1 - unat start) start s)"

fun collect_sized ::
  "nat \<Rightarrow> u64 \<Rightarrow> u64 \<Rightarrow> u64 \<Rightarrow> inmem_log_store \<Rightarrow> log_entry list run" where
  "collect_sized 0 ii hint accum_size s = Ret []"
| "collect_sized (Suc n) ii hint accum_size s =
     run_bind (deref (om_find (ls_logs s) ii))
       (\<lambda>e. let accum = accum_size + of_nat (length (le_buf e)) in
            if hint \<noteq> 0 \<and> hint \<le> accum then Ret [make_clone e]
            else run_bind (collect_sized n (ii + 1) hint accum s) (\<lambda>es. Ret (make_clone e # es)))"

definition log_entries_ext :: "u64 \<Rightarrow> u64 \<Rightarrow> u64 \<Rightarrow> inmem_log_store \<Rightarrow> log_entry list run" where
  "log_entries_ext start end1 batch_size_hint_in_bytes s =
     (if sint batch_size_hint_in_bytes < 0 then Ret []
      else collect_sized (unat end1 - unat start) start batch_size_hint_in_bytes 0 s)"

section \<open>Writing\<close>

definition append_entry_ls :: "log_entry \<Rightarrow> inmem_log_store \<Rightarrow> u64 \<times> inmem_log_store" where
  "append_entry_ls entry s =
     (let clone = make_clone entry; idx = ls_start_idx s + of_nat (length (ls_logs s)) - 1 in
      (idx, s\<lparr>ls_logs := om_assign idx clone (ls_logs s)\<rparr>))"

definition write_at :: "u64 \<Rightarrow> log_entry \<Rightarrow> inmem_log_store \<Rightarrow> inmem_log_store" where
  "write_at index entry s =
     s\<lparr>ls_logs := om_assign index (make_clone entry) (om_erase_from index (ls_logs s))\<rparr>"

text \<open>
  The loop of \<open>compact\<close>, \<open>for (ii = start_idx_; ii <= last_log_index; ++ii)\<close>. With the
  greatest index it does not end, so it is a partial function; \<open>None\<close> is not returning.
\<close>

partial_function (option) compact_loop :: "u64 \<Rightarrow> u64 \<Rightarrow> (u64, log_entry) omap \<Rightarrow> (u64, log_entry) omap option" where
  "compact_loop ii last_log_index logs =
     (if ii \<le> last_log_index then compact_loop (ii + 1) last_log_index (om_erase ii logs) else Some logs)"

definition compact :: "u64 \<Rightarrow> inmem_log_store \<Rightarrow> inmem_log_store option" where
  "compact last_log_index s =
     (case compact_loop (ls_start_idx s) last_log_index (ls_logs s) of
        None \<Rightarrow> None
      | Some logs \<Rightarrow>
          Some \<lparr>ls_logs = logs,
                ls_start_idx = (if ls_start_idx s \<le> last_log_index then last_log_index + 1 else ls_start_idx s)\<rparr>)"

section \<open>Packs\<close>

text \<open>
  What the RAFT library's buffer and entry classes do: integers and entries as bytes.
\<close>

record log_codec =
  lc_serialize :: "log_entry \<Rightarrow> buffer"
  lc_deserialize :: "buffer \<Rightarrow> log_entry"
  lc_put_int :: "i32 \<Rightarrow> buffer"
  lc_get_int :: "buffer \<Rightarrow> i32"

definition log_codec_ok :: "log_codec \<Rightarrow> bool" where
  "log_codec_ok lc \<longleftrightarrow> (\<forall>e. lc_deserialize lc (lc_serialize lc e) = e)
     \<and> (\<forall>x. length (lc_put_int lc x) = 4 \<and> lc_get_int lc (lc_put_int lc x) = x)"

fun pack_loop :: "log_codec \<Rightarrow> nat \<Rightarrow> u64 \<Rightarrow> inmem_log_store \<Rightarrow> buffer list run" where
  "pack_loop lc 0 ii s = Ret []"
| "pack_loop lc (Suc n) ii s =
     run_bind (deref (om_find (ls_logs s) ii))
       (\<lambda>le. run_bind (pack_loop lc n (ii + 1) s) (\<lambda>bufs. Ret (lc_serialize lc le # bufs)))"

definition put_sized :: "log_codec \<Rightarrow> buffer \<Rightarrow> buffer" where
  "put_sized lc bb = lc_put_int lc (of_nat (length bb)) @ bb"

text \<open>
  \<open>pack\<close>; the bound of the loop is \<open>index + cnt\<close> in 64 bits. With a negative count
  \<open>buffer::alloc\<close> is asked for no byte (\<open>-1\<close>: the first \<open>put\<close> throws) or for nearly
  \<open>2\<^sup>6\<^sup>4\<close> bytes (the exception of the allocation is not caught).
\<close>

definition pack :: "log_codec \<Rightarrow> u64 \<Rightarrow> i32 \<Rightarrow> inmem_log_store \<Rightarrow> buffer run" where
  "pack lc index cnt s =
     run_bind (pack_loop lc (unat (index + scast cnt) - unat index) index s)
       (\<lambda>logs. if sint cnt = -1 then Runtime_error ''insufficient buffer''
               else if sint cnt < 0 then Crash
               else Ret (lc_put_int lc cnt @ concat (map (put_sized lc) logs)))"

text \<open>Reads past the end of a buffer throw; a negative size is a failed allocation.\<close>

definition get_int :: "log_codec \<Rightarrow> buffer \<Rightarrow> (i32 \<times> buffer) run" where
  "get_int lc b =
     (if length b < 4 then Runtime_error ''insufficient buffer''
      else Ret (lc_get_int lc (take 4 b), drop 4 b))"

definition get_buffer :: "i32 \<Rightarrow> buffer \<Rightarrow> (buffer \<times> buffer) run" where
  "get_buffer sz b =
     (if sint sz < 0 then Crash
      else if length b < unat sz then Runtime_error ''insufficient buffer''
      else Ret (take (unat sz) b, drop (unat sz) b))"

text \<open>The reads of one round of \<open>apply_pack\<close>: a size, the bytes, the entry.\<close>

definition get_sized :: "log_codec \<Rightarrow> buffer \<Rightarrow> (log_entry \<times> buffer) run" where
  "get_sized lc b =
     run_bind (get_int lc b) (\<lambda>(buf_size, b1).
       run_bind (get_buffer buf_size b1) (\<lambda>(buf_local, b2). Ret (lc_deserialize lc buf_local, b2)))"

text \<open>Entries read before an exception stay in the map, and the start index is not updated.\<close>

fun apply_pack_loop ::
  "log_codec \<Rightarrow> nat \<Rightarrow> u64 \<Rightarrow> buffer \<Rightarrow> inmem_log_store \<Rightarrow> unit run \<times> inmem_log_store" where
  "apply_pack_loop lc 0 cur_idx b s = (Ret (), s)"
| "apply_pack_loop lc (Suc n) cur_idx b s =
     (case get_sized lc b of
        Ret (le, b2) \<Rightarrow>
          apply_pack_loop lc n (cur_idx + 1) b2 (s\<lparr>ls_logs := om_assign cur_idx le (ls_logs s)\<rparr>)
      | Runtime_error e \<Rightarrow> (Runtime_error e, s)
      | Crash \<Rightarrow> (Crash, s))"

definition set_start_idx :: "inmem_log_store \<Rightarrow> inmem_log_store" where
  "set_start_idx s =
     s\<lparr>ls_start_idx := (case om_upper_bound 0 (ls_logs s) of Some e \<Rightarrow> fst e | None \<Rightarrow> 1)\<rparr>"

definition apply_pack ::
  "log_codec \<Rightarrow> u64 \<Rightarrow> buffer \<Rightarrow> inmem_log_store \<Rightarrow> unit run \<times> inmem_log_store" where
  "apply_pack lc index packed s =
     (case get_int lc packed of
        Ret (num_logs, b) \<Rightarrow>
          (let (r, s1) = apply_pack_loop lc (nat (sint num_logs)) index b s in
           (r, case r of Ret _ \<Rightarrow> set_start_idx s1 | _ \<Rightarrow> s1))
      | Runtime_error e \<Rightarrow> (Runtime_error e, s)
      | Crash \<Rightarrow> (Crash, s))"

section \<open>The log as a list\<close>

text \<open>
  \<open>log_rep s st d es\<close>: the store holds the dummy \<open>d\<close> and the entries \<open>es\<close> at the
  indices from \<open>st\<close> on, without gaps, and no index wraps around.
\<close>

definition log_rep :: "inmem_log_store \<Rightarrow> nat \<Rightarrow> log_entry \<Rightarrow> log_entry list \<Rightarrow> bool" where
  "log_rep s st d es \<longleftrightarrow>
     om_inv (ls_logs s) \<and> ls_start_idx s = of_nat st \<and> 1 \<le> st \<and> st + length es < 2 ^ 64 \<and>
     (\<forall>k. om_find (ls_logs s) k =
        (if k = 0 then Some d
         else if st \<le> unat k \<and> unat k < st + length es then Some (es ! (unat k - st))
         else None))"

lemma make_clone_same [simp]: "make_clone e = e"
  by (simp add: make_clone_def)

lemma unat_u64: "n < 2 ^ 64 \<Longrightarrow> unat (of_nat n :: u64) = n"
  by (simp add: unat_of_nat)

lemma of_nat_u64_eq: "n < 2 ^ 64 \<Longrightarrow> m < 2 ^ 64 \<Longrightarrow> (of_nat n :: u64) = of_nat m \<longleftrightarrow> n = m"
  by (metis unat_u64)

lemma of_nat_u64_eq_0: "n < 2 ^ 64 \<Longrightarrow> (of_nat n :: u64) = 0 \<longleftrightarrow> n = 0"
  using of_nat_u64_eq [of n 0] by simp

lemma log_repD:
  assumes "log_rep s st d es"
  shows rep_inv: "om_inv (ls_logs s)"
    and rep_start: "ls_start_idx s = of_nat st"
    and rep_pos: "1 \<le> st"
    and rep_bound: "st + length es < 2 ^ 64"
    and rep_dummy: "om_find (ls_logs s) 0 = Some d"
    and rep_find: "k \<noteq> 0 \<Longrightarrow> om_find (ls_logs s) k =
        (if st \<le> unat k \<and> unat k < st + length es then Some (es ! (unat k - st)) else None)"
  using assms by (simp_all add: log_rep_def)

lemma log_repI:
  assumes "om_inv (ls_logs s)" and "ls_start_idx s = of_nat st" and "1 \<le> st" and "st + length es < 2 ^ 64"
    and "om_find (ls_logs s) 0 = Some d"
    and "\<And>k. k \<noteq> 0 \<Longrightarrow> om_find (ls_logs s) k =
        (if st \<le> unat k \<and> unat k < st + length es then Some (es ! (unat k - st)) else None)"
  shows "log_rep s st d es"
  using assms unfolding log_rep_def by simp

lemma rep_find_at:
  assumes "log_rep s st d es" and "j < length es"
  shows "om_find (ls_logs s) (of_nat (st + j)) = Some (es ! j)"
proof -
  have b: "st + j < 2 ^ 64" using assms rep_bound [OF assms(1)] by simp
  have "(of_nat (st + j) :: u64) \<noteq> 0"
    using rep_pos [OF assms(1)] of_nat_u64_eq_0 [OF b] by simp
  then show ?thesis
    using rep_find [OF assms(1), of "of_nat (st + j)"] assms(2) unat_u64 [OF b] by simp
qed

lemma rep_keys:
  assumes "log_rep s st d es"
  shows "om_keys (ls_logs s) = insert 0 (of_nat ` {st ..< st + length es})"
proof (rule set_eqI)
  fix k :: u64
  have "k \<in> of_nat ` {st ..< st + length es} \<longleftrightarrow> st \<le> unat k \<and> unat k < st + length es"
    using rep_bound [OF assms] by (auto simp: image_iff unat_u64 intro!: bexI [of _ "unat k"])
  then show "k \<in> om_keys (ls_logs s) \<longleftrightarrow> k \<in> insert 0 (of_nat ` {st ..< st + length es})"
    using rep_find [OF assms, of k] rep_dummy [OF assms] by (cases "k = 0") (auto simp: om_keys_iff)
qed

lemma rep_size:
  assumes "log_rep s st d es"
  shows "length (ls_logs s) = Suc (length es)"
proof -
  have inj: "inj_on (of_nat :: nat \<Rightarrow> u64) {st ..< st + length es}"
    using rep_bound [OF assms] by (intro inj_onI) (simp add: of_nat_u64_eq)
  have "0 \<notin> (of_nat :: nat \<Rightarrow> u64) ` {st ..< st + length es}"
    using rep_pos [OF assms] rep_bound [OF assms] by (auto simp: of_nat_u64_eq_0)
  then show ?thesis
    using om_size [OF rep_inv [OF assms]] by (simp add: rep_keys [OF assms] card_image [OF inj])
qed

lemma rep_next_slot: "log_rep s st d es \<Longrightarrow> next_slot s = of_nat (st + length es)"
  by (simp add: next_slot_def rep_size rep_start)

lemma rep_next_unat: "log_rep s st d es \<Longrightarrow> unat (next_slot s) = st + length es"
  by (simp only: rep_next_slot unat_u64 [OF rep_bound])

section \<open>The operations on the list\<close>

lemma log_store_new_rep: "log_rep (log_store_new d) 1 d []"
  by (auto simp: log_rep_def log_store_new_def om_inv_Cons unsigned_eq_0_iff)

text \<open>A write at an index from the start to the next free one.\<close>

lemma rep_assign:
  assumes rep: "log_rep s st d es" and i: "st \<le> i" "i \<le> st + length es" "Suc i < 2 ^ 64"
  shows "log_rep (s\<lparr>ls_logs := om_assign (of_nat i) e (ls_logs s)\<rparr>) st d
      (take (i - st) es @ [e] @ drop (Suc (i - st)) es)"
proof (rule log_repI)
  have u: "unat (of_nat i :: u64) = i" using i(3) by (simp add: unat_u64)
  have n0: "(of_nat i :: u64) \<noteq> 0" using rep_pos [OF rep] i of_nat_u64_eq_0 [of i] by simp
  let ?es = "take (i - st) es @ [e] @ drop (Suc (i - st)) es"
  show "om_find (ls_logs (s\<lparr>ls_logs := om_assign (of_nat i) e (ls_logs s)\<rparr>)) 0 = Some d"
    using n0 rep_dummy [OF rep] by simp
  show "st + length ?es < 2 ^ 64" using rep_bound [OF rep] i by auto
  fix k :: u64
  assume k: "k \<noteq> 0"
  show "om_find (ls_logs (s\<lparr>ls_logs := om_assign (of_nat i) e (ls_logs s)\<rparr>)) k =
        (if st \<le> unat k \<and> unat k < st + length ?es then Some (?es ! (unat k - st)) else None)"
  proof (cases "k = of_nat i")
    case True
    then show ?thesis using u i by (simp add: nth_append)
  next
    case False
    then have "unat k \<noteq> i" using u by (metis unsigned_word_eqI)
    with False show ?thesis
      using rep_find [OF rep k] i by (auto simp: nth_append nth_Cons' min_def Suc_diff_Suc)
  qed
qed (use log_repD(1-3) [OF rep] in simp_all)

lemma append_rep:
  assumes "log_rep s st d es" and "Suc (st + length es) < 2 ^ 64"
  shows "fst (append_entry_ls e s) = of_nat (st + length es)"
    and "log_rep (snd (append_entry_ls e s)) st d (es @ [e])"
proof -
  have i: "ls_start_idx s + of_nat (length (ls_logs s)) - 1 = of_nat (st + length es)"
    using rep_next_slot [OF assms(1)] by (simp add: next_slot_def)
  then show "fst (append_entry_ls e s) = of_nat (st + length es)"
    by (simp add: append_entry_ls_def Let_def)
  show "log_rep (snd (append_entry_ls e s)) st d (es @ [e])"
    using rep_assign [OF assms(1), of "st + length es" e] assms(2)
    by (simp add: append_entry_ls_def Let_def i del: of_nat_add)
qed

lemma rep_erase_from:
  assumes rep: "log_rep s st d es" and i: "st \<le> i" "i \<le> st + length es"
  shows "log_rep (s\<lparr>ls_logs := om_erase_from (of_nat i) (ls_logs s)\<rparr>) st d (take (i - st) es)"
proof (rule log_repI)
  have u: "unat (of_nat i :: u64) = i"
    using i(2) rep_bound [OF rep] by (intro unat_u64) simp
  have less: "k < of_nat i \<longleftrightarrow> unat k < i" for k :: u64
    using u by (simp add: word_less_nat_alt)
  show "om_find (ls_logs (s\<lparr>ls_logs := om_erase_from (of_nat i) (ls_logs s)\<rparr>)) 0 = Some d"
    using rep_dummy [OF rep] less [of 0] i rep_pos [OF rep] by simp
  show "st + length (take (i - st) es) < 2 ^ 64" using rep_bound [OF rep] by simp
  fix k :: u64
  assume k: "k \<noteq> 0"
  show "om_find (ls_logs (s\<lparr>ls_logs := om_erase_from (of_nat i) (ls_logs s)\<rparr>)) k =
        (if st \<le> unat k \<and> unat k < st + length (take (i - st) es)
         then Some (take (i - st) es ! (unat k - st)) else None)"
    using rep_find [OF rep k] i by (auto simp: less)
qed (use log_repD(1-3) [OF rep] in simp_all)

lemma write_at_rep:
  assumes "log_rep s st d es" and "st \<le> i" and "i \<le> st + length es" and "Suc i < 2 ^ 64"
  shows "log_rep (write_at (of_nat i) e s) st d (take (i - st) es @ [e])"
  using rep_assign [OF rep_erase_from [OF assms(1-3)], of i e] assms(2-4)
  by (simp add: write_at_def)

section \<open>Compaction\<close>

lemma u64_below_greatest: "unat x < 2 ^ 64 - 1 \<longleftrightarrow> x \<noteq> - 1" for x :: u64
  using word_order.not_eq_extremum [of x] by (simp add: word_less_nat_alt unsigned_minus_1_eq_mask mask_eq_exp_minus_1)

lemma compact_loop_find:
  assumes "unat last_log_index < 2 ^ 64 - 1"
  shows "\<exists>logs'. compact_loop ii last_log_index logs = Some logs' \<and> (om_inv logs \<longrightarrow> om_inv logs')
    \<and> (\<forall>k. om_find logs' k = (if ii \<le> k \<and> k \<le> last_log_index then None else om_find logs k))"
proof (induction "unat last_log_index + 1 - unat ii" arbitrary: ii logs rule: less_induct)
  case less
  show ?case
  proof (cases "ii \<le> last_log_index")
    case True
    then have "unat ii < 2 ^ 64 - 1" using assms by (simp add: word_le_nat_alt)
    then have u: "unat (ii + 1) = unat ii + 1" by (simp add: unat_word_ariths)
    have nxt: "ii + 1 \<le> k \<longleftrightarrow> ii \<le> k \<and> ii \<noteq> k" for k
      using u by (auto simp: word_le_nat_alt) (metis le_antisym not_less_eq_eq unsigned_word_eqI)
    have "unat last_log_index + 1 - unat (ii + 1) < unat last_log_index + 1 - unat ii"
      using u True by (simp add: word_le_nat_alt)
    from less [OF this, of "om_erase ii logs"] True show ?thesis
      by (subst compact_loop.simps) (auto simp: nxt)
  next
    case False
    then show ?thesis by (subst compact_loop.simps) auto
  qed
qed

text \<open>With the greatest index as the bound the loop condition always holds.\<close>

lemma compact_loop_greatest: "compact_loop ii (- 1) logs = None"
proof -
  have "l \<noteq> - 1" if "compact_loop ii l logs = Some y" for l y
    using that by (rule compact_loop.raw_induct [rotated]) (auto split: if_splits)
  then show ?thesis by (cases "compact_loop ii (- 1) logs") auto
qed

lemma compact_rep:
  assumes rep: "log_rep s st d es" and i: "Suc i < 2 ^ 64"
  shows "\<exists>s'. compact (of_nat i) s = Some s' \<and>
    (if st \<le> i then log_rep s' (Suc i) d (drop (Suc i - st) es) else s' = s)"
proof -
  have u: "unat (of_nat i :: u64) = i" using i by (intro unat_u64) simp
  have ust: "unat (of_nat st :: u64) = st" using rep_bound [OF rep] by (intro unat_u64) simp
  have le: "unat (of_nat i :: u64) < 2 ^ 64 - 1" using i u by simp
  obtain logs where l: "compact_loop (of_nat st) (of_nat i) (ls_logs s) = Some logs"
      "om_inv logs" "\<And>k. om_find logs k =
        (if of_nat st \<le> k \<and> k \<le> of_nat i then None else om_find (ls_logs s) k)"
    using compact_loop_find [OF le, of "of_nat st" "ls_logs s"] rep_inv [OF rep] by auto
  have cond: "(of_nat st :: u64) \<le> of_nat i \<longleftrightarrow> st \<le> i" using u ust by (simp add: word_le_nat_alt)
  show ?thesis
  proof (cases "st \<le> i")
    case True
    have "log_rep \<lparr>ls_logs = logs, ls_start_idx = of_nat (Suc i)\<rparr> (Suc i) d (drop (Suc i - st) es)"
    proof (rule log_repI)
      fix k :: u64
      assume "k \<noteq> 0"
      from rep_find [OF rep this] show "om_find (ls_logs \<lparr>ls_logs = logs, ls_start_idx = of_nat (Suc i)\<rparr>) k =
          (if Suc i \<le> unat k \<and> unat k < Suc i + length (drop (Suc i - st) es)
           then Some (drop (Suc i - st) es ! (unat k - Suc i)) else None)"
        using True by (auto simp: l(3) word_le_nat_alt u ust)
    qed (use rep_dummy [OF rep] rep_pos [OF rep] rep_bound [OF rep] i True in \<open>auto simp: l(2,3) word_le_nat_alt u ust\<close>)
    with True cond show ?thesis
      by (simp add: compact_def rep_start [OF rep] l(1) add.commute)
  next
    case False
    then have "logs = ls_logs s"
      using cond rep_inv [OF rep] l(2,3) by (intro om_ext) (auto dest: order_trans)
    with False cond show ?thesis
      by (simp add: compact_def rep_start [OF rep] l(1) inmem_log_store.equality)
  qed
qed

section \<open>Reading the list\<close>

lemma find_or_dummy_rep:
  assumes "log_rep s st d es"
  shows "find_or_dummy s i =
    Ret (if st \<le> unat i \<and> unat i < st + length es then es ! (unat i - st) else d)"
  using rep_find [OF assms, of i] rep_dummy [OF assms] rep_pos [OF assms]
  by (cases "i = 0") (auto simp: find_or_dummy_def)

lemma collect_entries_rep:
  assumes "log_rep s st d es" and "j + n \<le> length es"
  shows "collect_entries n (of_nat (st + j)) s = Ret (take n (drop j es))"
  using assms(2)
proof (induction n arbitrary: j)
  case (Suc n)
  have nxt: "of_nat (st + j) + 1 = (of_nat (st + Suc j) :: u64)" by simp
  show ?case
    using Suc.IH [of "Suc j"] Suc.prems rep_find_at [OF assms(1), of j]
    by (simp add: nxt Cons_nth_drop_Suc [symmetric] del: of_nat_add)
qed simp

lemma ls_log_entries_rep:
  assumes "log_rep s st d es" and "st \<le> a" and "a \<le> b" and "b \<le> st + length es"
  shows "ls_log_entries (of_nat a) (of_nat b) s = Ret (take (b - a) (drop (a - st) es))"
proof -
  have u: "unat (of_nat a :: u64) = a" "unat (of_nat b :: u64) = b"
    using assms rep_bound [OF assms(1)] by (simp_all add: unat_u64)
  show ?thesis
    using collect_entries_rep [OF assms(1), of "a - st" "b - a"] assms u
    by (simp add: ls_log_entries_def word_less_nat_alt)
qed

text \<open>
  The number of entries \<open>log_entries_ext\<close> returns: up to the first at which the bytes so
  far reach the hint.
\<close>

fun batch_len :: "nat \<Rightarrow> nat \<Rightarrow> log_entry list \<Rightarrow> nat" where
  "batch_len hint accum [] = 0"
| "batch_len hint accum (e # es) =
     (let accum' = accum + length (le_buf e) in
      if hint \<noteq> 0 \<and> hint \<le> accum' then 1 else Suc (batch_len hint accum' es))"

abbreviation bytes_of :: "log_entry list \<Rightarrow> nat" where
  "bytes_of es \<equiv> sum_list (map (\<lambda>e. length (le_buf e)) es)"

lemma collect_sized_rep:
  assumes "log_rep s st d es" and "j + n \<le> length es"
    and "acc + bytes_of (take n (drop j es)) < 2 ^ 64"
  shows "collect_sized n (of_nat (st + j)) hint (of_nat acc) s =
    Ret (take (batch_len (unat hint) acc (take n (drop j es))) (take n (drop j es)))"
  using assms(2,3)
proof (induction n arbitrary: j acc)
  case (Suc n)
  have nxt: "of_nat (st + j) + 1 = (of_nat (st + Suc j) :: u64)" by simp
  have split: "take (Suc n) (drop j es) = es ! j # take n (drop (Suc j) es)"
    using Suc.prems(1) by (simp add: Cons_nth_drop_Suc [symmetric])
  have sum: "of_nat acc + of_nat (length (le_buf (es ! j))) = (of_nat (acc + length (le_buf (es ! j))) :: u64)"
    by simp
  have le: "hint \<le> of_nat (acc + length (le_buf (es ! j))) \<longleftrightarrow> unat hint \<le> acc + length (le_buf (es ! j))"
    using Suc.prems(2) by (simp only: split word_le_nat_alt) (subst unat_u64, simp_all)
  show ?case
    using Suc.IH [of "Suc j" "acc + length (le_buf (es ! j))"] Suc.prems rep_find_at [OF assms(1), of j]
    by (simp add: split nxt sum le Let_def unsigned_eq_0_iff del: of_nat_add)
qed simp

lemma batch_len_bound: "batch_len hint acc es \<le> length es"
  by (induction hint acc es rule: batch_len.induct) (auto simp: Let_def)

lemma batch_len_minimal:
  assumes "n < batch_len hint acc es" and "hint \<noteq> 0" and "0 < n"
  shows "acc + bytes_of (take n es) < hint"
  using assms
proof (induction hint acc es arbitrary: n rule: batch_len.induct)
  case (2 hint accum e es)
  then show ?case
    by (cases n; cases "n - 1") (auto simp: Let_def add.assoc split: if_splits)
qed simp

lemma batch_len_enough:
  assumes "batch_len hint acc es < length es" and "hint \<noteq> 0"
  shows "hint \<le> acc + bytes_of (take (batch_len hint acc es) es)"
  using assms
  by (induction hint acc es rule: batch_len.induct) (auto simp: Let_def algebra_simps split: if_splits)

lemma batch_len_unlimited: "batch_len 0 acc es = length es"
  by (induction es arbitrary: acc) (simp_all add: Let_def)

lemma batch_len_positive: "es \<noteq> [] \<Longrightarrow> 0 < batch_len hint acc es"
  by (cases es) (simp_all add: Let_def)

section \<open>Packs and lists\<close>

lemma pack_loop_rep:
  assumes "log_rep s st d es" and "j + n \<le> length es"
  shows "pack_loop lc n (of_nat (st + j)) s = Ret (map (lc_serialize lc) (take n (drop j es)))"
  using assms(2)
proof (induction n arbitrary: j)
  case (Suc n)
  have nxt: "of_nat (st + j) + 1 = (of_nat (st + Suc j) :: u64)" by simp
  show ?case
    using Suc.IH [of "Suc j"] Suc.prems rep_find_at [OF assms(1), of j]
    by (simp add: nxt Cons_nth_drop_Suc [symmetric] del: of_nat_add)
qed simp

definition packed_entries :: "log_codec \<Rightarrow> log_entry list \<Rightarrow> buffer" where
  "packed_entries lc es = lc_put_int lc (of_nat (length es)) @ concat (map (put_sized lc \<circ> lc_serialize lc) es)"

lemma sint_i32: "n < 2 ^ 31 \<Longrightarrow> sint (of_nat n :: i32) = int n"
  by (simp add: signed_of_nat signed_take_bit_int_eq_self)

lemma pack_rep:
  assumes rep: "log_rep s st d es" and "st \<le> i" and "i + n \<le> st + length es" and n: "n < 2 ^ 31"
  shows "pack lc (of_nat i) (of_nat n) s = Ret (packed_entries lc (take n (drop (i - st) es)))"
proof -
  have "(of_int (sint (of_nat n :: i32)) :: u64) = scast (of_nat n :: i32)" by (rule of_int_sint)
  then have sc: "scast (of_nat n :: i32) = (of_nat n :: u64)" using sint_i32 [OF n] by simp
  have u: "unat (of_nat i :: u64) = i" "unat (of_nat (i + n) :: u64) = i + n"
    using assms rep_bound [OF rep] by (simp_all add: unat_u64 del: of_nat_add)
  have cnt: "unat (of_nat i + scast (of_nat n :: i32) :: u64) - unat (of_nat i :: u64) = n"
    using u by (simp add: sc flip: of_nat_add)
  show ?thesis
    using pack_loop_rep [OF rep, of "i - st" n lc] assms
    by (simp add: pack_def cnt sint_i32 packed_entries_def comp_def)
qed

lemma get_sized_put:
  assumes lc: "log_codec_ok lc" and n: "length (lc_serialize lc e) < 2 ^ 31"
  shows "get_sized lc (put_sized lc (lc_serialize lc e) @ b) = Ret (e, b)"
proof -
  have u: "unat (of_nat (length (lc_serialize lc e)) :: i32) = length (lc_serialize lc e)"
    using n by (simp add: unat_of_nat)
  show ?thesis
    using lc sint_i32 [OF n] u
    by (simp add: get_sized_def get_int_def get_buffer_def put_sized_def log_codec_ok_def)
qed

text \<open>The entries of a pack, read back one by one.\<close>

lemma apply_pack_loop_rep:
  assumes lc: "log_codec_ok lc" and "log_rep s st d es" and "st \<le> i" and "i \<le> st + length es"
    and "i + length fs < 2 ^ 64" and "\<forall>e \<in> set fs. length (lc_serialize lc e) < 2 ^ 31"
  shows "\<exists>s'. apply_pack_loop lc (length fs) (of_nat i)
      (concat (map (put_sized lc \<circ> lc_serialize lc) fs) @ rest) s = (Ret (), s') \<and>
    log_rep s' st d (take (i - st) es @ fs @ drop (i - st + length fs) es)"
  using assms(2-)
proof (induction fs arbitrary: s es i)
  case (Cons e fs)
  have nxt: "of_nat i + 1 = (of_nat (Suc i) :: u64)" by simp
  have rep: "log_rep (s\<lparr>ls_logs := om_assign (of_nat i) e (ls_logs s)\<rparr>) st d
      (take (i - st) es @ [e] @ drop (Suc (i - st)) es)"
    using Cons.prems by (intro rep_assign) simp_all
  from Cons.IH [OF this, of "Suc i"] Cons.prems show ?case
    by (simp add: get_sized_put [OF lc] nxt Suc_diff_le add.commute [of "length fs"] del: of_nat_Suc)
qed simp

lemma set_start_idx_rep:
  assumes rep: "log_rep s st d es"
  shows "set_start_idx s = (if es = [] then s\<lparr>ls_start_idx := 1\<rparr> else s)"
proof (cases "om_upper_bound 0 (ls_logs s)")
  case None
  then have "es = []"
    using rep_keys [OF rep] rep_pos [OF rep] rep_bound [OF rep]
    by (cases es) (auto simp: om_upper_bound_None word_gt_0 of_nat_u64_eq_0)
  with None show ?thesis by (simp add: set_start_idx_def)
next
  case (Some e)
  obtain k v where e: "e = (k, v)" by (rule prod.exhaust)
  note ub = om_upper_bound_Some [OF rep_inv [OF rep] Some [unfolded e]]
  then have "k \<noteq> 0" by auto
  with ub have in_range: "st \<le> unat k" "unat k < st + length es"
    using rep_find [OF rep, of k] by (auto split: if_splits)
  have st: "unat (of_nat st :: u64) = st" using rep_bound [OF rep] by (intro unat_u64) simp
  have "k \<le> of_nat st"
    using ub in_range st rep_pos [OF rep] by (auto simp: rep_keys [OF rep] word_less_nat_alt dest!: bspec [where x = st])
  then have "k = of_nat st"
    using in_range st by (metis le_antisym unsigned_word_eqI word_le_nat_alt)
  with in_range show ?thesis
    by (auto simp: set_start_idx_def Some e rep_start [OF rep, symmetric])
qed

lemma get_int_packed:
  assumes "log_codec_ok lc"
  shows "get_int lc (packed_entries lc es) =
    Ret (of_nat (length es), concat (map (put_sized lc \<circ> lc_serialize lc) es))"
  using assms by (simp add: get_int_def packed_entries_def log_codec_ok_def)

text \<open>
  The start index is read from the map at the end: the index before the call has no
  influence on the result.
\<close>

lemma start_logs_commute:
  "s\<lparr>ls_start_idx := x, ls_logs := y\<rparr> = s\<lparr>ls_logs := y, ls_start_idx := x\<rparr>" for s :: inmem_log_store
  by simp

lemma apply_pack_loop_start:
  "apply_pack_loop lc n i b (s\<lparr>ls_start_idx := x\<rparr>) =
     map_prod id (\<lambda>s'. s'\<lparr>ls_start_idx := x\<rparr>) (apply_pack_loop lc n i b s)"
  by (induction lc n i b s rule: apply_pack_loop.induct) (auto simp: start_logs_commute split: run.splits)

lemma set_start_idx_start [simp]: "set_start_idx (s\<lparr>ls_start_idx := x\<rparr>) = set_start_idx s"
  by (simp add: set_start_idx_def)

lemma apply_pack_start:
  "apply_pack lc i b s = (Ret u, s') \<Longrightarrow> apply_pack lc i b (s\<lparr>ls_start_idx := x\<rparr>) = (Ret u, s')"
  by (auto simp: apply_pack_def apply_pack_loop_start split: run.splits prod.splits)

lemma rep_rebase:
  "log_rep s st d [] \<Longrightarrow> 1 \<le> i \<Longrightarrow> i < 2 ^ 64 \<Longrightarrow> log_rep (s\<lparr>ls_start_idx := of_nat i\<rparr>) i d []"
  by (auto intro!: log_repI dest: rep_inv rep_find rep_dummy)

definition packable :: "log_codec \<Rightarrow> log_entry list \<Rightarrow> bool" where
  "packable lc fs \<longleftrightarrow> length fs < 2 ^ 31 \<and> (\<forall>e \<in> set fs. length (lc_serialize lc e) < 2 ^ 31)"

lemma apply_pack_within:
  assumes lc: "log_codec_ok lc" and rep: "log_rep s st d es" and "st \<le> i" and "i \<le> st + length es"
    and "i + length fs < 2 ^ 64" and fs: "packable lc fs"
  shows "\<exists>s'. apply_pack lc (of_nat i) (packed_entries lc fs) s = (Ret (), s') \<and>
    (if es = [] \<and> fs = [] then log_rep s' 1 d []
     else log_rep s' st d (take (i - st) es @ fs @ drop (i - st + length fs) es))"
proof -
  obtain s' where s': "apply_pack_loop lc (length fs) (of_nat i)
      (concat (map (put_sized lc \<circ> lc_serialize lc) fs)) s = (Ret (), s')"
    "log_rep s' st d (take (i - st) es @ fs @ drop (i - st + length fs) es)"
    using apply_pack_loop_rep [OF lc rep assms(3-5), of "[]"] fs by (auto simp: packable_def)
  have "nat (sint (of_nat (length fs) :: i32)) = length fs"
    using fs by (simp add: packable_def sint_i32)
  moreover have "take (i - st) es @ fs @ drop (i - st + length fs) es = [] \<longleftrightarrow> es = [] \<and> fs = []"
    by auto
  ultimately show ?thesis
    using s' set_start_idx_rep [OF s'(2)] rep_rebase [of s' st d 1]
    by (auto simp: apply_pack_def get_int_packed [OF lc])
qed

lemma apply_pack_empty:
  assumes lc: "log_codec_ok lc" and rep: "log_rep s st d []" and "1 \<le> i"
    and "i + length fs < 2 ^ 64" and fs: "packable lc fs"
  shows "\<exists>s'. apply_pack lc (of_nat i) (packed_entries lc fs) s = (Ret (), s') \<and>
    log_rep s' (if fs = [] then 1 else i) d fs"
proof -
  have "log_rep (s\<lparr>ls_start_idx := of_nat i\<rparr>) i d []" using assms by (intro rep_rebase) simp_all
  from apply_pack_within [OF lc this, of i fs] assms obtain s' where
    s': "apply_pack lc (of_nat i) (packed_entries lc fs) (s\<lparr>ls_start_idx := of_nat i\<rparr>) = (Ret (), s')"
    "log_rep s' (if fs = [] then 1 else i) d fs"
    by (auto split: if_splits)
  from apply_pack_start [OF s'(1), of "ls_start_idx s"] s'(2) show ?thesis by simp
qed

section \<open>Specification and refinement\<close>

text \<open>The specification: the start index, the dummy and the entries.\<close>

type_synonym log_spec = "nat \<times> log_entry \<times> log_entry list"

datatype log_op =
    L_append log_entry
  | L_write_at nat log_entry
  | L_compact nat
  | L_apply_pack nat "log_entry list"

text \<open>
  A write drops the entries behind it; a pack overwrites and keeps them; a pack applied
  to an empty log moves the start to its index, and an empty pack moves it back to 1.
\<close>

fun log_spec_step :: "log_op \<Rightarrow> log_spec \<Rightarrow> log_spec" where
  "log_spec_step (L_append e) (st, d, es) = (st, d, es @ [e])"
| "log_spec_step (L_write_at i e) (st, d, es) = (st, d, take (i - st) es @ [e])"
| "log_spec_step (L_compact i) (st, d, es) =
     (if st \<le> i then (Suc i, d, drop (Suc i - st) es) else (st, d, es))"
| "log_spec_step (L_apply_pack i fs) (st, d, es) =
     (if es = [] then (if fs = [] then 1 else i, d, fs)
      else (st, d, take (i - st) es @ fs @ drop (i - st + length fs) es))"

text \<open>
  The calls the store is made for: the log has room, a write is at most one past the
  end, a pack is well formed and leaves no gap.
\<close>

inductive log_step :: "log_codec \<Rightarrow> inmem_log_store \<Rightarrow> log_op \<Rightarrow> inmem_log_store \<Rightarrow> bool" for lc where
  step_append: "unat (next_slot s) < 2 ^ 64 - 1 \<Longrightarrow> log_step lc s (L_append e) (snd (append_entry_ls e s))"
| step_write_at: "start_index s \<le> index \<Longrightarrow> index \<le> next_slot s \<Longrightarrow> unat index < 2 ^ 64 - 1 \<Longrightarrow>
    log_step lc s (L_write_at (unat index) e) (write_at index e s)"
| step_compact: "compact index s = Some s' \<Longrightarrow> log_step lc s (L_compact (unat index)) s'"
| step_apply_pack: "log_codec_ok lc \<Longrightarrow> packable lc fs \<Longrightarrow> unat index + length fs < 2 ^ 64 \<Longrightarrow>
    (if next_slot s = start_index s then index \<noteq> 0 else start_index s \<le> index \<and> index \<le> next_slot s) \<Longrightarrow>
    apply_pack lc index (packed_entries lc fs) s = (Ret (), s') \<Longrightarrow>
    log_step lc s (L_apply_pack (unat index) fs) s'"

inductive_cases log_stepE: "log_step lc s x s'"

definition log_inv :: "inmem_log_store \<Rightarrow> bool" where
  "log_inv s \<longleftrightarrow> (\<exists>d es. log_rep s (unat (ls_start_idx s)) d es)"

definition log_abs :: "inmem_log_store \<Rightarrow> log_spec" where
  "log_abs s =
     (unat (start_index s), the (om_find (ls_logs s) 0),
      map (\<lambda>i. the (om_find (ls_logs s) (of_nat i))) [unat (start_index s) ..< unat (next_slot s)])"

lemma rep_start_unat: "log_rep s st d es \<Longrightarrow> unat (ls_start_idx s) = st"
  using rep_bound [of s st d es] by (simp add: rep_start unat_u64)

lemma rep_log_inv: "log_rep s st d es \<Longrightarrow> log_inv s"
  unfolding log_inv_def by (metis rep_start_unat)

lemma rep_log_abs:
  assumes "log_rep s st d es"
  shows "log_abs s = (st, d, es)"
proof -
  have "map (\<lambda>i. the (om_find (ls_logs s) (of_nat i))) [st ..< st + length es] = es"
    by (rule nth_equalityI) (simp_all add: rep_find_at [OF assms] del: of_nat_add)
  then show ?thesis
    by (simp add: log_abs_def start_index_def rep_start_unat [OF assms] rep_next_unat [OF assms]
        rep_dummy [OF assms])
qed

lemma log_inv_rep:
  assumes "log_inv s" and "log_abs s = (st, d, es)"
  shows "log_rep s st d es"
  using assms rep_log_abs rep_start_unat by (fastforce simp: log_inv_def)

lemma log_step_rep:
  assumes rep: "log_rep s st d es" and step: "log_step lc s x s'"
  obtains st' d' es' where "log_rep s' st' d' es'" and "log_spec_step x (st, d, es) = (st', d', es')"
  using step
proof (cases rule: log_step.cases)
  case (step_append e)
  then show ?thesis
    using append_rep(2) [OF rep, of e] that rep_next_unat [OF rep] by simp
next
  case (step_write_at index e)
  then show ?thesis
    using write_at_rep [OF rep, of "unat index" e] that rep_next_unat [OF rep] rep_start_unat [OF rep]
    by (simp add: start_index_def word_le_nat_alt)
next
  case (step_compact index)
  then have "index \<noteq> - 1"
    by (auto simp: compact_def compact_loop_greatest)
  then have "unat index < 2 ^ 64 - 1" by (rule iffD2 [OF u64_below_greatest])
  then show ?thesis
    using compact_rep [OF rep, of "unat index"] that step_compact rep by (auto split: if_splits)
next
  case (step_apply_pack fs index)
  have empty: "next_slot s = start_index s \<longleftrightarrow> es = []"
    using rep_next_unat [OF rep] rep_start_unat [OF rep]
    by (auto simp: start_index_def word_unat_eq_iff)
  show ?thesis
  proof (cases "es = []")
    case True
    with step_apply_pack empty have "1 \<le> unat index"
      by (simp add: Suc_le_eq unat_gt_0)
    with apply_pack_empty [of lc s st d "unat index" fs] step_apply_pack rep True that show ?thesis
      by auto
  next
    case False
    with apply_pack_within [OF step_apply_pack(2) rep, of "unat index" fs] step_apply_pack empty that show ?thesis
      using rep_next_unat [OF rep] rep_start_unat [OF rep]
      by (auto simp: start_index_def word_le_nat_alt)
  qed
qed

interpretation lg: refinement "log_step lc" log_inv log_abs log_spec_step for lc
proof
  fix s x s'
  assume "log_inv s" and step: "log_step lc s x s'"
  then obtain d es where rep: "log_rep s (unat (ls_start_idx s)) d es" by (auto simp: log_inv_def)
  from rep step show "log_inv s'" by (rule log_step_rep) (rule rep_log_inv)
  from rep step show "log_abs s' = log_spec_step x (log_abs s)"
    by (rule log_step_rep) (simp add: rep_log_abs rep_log_abs [OF rep])
qed

section \<open>Samples\<close>

definition sample_log_codec :: log_codec where
  "sample_log_codec =
     \<lparr>lc_serialize = (\<lambda>e. to_bytes 8 (le_term e) @ to_bytes 4 (le_val_type e) @ to_bytes 8 (le_timestamp e) @ le_buf e),
      lc_deserialize = (\<lambda>b. \<lparr>le_term = of_bytes (take 8 b), le_buf = drop 20 b,
         le_val_type = of_bytes (take 4 (drop 8 b)), le_timestamp = of_bytes (take 8 (drop 12 b))\<rparr>),
      lc_put_int = to_bytes 4, lc_get_int = of_bytes\<rparr>"

lemma sample_log_codec_ok: "log_codec_ok sample_log_codec"
  by (simp add: log_codec_ok_def sample_log_codec_def)

definition sample_entry :: "u64 \<Rightarrow> buffer \<Rightarrow> log_entry" where
  "sample_entry t b = \<lparr>le_term = t, le_buf = b, le_val_type = 1, le_timestamp = 0\<rparr>"

text \<open>A store with two entries at the indices 1 and 2.\<close>

definition sample_dummy :: log_entry where
  "sample_dummy = sample_entry 0 [0, 0, 0, 0, 0, 0, 0, 0]"

definition sample_log :: inmem_log_store where
  "sample_log = snd (append_entry_ls (sample_entry 1 [7, 8])
     (snd (append_entry_ls (sample_entry 1 [9]) (log_store_new sample_dummy))))"

lemma sample_log_rep:
  "log_rep sample_log 1 sample_dummy [sample_entry 1 [9], sample_entry 1 [7, 8]]"
  using append_rep(2) [OF append_rep(2) [OF log_store_new_rep]] by (simp add: sample_log_def)

section \<open>Properties of the log store\<close>

text \<open>
  C11: Any sequence of appends, in-range writes, compactions and applied packs on a new
  in-memory log store keeps its invariant, and the store stands for the start index and
  the list of entries that the same operations give on a plain list.
\<close>

theorem log_store_refines_list:
  assumes "op_run (log_step lc) (log_store_new d) ops s"
  shows "log_inv s \<and> log_abs s = fold log_spec_step ops (1, d, [])"
  using lg.run_both [OF assms rep_log_inv [OF log_store_new_rep]]
  by (simp add: rep_log_abs [OF log_store_new_rep])

theorem log_store_refines_list_witness:
  "\<exists>s. op_run (log_step sample_log_codec) (log_store_new sample_dummy)
       [L_append (sample_entry 1 [9]), L_append (sample_entry 1 [7, 8]), L_compact 1] s \<and>
     log_abs s = (2, sample_dummy, [sample_entry 1 [7, 8]])"
proof -
  let ?ops = "[L_append (sample_entry 1 [9]), L_append (sample_entry 1 [7, 8]), L_compact 1]"
  note rep0 = log_store_new_rep [of sample_dummy]
  note rep1 = append_rep(2) [OF rep0, of "sample_entry 1 [9]"]
  obtain s where s: "compact (of_nat 1) sample_log = Some s"
    using compact_rep [OF sample_log_rep, of 1] by auto
  have "log_step sample_log_codec sample_log (L_compact 1) s"
    using log_step.step_compact [OF s] by simp
  moreover have "unat (next_slot (log_store_new sample_dummy)) < 2 ^ 64 - 1"
    "unat (next_slot (snd (append_entry_ls (sample_entry 1 [9]) (log_store_new sample_dummy)))) < 2 ^ 64 - 1"
    using rep_next_unat [OF rep0] rep_next_unat [OF rep1] by simp_all
  ultimately have "op_run (log_step sample_log_codec) (log_store_new sample_dummy) ?ops s"
    unfolding sample_log_def by (meson log_step.step_append op_run_Cons op_run_Nil)
  from this log_store_refines_list [OF this] show ?thesis by auto
qed

text \<open>
  C22: Reads agree with the list: the next free index is the start plus the number of
  entries; an index in range gives its entry and its term, every other index gives the
  dummy; the last entry is that of the list or the dummy; and a range of indices gives
  exactly the entries of that range.
\<close>

theorem log_reads:
  assumes "log_inv s" and "log_abs s = (st, d, es)"
  shows "next_slot s = of_nat (st + length es) \<and>
    (\<forall>i. entry_at i s = Ret (if st \<le> unat i \<and> unat i < st + length es then es ! (unat i - st) else d) \<and>
         term_at i s = Ret (le_term (if st \<le> unat i \<and> unat i < st + length es then es ! (unat i - st) else d))) \<and>
    last_entry s = Ret (if es = [] then d else last es) \<and>
    (\<forall>a b. st \<le> a \<and> a \<le> b \<and> b \<le> st + length es \<longrightarrow>
       ls_log_entries (of_nat a) (of_nat b) s = Ret (take (b - a) (drop (a - st) es)))"
proof -
  note rep = log_inv_rep [OF assms]
  have last: "unat (next_slot s - 1) = st + length es - 1"
    using rep_next_unat [OF rep] rep_pos [OF rep] by (subst unat_minus_one) auto
  have "last_entry s = Ret (if es = [] then d else last es)"
    using rep_pos [OF rep]
    by (cases es rule: rev_cases) (auto simp: last_entry_def find_or_dummy_rep [OF rep] last)
  with rep_next_slot [OF rep] ls_log_entries_rep [OF rep] show ?thesis
    by (simp add: entry_at_def term_at_def find_or_dummy_rep [OF rep])
qed

theorem log_reads_witness:
  "log_inv sample_log \<and>
   last_entry sample_log = Ret (sample_entry 1 [7, 8]) \<and>
   ls_log_entries 1 2 sample_log = Ret [sample_entry 1 [9]]"
proof -
  note reads = log_reads [OF rep_log_inv rep_log_abs, OF sample_log_rep sample_log_rep]
  have "ls_log_entries (of_nat 1) (of_nat 2) sample_log = Ret (take (2 - 1) (drop (1 - 1) [sample_entry 1 [9], sample_entry 1 [7, 8]]))"
    by (rule reads [THEN conjunct2, THEN conjunct2, THEN conjunct2, rule_format]) simp
  with reads rep_log_inv [OF sample_log_rep] show ?thesis by simp
qed

text \<open>
  C23: A read with a size hint returns a prefix of the range and never an empty one of a
  range that is not empty. No hint (zero) gives the whole range and a negative hint
  nothing. Otherwise the batch is the shortest prefix whose bytes reach the hint, or the
  whole range.
\<close>

theorem log_entries_ext_batches:
  assumes "log_inv s" and "log_abs s = (st, d, es)"
    and "st \<le> a" and "a \<le> b" and "b \<le> st + length es"
    and "xs = take (b - a) (drop (a - st) es)" and "bytes_of xs < 2 ^ 64"
  shows "if sint hint < 0 then log_entries_ext (of_nat a) (of_nat b) hint s = Ret []
    else \<exists>n. log_entries_ext (of_nat a) (of_nat b) hint s = Ret (take n xs) \<and> n \<le> b - a \<and>
      (a < b \<longrightarrow> 0 < n) \<and> (hint = 0 \<longrightarrow> n = b - a) \<and>
      (hint \<noteq> 0 \<longrightarrow> (n < b - a \<longrightarrow> unat hint \<le> bytes_of (take n xs)) \<and>
         (\<forall>m. 0 < m \<and> m < n \<longrightarrow> bytes_of (take m xs) < unat hint))"
proof -
  note rep = log_inv_rep [OF assms(1,2)]
  have u: "unat (of_nat a :: u64) = a" "unat (of_nat b :: u64) = b"
    using assms rep_bound [OF rep] by (simp_all add: unat_u64)
  have len: "length xs = b - a" "a < b \<Longrightarrow> xs \<noteq> []" using assms by auto
  have ext: "\<not> sint hint < 0 \<Longrightarrow> log_entries_ext (of_nat a) (of_nat b) hint s =
      Ret (take (batch_len (unat hint) 0 xs) xs)"
    using collect_sized_rep [OF rep, of "a - st" "b - a" 0 hint] assms(3-)
    by (simp add: log_entries_ext_def u)
  show ?thesis
    using ext batch_len_bound [of "unat hint" 0 xs] batch_len_positive [of xs "unat hint" 0]
      batch_len_enough [of "unat hint" 0 xs] batch_len_minimal [of _ "unat hint" 0 xs]
      batch_len_unlimited [of 0 xs] len
    by (auto simp: log_entries_ext_def unsigned_eq_0_iff intro!: exI [of _ "batch_len (unat hint) 0 xs"])
qed

theorem log_entries_ext_batches_witness:
  "\<exists>n. log_entries_ext 1 3 1 sample_log = Ret (take n [sample_entry 1 [9], sample_entry 1 [7, 8]]) \<and> 0 < n"
  using log_entries_ext_batches [OF rep_log_inv rep_log_abs, OF sample_log_rep sample_log_rep,
      of 1 3 "[sample_entry 1 [9], sample_entry 1 [7, 8]]" 1]
  by (auto simp: sample_entry_def)

text \<open>
  C21: Packing a range of entries and applying the pack at the same index to an empty
  store succeeds and gives a log that starts at that index with exactly those entries,
  for every faithful entry format.
\<close>

theorem pack_apply_pack:
  assumes "log_codec_ok lc" and "log_inv s" and "log_abs s = (st, d, es)"
    and "st \<le> i" and "i + n \<le> st + length es" and "0 < n" and "n < 2 ^ 31"
    and "\<forall>e \<in> set es. length (lc_serialize lc e) < 2 ^ 31"
    and "log_inv t" and "log_abs t = (st', d', [])"
  shows "\<exists>b t'. pack lc (of_nat i) (of_nat n) s = Ret b \<and>
    apply_pack lc (of_nat i) b t = (Ret (), t') \<and>
    log_inv t' \<and> log_abs t' = (i, d', take n (drop (i - st) es))"
proof -
  note rep = log_inv_rep [OF assms(2,3)] and rept = log_inv_rep [OF assms(9,10)]
  let ?fs = "take n (drop (i - st) es)"
  have fs: "packable lc ?fs" "?fs \<noteq> []"
    using assms by (auto simp: packable_def dest!: in_set_takeD in_set_dropD)
  have "1 \<le> i" "i + length ?fs < 2 ^ 64" using rep_pos [OF rep] rep_bound [OF rep] assms by auto
  from apply_pack_empty [OF assms(1) rept this fs(1)] fs(2) show ?thesis
    using pack_rep [OF rep assms(4,5,7)] by (auto dest: rep_log_inv rep_log_abs)
qed

theorem pack_apply_pack_witness:
  "\<exists>b t'. pack sample_log_codec 1 2 sample_log = Ret b \<and>
     apply_pack sample_log_codec 1 b (log_store_new sample_dummy) = (Ret (), t') \<and>
     log_abs t' = (1, sample_dummy, [sample_entry 1 [9], sample_entry 1 [7, 8]])"
  using pack_apply_pack [OF sample_log_codec_ok rep_log_inv rep_log_abs,
      OF sample_log_rep sample_log_rep, of 1 2 "log_store_new sample_dummy" 1 sample_dummy]
    rep_log_inv [OF log_store_new_rep] rep_log_abs [OF log_store_new_rep]
  by (auto simp: sample_log_codec_def sample_entry_def)

text \<open>
  C24: \<open>compact\<close> returns for every bound but the greatest 64-bit index, for which its
  loop condition never fails.
\<close>

theorem compact_returns: "(\<exists>s'. compact l s = Some s') \<longleftrightarrow> l \<noteq> - 1"
  using compact_loop_find [of l "ls_start_idx s" "ls_logs s"] u64_below_greatest [of l]
  by (auto simp: compact_def compact_loop_greatest)

end
