(* ===== verification/Example_App.thy ===== *)
theory Example_App
  imports Log_Store Client_Requests
begin

text \<open>
  The example application of \<open>test_package\<close>: the state manager that keeps the
  configuration and the vote of a server in JSON files (\<open>example_state_manager.cpp\<close>), the
  state machine (\<open>example_state_machine.h\<close>) and the endpoint lookup of the server
  (\<open>example_server.cpp\<close>). The log store is in \<open>Log_Store\<close>, the two programs are in
  \<open>Example_Programs\<close>.
\<close>

section \<open>JSON\<close>

text \<open>
  The values of the JSON library the code makes and reads; the numbers are integers. An
  object is an ordered map.
\<close>

datatype json = J_null | J_bool bool | J_num int | J_str string | J_arr "json list" | J_obj "(string, json) omap"

definition json_object :: "(string \<times> json) list \<Rightarrow> json" where
  "json_object ps = J_obj (fold (\<lambda>(k, v). om_assign k v) ps [])"

text \<open>
  Reading text and writing text are the library's. \<open>None\<close> is an exception of the
  library, which is no \<open>std::runtime_error\<close>; where nothing catches it, it is a crash.
\<close>

record json_io =
  json_dump :: "json \<Rightarrow> string option"
  json_parse :: "string \<Rightarrow> json option"

definition json_io_ok :: "json_io \<Rightarrow> bool" where
  "json_io_ok jio \<longleftrightarrow> (\<forall>j s. json_dump jio j = Some s \<longrightarrow> json_parse jio s = Some j)"

text \<open>\<open>operator[]\<close> of a constant value asserts that the key is there.\<close>

definition json_at :: "json \<Rightarrow> string \<Rightarrow> json run" where
  "json_at j k = (case j of J_obj m \<Rightarrow> deref (om_find m k) | _ \<Rightarrow> Crash)"

definition as_int :: "json \<Rightarrow> int run" where
  "as_int j = (case j of J_num n \<Rightarrow> Ret n | J_bool b \<Rightarrow> Ret (of_bool b) | _ \<Rightarrow> Crash)"

definition as_string :: "json \<Rightarrow> string run" where
  "as_string j = (case j of J_str s \<Rightarrow> Ret s | _ \<Rightarrow> Crash)"

definition as_bool :: "json \<Rightarrow> bool run" where
  "as_bool j = (case j of J_bool b \<Rightarrow> Ret b | _ \<Rightarrow> Crash)"

section \<open>Files\<close>

text \<open>The files by name, and the names that can be opened for writing.\<close>

record files =
  fs_content :: "string \<Rightarrow> string option"
  fs_writable :: "string \<Rightarrow> bool"

datatype errc = No_such_file | Invalid_argument

definition jsonObjectFromFile :: "json_io \<Rightarrow> files \<Rightarrow> string \<Rightarrow> (errc + json) run" where
  "jsonObjectFromFile jio fs filename =
     (case fs_content fs filename of
        None \<Rightarrow> Ret (Inl No_such_file)
      | Some s \<Rightarrow>
          run_bind (deref (json_parse jio s)) (\<lambda>j.
            Ret (case j of J_obj _ \<Rightarrow> Inr j | _ \<Rightarrow> Inl Invalid_argument)))"

text \<open>
  Opening an output file empties it; an exception while writing is caught and leaves it
  so.
\<close>

definition write_json :: "json_io \<Rightarrow> string \<Rightarrow> json \<Rightarrow> files \<Rightarrow> files" where
  "write_json jio filename j fs =
     (if fs_writable fs filename
      then fs\<lparr>fs_content := (fs_content fs)(filename \<mapsto>
             (case json_dump jio j of Some s \<Rightarrow> s | None \<Rightarrow> []))\<rparr>
      else fs)"

section \<open>The state manager\<close>

text \<open>The configuration and the state of a server, as the RAFT library has them.\<close>

record cluster_config =
  cl_log_idx :: u64
  cl_prev_log_idx :: u64
  cl_async_replication :: bool
  cl_user_ctx :: string
  cl_servers :: "srv_config list"

record srv_state =
  ss_term :: u64
  ss_voted_for :: i32

definition cluster_config_new :: "u64 \<Rightarrow> u64 \<Rightarrow> bool \<Rightarrow> cluster_config" where
  "cluster_config_new log_idx prev_log_idx eventual =
     \<lparr>cl_log_idx = log_idx, cl_prev_log_idx = prev_log_idx, cl_async_replication = eventual, cl_user_ctx = [],
      cl_servers = []\<rparr>"

text \<open>The constructors of \<open>nuraft::srv_config\<close> and \<open>nuraft::srv_state\<close>, with their defaults.\<close>

definition srv_config_new :: "i32 \<Rightarrow> i32 \<Rightarrow> string \<Rightarrow> string \<Rightarrow> bool \<Rightarrow> i32 \<Rightarrow> srv_config" where
  "srv_config_new sid dc_id endpoint aux learner priority =
     \<lparr>sc_id = sid, sc_dc_id = dc_id, sc_endpoint = endpoint, sc_aux = aux, sc_learner = learner,
      sc_priority = priority, sc_new_joiner = False\<rparr>"

record simple_state_mgr =
  smgr_srv_id :: i32
  smgr_srv_addr :: string
  smgr_group_id :: string

definition simple_state_mgr_new :: "uuid_io \<Rightarrow> i32 \<Rightarrow> peer_id \<Rightarrow> group_id \<Rightarrow> simple_state_mgr" where
  "simple_state_mgr_new io srv_id srv_addr gid =
     \<lparr>smgr_srv_id = srv_id, smgr_srv_addr = to_string io srv_addr, smgr_group_id = to_string io gid\<rparr>"

text \<open>Decimal output of an integer, as the formatting library prints it.\<close>

fun nat_digits :: "nat \<Rightarrow> string" where
  "nat_digits n = (if n < 10 then [char_of (48 + n)] else nat_digits (n div 10) @ [char_of (48 + n mod 10)])"

definition show_int :: "int \<Rightarrow> string" where
  "show_int i = (if i < 0 then CHR ''-'' # nat_digits (nat (- i)) else nat_digits (nat i))"

definition config_file :: "simple_state_mgr \<Rightarrow> string" where
  "config_file m = smgr_group_id m @ ''_s'' @ show_int (sint (smgr_srv_id m)) @ ''/config.json''"

definition state_file :: "simple_state_mgr \<Rightarrow> string" where
  "state_file m = smgr_group_id m @ ''_s'' @ show_int (sint (smgr_srv_id m)) @ ''/state.json''"

definition fromServer :: "json \<Rightarrow> srv_config run" where
  "fromServer server =
     run_bind (run_bind (json_at server ''id'') as_int) (\<lambda>sid.
     run_bind (run_bind (json_at server ''dc_id'') as_int) (\<lambda>dc_id.
     run_bind (json_at server ''endpoint'') (\<lambda>endpoint.
     run_bind (json_at server ''aux'') (\<lambda>aux.
     run_bind (json_at server ''learner'') (\<lambda>learner.
     run_bind (run_bind (json_at server ''priority'') as_int) (\<lambda>prior.
     run_bind (as_string endpoint) (\<lambda>e. run_bind (as_string aux) (\<lambda>a. run_bind (as_bool learner) (\<lambda>l.
       Ret (srv_config_new (word_of_int sid) (word_of_int dc_id) e a l (word_of_int prior)))))))))))"

definition fromServers :: "json \<Rightarrow> srv_config list run" where
  "fromServers servers =
     (case servers of
        J_arr xs \<Rightarrow> run_mapM fromServer xs
      | J_obj m \<Rightarrow> run_mapM fromServer (map snd m)
      | J_null \<Rightarrow> Ret []
      | _ \<Rightarrow> run_mapM fromServer [servers])"

definition toServer :: "srv_config \<Rightarrow> json" where
  "toServer c = json_object
     [(''id'', J_num (sint (sc_id c))), (''dc_id'', J_num (sint (sc_dc_id c))), (''endpoint'', J_str (sc_endpoint c)),
      (''aux'', J_str (sc_aux c)), (''learner'', J_bool (sc_learner c)), (''priority'', J_num (sint (sc_priority c)))]"

definition toServers :: "srv_config list \<Rightarrow> json" where
  "toServers server_list = J_arr (map toServer server_list)"

definition fromClusterConfig :: "json \<Rightarrow> cluster_config run" where
  "fromClusterConfig j =
     run_bind (json_at j ''log_idx'') (\<lambda>log_idx.
     run_bind (json_at j ''prev_log_idx'') (\<lambda>prev_log_idx.
     run_bind (json_at j ''eventual_consistency'') (\<lambda>eventual.
     run_bind (as_int log_idx) (\<lambda>l. run_bind (as_int prev_log_idx) (\<lambda>p. run_bind (as_bool eventual) (\<lambda>e.
     run_bind (run_bind (json_at j ''servers'') fromServers) (\<lambda>servers.
       Ret ((cluster_config_new (word_of_int l) (word_of_int p) e)\<lparr>cl_servers := servers\<rparr>))))))))"

text \<open>Without a readable file the configuration is the server alone, with the library's default priority.\<close>

definition load_config :: "json_io \<Rightarrow> i32 \<Rightarrow> simple_state_mgr \<Rightarrow> files \<Rightarrow> cluster_config run" where
  "load_config jio default_priority m fs =
     run_bind (jsonObjectFromFile jio fs (config_file m)) (\<lambda>r.
       case r of
         Inr config_map \<Rightarrow> fromClusterConfig config_map
       | Inl _ \<Rightarrow> Ret ((cluster_config_new 0 0 False)\<lparr>cl_servers :=
            [srv_config_new (smgr_srv_id m) 0 (smgr_srv_addr m) [] False default_priority]\<rparr>))"

definition config_json :: "cluster_config \<Rightarrow> json" where
  "config_json config = json_object
     [(''log_idx'', J_num (uint (cl_log_idx config))), (''prev_log_idx'', J_num (uint (cl_prev_log_idx config))),
      (''eventual_consistency'', J_bool (cl_async_replication config)), (''user_ctx'', J_str (cl_user_ctx config)),
      (''servers'', toServers (cl_servers config))]"

definition save_config :: "json_io \<Rightarrow> simple_state_mgr \<Rightarrow> cluster_config \<Rightarrow> files \<Rightarrow> files" where
  "save_config jio m config fs = write_json jio (config_file m) (config_json config) fs"

text \<open>
  \<open>read_state\<close>. On a value that is not constant \<open>operator[]\<close> makes a missing key null,
  and the conversion of null throws an exception that the handler does not name.
\<close>

definition json_at_or_null :: "json \<Rightarrow> string \<Rightarrow> json run" where
  "json_at_or_null j k =
     (case j of J_obj m \<Rightarrow> Ret (case om_find m k of Some v \<Rightarrow> v | None \<Rightarrow> J_null) | J_null \<Rightarrow> Ret J_null | _ \<Rightarrow> Crash)"

definition read_state :: "json_io \<Rightarrow> srv_state \<Rightarrow> simple_state_mgr \<Rightarrow> files \<Rightarrow> srv_state run" where
  "read_state jio default_state m fs =
     run_bind (jsonObjectFromFile jio fs (state_file m)) (\<lambda>r.
       case r of
         Inl _ \<Rightarrow> Ret default_state
       | Inr state_map \<Rightarrow>
           run_bind (run_bind (json_at_or_null state_map ''term'') as_int) (\<lambda>term.
           run_bind (run_bind (json_at_or_null state_map ''voted_for'') as_int) (\<lambda>voted_for.
             Ret (default_state\<lparr>ss_term := word_of_int term, ss_voted_for := word_of_int voted_for\<rparr>))))"

definition state_json :: "srv_state \<Rightarrow> json" where
  "state_json state =
     json_object [(''term'', J_num (uint (ss_term state))), (''voted_for'', J_num (sint (ss_voted_for state)))]"

definition save_state :: "json_io \<Rightarrow> simple_state_mgr \<Rightarrow> srv_state \<Rightarrow> files \<Rightarrow> files" where
  "save_state jio m state fs = write_json jio (state_file m) (state_json state) fs"

definition load_log_store :: "log_entry \<Rightarrow> inmem_log_store" where
  "load_log_store dummy = log_store_new dummy"

text \<open>The other callbacks: nothing is deleted when a group is left or destroyed.\<close>

definition smgr_server_id :: "simple_state_mgr \<Rightarrow> i32" where
  "smgr_server_id m = smgr_srv_id m"

definition smgr_get_logstore_id :: "simple_state_mgr \<Rightarrow> u32" where
  "smgr_get_logstore_id m = 0"

definition smgr_permanent_destroy :: "simple_state_mgr \<Rightarrow> files \<Rightarrow> files" where
  "smgr_permanent_destroy m fs = fs"

definition smgr_leave :: "simple_state_mgr \<Rightarrow> files \<Rightarrow> files" where
  "smgr_leave m fs = fs"

section \<open>The state machine\<close>

record echo_state_machine =
  last_commit_idx :: u64

definition echo_state_machine_new :: echo_state_machine where
  "echo_state_machine_new = \<lparr>last_commit_idx = 0\<rparr>"

text \<open>\<open>commit\<close> logs the message, remembers its index and returns no buffer.\<close>

definition esm_commit :: "u64 \<Rightarrow> buffer \<Rightarrow> echo_state_machine \<Rightarrow> buffer option \<times> echo_state_machine" where
  "esm_commit log_idx data sm = (None, sm\<lparr>last_commit_idx := log_idx\<rparr>)"

definition esm_pre_commit :: "u64 \<Rightarrow> buffer \<Rightarrow> echo_state_machine \<Rightarrow> buffer option \<times> echo_state_machine" where
  "esm_pre_commit log_idx data sm = (None, sm)"

definition esm_rollback :: "u64 \<Rightarrow> buffer \<Rightarrow> echo_state_machine \<Rightarrow> echo_state_machine" where
  "esm_rollback log_idx data sm = sm"

definition esm_last_commit_index :: "echo_state_machine \<Rightarrow> u64" where
  "esm_last_commit_index sm = last_commit_idx sm"

text \<open>Snapshots: nothing is saved or read, and there never is a last one.\<close>

definition esm_apply_snapshot :: "echo_state_machine \<Rightarrow> bool \<times> echo_state_machine" where
  "esm_apply_snapshot sm = (True, sm)"

definition esm_read_snapshot_data :: "u64 \<Rightarrow> echo_state_machine \<Rightarrow> i32" where
  "esm_read_snapshot_data offset sm = 0"

definition esm_last_snapshot :: "echo_state_machine \<Rightarrow> nat option" where
  "esm_last_snapshot sm = None"

definition smgr_get_state_machine :: "simple_state_mgr \<Rightarrow> echo_state_machine" where
  "smgr_get_state_machine m = echo_state_machine_new"

text \<open>The calls of the RAFT library that may change the machine.\<close>

datatype esm_call = Pre_commit u64 buffer | Commit u64 buffer | Rollback u64 buffer | Apply_snapshot

fun esm_step :: "esm_call \<Rightarrow> echo_state_machine \<Rightarrow> echo_state_machine" where
  "esm_step (Pre_commit i data) sm = snd (esm_pre_commit i data sm)"
| "esm_step (Commit i data) sm = snd (esm_commit i data sm)"
| "esm_step (Rollback i data) sm = esm_rollback i data sm"
| "esm_step Apply_snapshot sm = snd (esm_apply_snapshot sm)"

section \<open>Names and addresses\<close>

definition uuids :: "string list" where
  "uuids = [''f0d3ec17-9075-429b-afa7-68d7542f7403'', ''aa2018b3-2556-4d8e-a575-0a90d360b0bb'',
     ''d22e63a2-4993-4f0e-b19d-bfa5ace64e87'', ''d68a6947-b976-4e78-9cf0-8cc6520ea266'',
     ''2da54edb-8e1d-4fc6-9ac3-4eade3aac0b4'']"

text \<open>The loop of \<open>lookup_peer\<close> and of \<open>lookupEndpoint\<close>; an unknown peer ends the process.\<close>

fun lookup_from :: "nat \<Rightarrow> string list \<Rightarrow> string \<Rightarrow> string run" where
  "lookup_from i [] id_str = Crash"
| "lookup_from i (u # us) id_str =
     (if u = id_str then Ret (''127.0.0.1:'' @ nat_digits (9000 + i)) else lookup_from (Suc i) us id_str)"

definition lookup_peer :: "uuid_io \<Rightarrow> peer_id \<Rightarrow> string run" where
  "lookup_peer io peer = lookup_from 0 uuids (to_string io peer)"

section \<open>Round trips\<close>

lemma fromServer_toServer: "fromServer (toServer c) = Ret (c\<lparr>sc_new_joiner := False\<rparr>)"
  by (simp add: fromServer_def toServer_def json_object_def json_at_def as_int_def as_string_def as_bool_def
      srv_config_new_def)

lemma fromServers_toServers: "fromServers (toServers cs) = Ret (map (\<lambda>c. c\<lparr>sc_new_joiner := False\<rparr>) cs)"
proof -
  have "run_mapM fromServer (map toServer cs) = Ret (map (\<lambda>c. c\<lparr>sc_new_joiner := False\<rparr>) cs)"
    by (induction cs) (simp_all add: fromServer_toServer)
  then show ?thesis by (simp add: fromServers_def toServers_def)
qed

lemma fromClusterConfig_config_json:
  "fromClusterConfig (config_json c) =
     Ret (c\<lparr>cl_user_ctx := [], cl_servers := map (\<lambda>c. c\<lparr>sc_new_joiner := False\<rparr>) (cl_servers c)\<rparr>)"
  by (simp add: fromClusterConfig_def config_json_def json_object_def json_at_def as_int_def as_bool_def
      fromServers_toServers cluster_config_new_def)

lemma json_object_is_object: "\<exists>m. json_object ps = J_obj m"
  by (simp add: json_object_def)

lemma read_written:
  assumes "json_io_ok jio" and "fs_writable fs f" and "json_dump jio (json_object ps) \<noteq> None"
  shows "jsonObjectFromFile jio (write_json jio f (json_object ps) fs) f = Ret (Inr (json_object ps))"
proof -
  obtain s where s: "json_dump jio (json_object ps) = Some s" using assms(3) by blast
  then have "json_parse jio s = Some (json_object ps)" using assms(1) by (simp add: json_io_ok_def)
  with s assms(2) show ?thesis by (simp add: jsonObjectFromFile_def write_json_def json_object_def)
qed

lemma read_other:
  "f \<noteq> g \<Longrightarrow> jsonObjectFromFile jio (write_json jio f j fs) g = jsonObjectFromFile jio fs g"
  by (simp add: jsonObjectFromFile_def write_json_def)

lemma files_differ: "config_file m \<noteq> state_file m"
  by (simp add: config_file_def state_file_def)

lemma write_json_writable [simp]: "fs_writable (write_json jio f j fs) = fs_writable fs"
  by (simp add: write_json_def)

section \<open>The state machine\<close>

definition committed :: "esm_call list \<Rightarrow> u64 list" where
  "committed cs = concat (map (\<lambda>c. case c of Commit i _ \<Rightarrow> [i] | _ \<Rightarrow> []) cs)"

text \<open>
  Whatever the calls, the machine reports the last index committed, 0 before the first one;
  in particular an applied snapshot does not advance it.
\<close>

lemma esm_reports_last_commit:
  "esm_last_commit_index (fold esm_step cs (smgr_get_state_machine m)) = last (0 # committed cs)"
proof -
  have "last_commit_idx (fold esm_step cs sm) = last (last_commit_idx sm # committed cs)" for sm
    by (induction cs arbitrary: sm)
      (auto simp: committed_def esm_pre_commit_def esm_commit_def esm_rollback_def esm_apply_snapshot_def split: esm_call.splits)
  then show ?thesis
    by (simp add: esm_last_commit_index_def smgr_get_state_machine_def echo_state_machine_new_def)
qed

text \<open>A group that is left and joined again starts from the configuration and the vote it had.\<close>

lemma destroy_keeps_files:
  "load_config jio pr m (smgr_permanent_destroy m (smgr_leave m fs)) = load_config jio pr m fs"
  "read_state jio ds m (smgr_permanent_destroy m (smgr_leave m fs)) = read_state jio ds m fs"
  by (simp_all add: smgr_permanent_destroy_def smgr_leave_def)

section \<open>Samples\<close>

text \<open>A format for a given list of documents: the position, in unary.\<close>

definition table_json_io :: "json list \<Rightarrow> json_io" where
  "table_json_io docs =
     \<lparr>json_dump = (\<lambda>j. map_option (\<lambda>i. replicate i CHR ''x'')
         (map_of (map (\<lambda>i. (docs ! i, i)) [0..<length docs]) j)),
      json_parse = (\<lambda>s. if length s < length docs then Some (docs ! length s) else None)\<rparr>"

lemma table_json_io_ok: "json_io_ok (table_json_io docs)"
  by (auto simp: json_io_ok_def table_json_io_def dest!: map_of_SomeD)

definition sample_config :: cluster_config where
  "sample_config = \<lparr>cl_log_idx = 4, cl_prev_log_idx = 2, cl_async_replication = True, cl_user_ctx = ''ctx'',
     cl_servers = [srv_config_new 1 0 ''a'' [] False 100]\<rparr>"

definition sample_state :: srv_state where
  "sample_state = \<lparr>ss_term = 3, ss_voted_for = -1\<rparr>"

section \<open>Property\<close>

text \<open>
  C27: What the example's state manager saves it reads back. After \<open>save_state\<close> and
  \<open>save_config\<close> to files that can be written, \<open>read_state\<close> gives the term and the vote,
  whatever the sign of the vote, and \<open>load_config\<close> the configuration with its servers -
  without the user context, which is written and never read, and without the new-joiner
  marks, which are not written.
\<close>

theorem state_mgr_roundtrip:
  assumes "json_io_ok jio" and "fs_writable fs (config_file m)" and "fs_writable fs (state_file m)"
    and "json_dump jio (config_json c) \<noteq> None" and "json_dump jio (state_json st) \<noteq> None"
    and "fs' = save_config jio m c (save_state jio m st fs)"
  shows "load_config jio pr m fs' =
      Ret (c\<lparr>cl_user_ctx := [], cl_servers := map (\<lambda>s. s\<lparr>sc_new_joiner := False\<rparr>) (cl_servers c)\<rparr>) \<and>
    read_state jio ds m fs' = Ret st"
proof
  have "jsonObjectFromFile jio fs' (config_file m) = Ret (Inr (config_json c))"
    using assms(1,2,4) unfolding assms(6) save_config_def save_state_def config_json_def
    by (intro read_written) simp_all
  then show "load_config jio pr m fs' =
      Ret (c\<lparr>cl_user_ctx := [], cl_servers := map (\<lambda>s. s\<lparr>sc_new_joiner := False\<rparr>) (cl_servers c)\<rparr>)"
    by (simp add: load_config_def fromClusterConfig_config_json)
  have "jsonObjectFromFile jio (save_state jio m st fs) (state_file m) = Ret (Inr (state_json st))"
    using assms(1,3,5) unfolding save_state_def state_json_def by (intro read_written) simp_all
  then have "jsonObjectFromFile jio fs' (state_file m) = Ret (Inr (state_json st))"
    by (simp add: assms(6) save_config_def read_other files_differ)
  then show "read_state jio ds m fs' = Ret st"
    by (simp add: read_state_def state_json_def json_object_def json_at_or_null_def as_int_def)
qed

theorem state_mgr_roundtrip_witness:
  "\<exists>jio fs m. load_config jio 1 m (save_config jio m sample_config (save_state jio m sample_state fs)) =
     Ret (sample_config\<lparr>cl_user_ctx := []\<rparr>)"
proof -
  let ?jio = "table_json_io [config_json sample_config, state_json sample_state]"
  let ?fs = "\<lparr>fs_content = (\<lambda>_. None), fs_writable = (\<lambda>_. True)\<rparr>"
  let ?m = "simple_state_mgr_new bits_uuid_io 1 7 3"
  have "json_dump ?jio (config_json sample_config) \<noteq> None" "json_dump ?jio (state_json sample_state) \<noteq> None"
    by (simp_all add: table_json_io_def)
  with state_mgr_roundtrip [OF table_json_io_ok, where m = ?m and fs = ?fs and c = sample_config and st = sample_state]
  have "load_config ?jio 1 ?m (save_config ?jio ?m sample_config (save_state ?jio ?m sample_state ?fs)) =
     Ret (sample_config\<lparr>cl_user_ctx := []\<rparr>)"
    by (simp add: sample_config_def srv_config_new_def)
  then show ?thesis by blast
qed

end
