(* ===== verification/Connection.thy ===== *)
theory Connection
  imports Client_Requests
begin

text \<open>
  How connections come about: the settings (\<open>src/lib/nuraft_mesg_config.fbs\<close>), the start
  parameters (\<open>nuraft_mesg.hpp\<close>), the constructors of the factories (\<open>src/lib/factory.cpp\<close>,
  \<open>src/proto/proto_mesg_factory.cpp\<close>, \<open>src/lib/manager_impl.cpp\<close>) with the worker threads they
  create, the constructors and \<open>init\<close> of the clients (\<open>src/lib/client.hpp\<close>), and what an
  exception on the way leaves behind in the caches. Channels, stubs and worker threads are
  those of \<open>sisl\<close>, a parameter.
\<close>

section \<open>Settings and start parameters\<close>

record mesg_factory_config =
  raft_request_deadline_secs :: u16
  data_request_deadline_secs :: u16

record nuraft_mesg_config =
  mesg_factory_cfg :: mesg_factory_config
  grpc_raft_client_thread_cnt :: u16
  grpc_data_client_thread_cnt :: u16
  grpc_server_thread_cnt :: u16
  raft_leader_change_timeout_ms :: u32
  raft_scheduler_thread_cnt :: u16
  raft_append_entries_thread_cnt :: u16
  io_thread_pool_size :: u32

definition nuraft_mesg_config_default :: nuraft_mesg_config where
  "nuraft_mesg_config_default =
     \<lparr>mesg_factory_cfg = \<lparr>raft_request_deadline_secs = 2, data_request_deadline_secs = 2\<rparr>,
      grpc_raft_client_thread_cnt = 1, grpc_data_client_thread_cnt = 1, grpc_server_thread_cnt = 2,
      raft_leader_change_timeout_ms = 3200, raft_scheduler_thread_cnt = 2, raft_append_entries_thread_cnt = 2,
      io_thread_pool_size = 0\<rparr>"

text \<open>\<open>Manager::Params\<close>; token verifier and token client are numbers that stand for the objects.\<close>

record params =
  server_uuid :: uuid
  mesg_port :: u16
  default_group_type :: group_type
  ssl_key :: string
  ssl_cert :: string
  ssl_ca :: string
  token_verifier :: "nat option"
  token_client :: "nat option"
  max_receive_message_size :: i32
  max_send_message_size :: i32
  enable_console_log :: bool

text \<open>A default-constructed \<open>Params\<close>; its UUID and port are whatever was there.\<close>

definition params_default :: "uuid \<Rightarrow> u16 \<Rightarrow> params" where
  "params_default u port =
     \<lparr>server_uuid = u, mesg_port = port, default_group_type = [], ssl_key = [], ssl_cert = [], ssl_ca = [],
      token_verifier = None, token_client = None, max_receive_message_size = 0, max_send_message_size = 0,
      enable_console_log = False\<rparr>"

section \<open>The constructors of the factories\<close>

text \<open>
  What the constructors change outside their object: the worker threads created, with their
  number, and the certificate, which is a static member of \<open>group_factory\<close>.
\<close>

record statics =
  st_workers :: "(string \<times> int) list"
  st_ssl_cert :: string

record grpc_factory =
  fa_worker_name :: string

record group_factory = grpc_factory +
  fa_token_client :: "nat option"
  fa_max_receive :: i32
  fa_max_send :: i32

definition raftWorkerName :: "'a grpc_factory_scheme \<Rightarrow> string" where
  "raftWorkerName f = ''raft_'' @ fa_worker_name f"

definition dataWorkerName :: "'a grpc_factory_scheme \<Rightarrow> string" where
  "dataWorkerName f = ''data_'' @ fa_worker_name f"

definition create_worker :: "string \<Rightarrow> int \<Rightarrow> statics \<Rightarrow> statics" where
  "create_worker name n s = s\<lparr>st_workers := st_workers s @ [(name, n)]\<rparr>"

definition grpc_factory_new :: "int \<Rightarrow> int \<Rightarrow> string \<Rightarrow> statics \<Rightarrow> grpc_factory \<times> statics" where
  "grpc_factory_new raft_cli_thread_count data_cli_thread_count name s =
     (let f = \<lparr>fa_worker_name = name\<rparr>;
          s1 = (if 0 < raft_cli_thread_count then create_worker (raftWorkerName f) raft_cli_thread_count s else s);
          s2 = (if 0 < data_cli_thread_count then create_worker (dataWorkerName f) data_cli_thread_count s1 else s1)
      in (f, s2))"

definition grpc_factory_new1 :: "int \<Rightarrow> string \<Rightarrow> statics \<Rightarrow> grpc_factory \<times> statics" where
  "grpc_factory_new1 cli_thread_count name s = grpc_factory_new cli_thread_count 0 name s"

definition group_factory_new ::
  "uuid_io \<Rightarrow> int \<Rightarrow> int \<Rightarrow> group_id \<Rightarrow> nat option \<Rightarrow> string \<Rightarrow> i32 \<Rightarrow> i32 \<Rightarrow> statics \<Rightarrow> group_factory \<times> statics" where
  "group_factory_new io raft_cli_thread_count data_cli_thread_count name token cert max_receive max_send s =
     (let (f, s1) = grpc_factory_new raft_cli_thread_count data_cli_thread_count (to_string io name) s in
      (\<lparr>fa_worker_name = fa_worker_name f, fa_token_client = token, fa_max_receive = max_receive,
        fa_max_send = max_send\<rparr>, s1\<lparr>st_ssl_cert := cert\<rparr>))"

definition group_factory_new1 ::
  "uuid_io \<Rightarrow> int \<Rightarrow> group_id \<Rightarrow> nat option \<Rightarrow> string \<Rightarrow> statics \<Rightarrow> group_factory \<times> statics" where
  "group_factory_new1 io cli_thread_count name token cert s =
     group_factory_new io cli_thread_count 0 name token cert 0 0 s"

definition engine_factory_new :: "uuid_io \<Rightarrow> int \<Rightarrow> int \<Rightarrow> params \<Rightarrow> statics \<Rightarrow> group_factory \<times> statics" where
  "engine_factory_new io raft_threads data_threads start_params s =
     group_factory_new io raft_threads data_threads (server_uuid start_params) (token_client start_params)
       (ssl_ca start_params) (max_receive_message_size start_params) (max_send_message_size start_params) s"

text \<open>The factory of the process, as the constructor of \<open>ManagerImpl\<close> makes it.\<close>

definition manager_factory :: "uuid_io \<Rightarrow> nuraft_mesg_config \<Rightarrow> params \<Rightarrow> statics \<Rightarrow> group_factory \<times> statics" where
  "manager_factory io cfg start_params s =
     engine_factory_new io (uint (grpc_raft_client_thread_cnt cfg)) (uint (grpc_data_client_thread_cnt cfg)) start_params s"

text \<open>\<open>mesg_factory::mesg_factory\<close>: no worker of its own.\<close>

definition mesg_factory_new :: "uuid_io \<Rightarrow> group_id \<Rightarrow> group_type \<Rightarrow> statics \<Rightarrow> (grpc_factory \<times> mesg_factory) \<times> statics" where
  "mesg_factory_new io grp_id grp_type s =
     (let (f, s1) = grpc_factory_new1 0 (to_string io grp_id) s in
      ((f, \<lparr>mf_group_id = grp_id, mf_group_type = grp_type\<rparr>), s1))"

section \<open>The constructors of the clients\<close>

record channel_args =
  ch_addr :: string
  ch_token_client :: "nat option"
  ch_target_domain :: string
  ch_ssl_cert :: string
  ch_max_receive :: i32
  ch_max_send :: i32

text \<open>
  What \<open>sisl::GrpcAsyncClient\<close> does: open a channel, make a stub on a channel for a worker,
  which may throw, and say whether a channel is ready.
\<close>

record sisl_client =
  sl_init :: "channel_args \<Rightarrow> nat"
  sl_make_stub :: "string \<Rightarrow> nat \<Rightarrow> nat run"
  sl_make_generic_stub :: "string \<Rightarrow> nat \<Rightarrow> nat run"
  sl_ready :: "nat \<Rightarrow> bool"

record grpc_client =
  cn_args :: channel_args
  cn_worker_name :: string
  cn_channel :: "nat option"
  cn_stub :: "nat option"
  cn_generic_stub :: "nat option"

text \<open>\<open>grpc_client::init\<close> opens a channel unless there is one that is ready.\<close>

definition grpc_client_init :: "sisl_client \<Rightarrow> grpc_client \<Rightarrow> grpc_client run" where
  "grpc_client_init sl c =
     (if cn_stub c \<noteq> None \<and> (case cn_channel c of Some ch \<Rightarrow> sl_ready sl ch | None \<Rightarrow> False) then Ret c
      else
        (let ch = sl_init sl (cn_args c) in
         run_bind (sl_make_stub sl (cn_worker_name c) ch)
           (\<lambda>stub. Ret (c\<lparr>cn_channel := Some ch, cn_stub := Some stub\<rparr>))))"

definition grpc_client_new :: "sisl_client \<Rightarrow> string \<Rightarrow> channel_args \<Rightarrow> grpc_client run" where
  "grpc_client_new sl worker_name args =
     grpc_client_init sl \<lparr>cn_args = args, cn_worker_name = worker_name, cn_channel = None, cn_stub = None,
       cn_generic_stub = None\<rparr>"

definition messaging_client_new :: "sisl_client \<Rightarrow> string \<Rightarrow> string \<Rightarrow> channel_args \<Rightarrow> grpc_client run" where
  "messaging_client_new sl raft_worker_name data_worker_name args =
     run_bind (grpc_client_new sl raft_worker_name args) (\<lambda>c.
     run_bind (deref (cn_channel c)) (\<lambda>ch.
     run_bind (sl_make_generic_stub sl data_worker_name ch)
       (\<lambda>g. Ret (c\<lparr>cn_generic_stub := Some g\<rparr>))))"

text \<open>The call of \<open>make\<close> in \<open>group_factory::create_client\<close>.\<close>

definition make_messaging_client :: "sisl_client \<Rightarrow> group_factory \<Rightarrow> string \<Rightarrow> statics \<Rightarrow> grpc_client run" where
  "make_messaging_client sl f endpoint s =
     messaging_client_new sl (raftWorkerName f) (dataWorkerName f)
       \<lparr>ch_addr = endpoint, ch_token_client = fa_token_client f, ch_target_domain = [],
        ch_ssl_cert = st_ssl_cert s, ch_max_receive = fa_max_receive f, ch_max_send = fa_max_send f\<rparr>"

section \<open>An exception on the way\<close>

text \<open>
  When \<open>lookupEndpoint\<close> of the application or \<open>make\<close> throws, the exception leaves
  \<open>create_or_reinit_client\<close> after the entry was emplaced: a new entry stays, with a null
  pointer.
\<close>

definition create_or_reinit_thrown :: "peer_id \<Rightarrow> clients \<Rightarrow> clients" where
  "create_or_reinit_thrown client cl = fst (om_emplace client None cl)"

text \<open>
  The overload that takes a name, on a group's factory, when the process's factory throws:
  the exception passes both functions and the overload returns null.
\<close>

definition lookup_client_thrown :: "peer_id \<Rightarrow> mf_state \<Rightarrow> nat option \<times> mf_state" where
  "lookup_client_thrown client st =
     (let (cl, gcl, h) = st in
      (None, create_or_reinit_thrown client cl, create_or_reinit_thrown client gcl, h))"

section \<open>What the client library requires\<close>

text \<open>
  A stub works on a worker that has been created: it is made when the worker is there, and
  refused with an exception when it is not.
\<close>

definition stubs_need_workers :: "sisl_client \<Rightarrow> statics \<Rightarrow> bool" where
  "stubs_need_workers sl s \<longleftrightarrow>
     (\<forall>w ch. if w \<in> fst ` set (st_workers s)
        then (\<exists>i. sl_make_stub sl w ch = Ret i) \<and> (\<exists>i. sl_make_generic_stub sl w ch = Ret i)
        else (\<exists>e. sl_make_stub sl w ch = Runtime_error e) \<and> (\<exists>e. sl_make_generic_stub sl w ch = Runtime_error e))"

lemma worker_names_differ: "raftWorkerName f \<noteq> dataWorkerName g"
  by (simp add: raftWorkerName_def dataWorkerName_def)

lemma grpc_factory_new_workers:
  "st_workers (snd (grpc_factory_new r d name s)) = st_workers s @
     (if 0 < r then [(''raft_'' @ name, r)] else []) @ (if 0 < d then [(''data_'' @ name, d)] else [])"
  "st_ssl_cert (snd (grpc_factory_new r d name s)) = st_ssl_cert s"
  "fa_worker_name (fst (grpc_factory_new r d name s)) = name"
  by (simp_all add: grpc_factory_new_def Let_def create_worker_def raftWorkerName_def dataWorkerName_def)

lemma mesg_factory_new_workers: "snd (mesg_factory_new io g t s) = s"
  by (simp add: mesg_factory_new_def grpc_factory_new1_def grpc_factory_new_def Let_def)

text \<open>Group factories made later in the process: threads, name, token, certificate, limits.\<close>

type_synonym factory_args = "int \<times> int \<times> group_id \<times> nat option \<times> string \<times> i32 \<times> i32"

fun later_factories :: "uuid_io \<Rightarrow> factory_args list \<Rightarrow> statics \<Rightarrow> statics" where
  "later_factories io [] s = s"
| "later_factories io ((r, d, name, token, cert, mr, ms) # fs) s =
     later_factories io fs (snd (group_factory_new io r d name token cert mr ms s))"

fun cert_of :: "factory_args \<Rightarrow> string" where
  "cert_of (r, d, name, token, cert, mr, ms) = cert"

lemma group_factory_new_statics:
  "st_workers (snd (group_factory_new io r d name token cert mr ms s)) = st_workers s @
     (if 0 < r then [(''raft_'' @ to_string io name, r)] else []) @
     (if 0 < d then [(''data_'' @ to_string io name, d)] else [])"
  "st_ssl_cert (snd (group_factory_new io r d name token cert mr ms s)) = cert"
  "fst (group_factory_new io r d name token cert mr ms s) =
     \<lparr>fa_worker_name = to_string io name, fa_token_client = token, fa_max_receive = mr, fa_max_send = ms\<rparr>"
  by (simp_all add: group_factory_new_def case_prod_unfold grpc_factory_new_workers)

lemma later_factories_workers: "set (st_workers s) \<subseteq> set (st_workers (later_factories io fs s))"
  by (induction io fs s rule: later_factories.induct) (auto simp: group_factory_new_statics)

lemma later_factories_cert:
  "st_ssl_cert (later_factories io fs s) = (if fs = [] then st_ssl_cert s else cert_of (last fs))"
  by (induction io fs s rule: later_factories.induct) (auto simp: group_factory_new_statics)

lemma make_messaging_client_workers:
  assumes "stubs_need_workers sl s" and "raftWorkerName f \<in> fst ` set (st_workers s)"
    and "dataWorkerName f \<in> fst ` set (st_workers s)"
  shows "\<exists>i g. make_messaging_client sl f endpoint s =
    (let args = \<lparr>ch_addr = endpoint, ch_token_client = fa_token_client f, ch_target_domain = [],
        ch_ssl_cert = st_ssl_cert s, ch_max_receive = fa_max_receive f, ch_max_send = fa_max_send f\<rparr>
     in Ret \<lparr>cn_args = args, cn_worker_name = raftWorkerName f, cn_channel = Some (sl_init sl args),
          cn_stub = Some i, cn_generic_stub = Some g\<rparr>)"
proof -
  let ?args = "\<lparr>ch_addr = endpoint, ch_token_client = fa_token_client f, ch_target_domain = [],
        ch_ssl_cert = st_ssl_cert s, ch_max_receive = fa_max_receive f, ch_max_send = fa_max_send f\<rparr>"
  obtain i where "sl_make_stub sl (raftWorkerName f) (sl_init sl ?args) = Ret i"
    using assms(1,2) unfolding stubs_need_workers_def by metis
  moreover obtain g where "sl_make_generic_stub sl (dataWorkerName f) (sl_init sl ?args) = Ret g"
    using assms(1,3) unfolding stubs_need_workers_def by metis
  ultimately show ?thesis
    by (simp add: make_messaging_client_def messaging_client_new_def grpc_client_new_def grpc_client_init_def Let_def)
qed

section \<open>A concrete client library\<close>

text \<open>Workers of one process, \<open>raft_\<close> and \<open>data_\<close> of UUID 5; channels and stubs are all number 0.\<close>

definition sample_statics :: statics where
  "sample_statics = \<lparr>st_workers = [], st_ssl_cert = []\<rparr>"

definition sisl_for :: "string list \<Rightarrow> sisl_client" where
  "sisl_for ws =
     \<lparr>sl_init = (\<lambda>_. 0), sl_make_stub = (\<lambda>w _. if w \<in> set ws then Ret 0 else Runtime_error ''worker thread not available''),
      sl_make_generic_stub = (\<lambda>w _. if w \<in> set ws then Ret 0 else Runtime_error ''worker thread not available''),
      sl_ready = (\<lambda>_. True)\<rparr>"

lemma sisl_for_ok: "stubs_need_workers (sisl_for (map fst (st_workers s))) s"
  by (simp add: stubs_need_workers_def sisl_for_def)

definition sample_params :: params where
  "sample_params = (params_default 5 9000)\<lparr>ssl_ca := ''ca'', max_send_message_size := 64\<rparr>"

section \<open>Properties\<close>

text \<open>
  C19: What a connection is made from. The process's factory, made from the settings and the
  start parameters with at least one thread for each kind of call, can always make a
  connection: both its workers are there, both stubs are on one new channel, and the channel
  has the given endpoint and the token client and message limits of the start parameters. The
  certificate, a static member, is that of the start parameters only as long as no other
  group factory is constructed in the process; afterwards it is that of the last one.
\<close>

theorem connection_parameters:
  assumes "manager_factory io cfg ps s = (f, s1)" and "0 < grpc_raft_client_thread_cnt cfg"
    and "0 < grpc_data_client_thread_cnt cfg" and "stubs_need_workers sl (later_factories io fs s1)"
  shows "\<exists>c. make_messaging_client sl f endpoint (later_factories io fs s1) = Ret c \<and>
    cn_stub c \<noteq> None \<and> cn_generic_stub c \<noteq> None \<and> cn_channel c = Some (sl_init sl (cn_args c)) \<and>
    cn_args c = \<lparr>ch_addr = endpoint, ch_token_client = token_client ps, ch_target_domain = [],
      ch_ssl_cert = (if fs = [] then ssl_ca ps else cert_of (last fs)),
      ch_max_receive = max_receive_message_size ps, ch_max_send = max_send_message_size ps\<rparr>"
proof -
  let ?r = "uint (grpc_raft_client_thread_cnt cfg)" and ?d = "uint (grpc_data_client_thread_cnt cfg)"
  let ?new = "group_factory_new io ?r ?d (server_uuid ps) (token_client ps) (ssl_ca ps)
    (max_receive_message_size ps) (max_send_message_size ps) s"
  have pos: "0 < ?r" "0 < ?d" using assms(2,3) by (simp_all add: word_less_def)
  have "(f, s1) = ?new" using assms(1) by (simp add: manager_factory_def engine_factory_new_def)
  then have f: "f = fst ?new" and s1: "s1 = snd ?new" by (metis fst_conv, metis snd_conv)
  have "raftWorkerName f \<in> fst ` set (st_workers s1)" "dataWorkerName f \<in> fst ` set (st_workers s1)"
    using pos by (auto simp: f s1 group_factory_new_statics raftWorkerName_def dataWorkerName_def)
  then have "raftWorkerName f \<in> fst ` set (st_workers (later_factories io fs s1))"
      "dataWorkerName f \<in> fst ` set (st_workers (later_factories io fs s1))"
    using later_factories_workers [of s1 io fs] by auto
  from make_messaging_client_workers [OF assms(4) this, of endpoint] show ?thesis
    by (auto simp: Let_def later_factories_cert f s1 group_factory_new_statics)
qed

theorem connection_parameters_witness:
  "\<exists>sl f s1 c. manager_factory bits_uuid_io nuraft_mesg_config_default sample_params sample_statics = (f, s1) \<and>
     make_messaging_client sl f ''host:1'' s1 = Ret c \<and> ch_ssl_cert (cn_args c) = ''ca''"
proof -
  let ?m = "manager_factory bits_uuid_io nuraft_mesg_config_default sample_params sample_statics"
  have m: "?m = (fst ?m, snd ?m)" by simp
  have pos: "0 < grpc_raft_client_thread_cnt nuraft_mesg_config_default"
      "0 < grpc_data_client_thread_cnt nuraft_mesg_config_default"
    by (simp_all add: nuraft_mesg_config_default_def)
  have sl: "stubs_need_workers (sisl_for (map fst (st_workers (snd ?m)))) (later_factories bits_uuid_io [] (snd ?m))"
    using sisl_for_ok by simp
  from connection_parameters [OF m pos sl, of "''host:1''"] obtain c where
    "make_messaging_client (sisl_for (map fst (st_workers (snd ?m)))) (fst ?m) ''host:1'' (snd ?m) = Ret c"
    "ch_ssl_cert (cn_args c) = ssl_ca sample_params"
    by auto
  moreover have "ssl_ca sample_params = ''ca''" by (simp add: sample_params_def)
  ultimately show ?thesis using m by metis
qed

text \<open>
  A group factory made with the constructor that takes one thread count, as the example
  client makes it, has no worker for data calls, but every connection it makes asks for one:
  if the client library refuses a stub without a worker, no connection can be made at all.
\<close>

lemma factory_without_data_worker:
  assumes "group_factory_new1 io n name token cert s = (f, s1)"
    and "dataWorkerName f \<notin> fst ` set (st_workers s)" and "stubs_need_workers sl s1"
  shows "\<exists>e. make_messaging_client sl f endpoint s1 = Runtime_error e"
proof -
  let ?new = "group_factory_new io n 0 name token cert 0 0 s"
  have "(f, s1) = ?new" using assms(1) by (simp add: group_factory_new1_def)
  then have f: "f = fst ?new" and s1: "s1 = snd ?new" by (metis fst_conv, metis snd_conv)
  have "dataWorkerName f \<notin> fst ` set (st_workers s1)"
    using assms(2) by (auto simp: f s1 group_factory_new_statics dataWorkerName_def)
  then have gen: "\<exists>e. sl_make_generic_stub sl (dataWorkerName f) ch = Runtime_error e" for ch
    using assms(3) unfolding stubs_need_workers_def by metis
  have stub: "(\<exists>i. sl_make_stub sl w ch = Ret i) \<or> (\<exists>e. sl_make_stub sl w ch = Runtime_error e)" for w ch
    using assms(3) unfolding stubs_need_workers_def by metis
  show ?thesis
    using gen stub unfolding make_messaging_client_def messaging_client_new_def grpc_client_new_def grpc_client_init_def
    by (smt (verit) Let_def deref_simps(1) grpc_client.select_convs grpc_client.update_convs run_bind.simps(1,2))
qed

lemma factory_without_data_worker_witness:
  "\<exists>sl f s1 e. group_factory_new1 bits_uuid_io 2 3 None [] sample_statics = (f, s1) \<and>
     make_messaging_client sl f ''host:1'' s1 = Runtime_error e"
proof -
  let ?g = "group_factory_new1 bits_uuid_io 2 3 None [] sample_statics"
  have g: "?g = (fst ?g, snd ?g)" by simp
  have "dataWorkerName (fst ?g) \<notin> fst ` set (st_workers sample_statics)" by (simp add: sample_statics_def)
  from factory_without_data_worker [OF g this sisl_for_ok, of "''host:1''"] g show ?thesis by blast
qed

text \<open>
  C39: An exception while a client is created poisons both caches. The lookup that threw left
  null entries for the peer. The group's next lookup gives an error client, even if the peer
  can be reached by then, and clears its own entry; but every lookup after that, of this group
  or of any other that has no entry of its own yet, forced or not, uses the null pointer the
  process's factory still has and crashes.
\<close>

theorem throw_poisons_cache:
  assumes "st_ok io mf (cl, gcl, h)" and "om_find cl p = None" and "om_find gcl p = None"
    and "lookup_client_thrown p (cl, gcl, h) = (c, st1)"
  shows "c = None \<and> (\<exists>a gcl1 h1. mf_create_or_reinit io env mf p False st1 = Ret (Some a, cl, gcl1, h1) \<and> is_error_at h1 a \<and>
    mf_create_or_reinit io env' mf p f (cl, gcl1, h1) = Crash \<and>
    (\<forall>mf' cl'. om_find cl' p = None \<longrightarrow> mf_create_or_reinit io env' mf' p f (cl', gcl1, h1) = Crash))"
proof -
  let ?gcl = "om_assign p None gcl"
  have inv: "om_inv cl" "om_inv gcl" using assms(1) by (simp_all add: st_ok_def mf_inv_def clients_ok_def)
  have st1: "c = None" "st1 = (om_assign p None cl, ?gcl, h)"
    using assms(2-4) by (auto simp: lookup_client_thrown_def create_or_reinit_thrown_def om_emplace_def)
  have first: "mf_create_or_reinit io env mf p False st1 =
      Ret (Some (length (h_objs h)), cl, ?gcl, snd (new_obj Error_client h))"
    using assms(2) inv
    by (simp add: st1 mf_create_or_reinit_def create_or_reinit_client_eq mf_reinit_client_def mf_error_def om_emplace_def
        om.assign_assign om.erase_assign Let_def case_prod_unfold result_codes new_obj_def)
  have null: "gf_create_or_reinit env' p False (?gcl, h1) = Crash" for h1
    using inv by (simp add: gf_create_or_reinit_def create_or_reinit_client_eq gf_reinit_client_def om_emplace_def)
  have crash: "mf_create_or_reinit io env' mf' p f (cl', ?gcl, h1) = Crash" if "om_find cl' p = None" for mf' cl' h1
    using that null by (simp add: mf_create_or_reinit_def create_or_reinit_client_eq mf_create_client_def
        mf_messaging_client_def om_emplace_def)
  have "is_error_at (snd (new_obj Error_client h)) (length (h_objs h))" by (simp add: is_error_at_def)
  with st1 first crash assms(2) show ?thesis by blast
qed

theorem throw_poisons_cache_witness:
  "\<exists>a gcl1 h1. mf_create_or_reinit bits_uuid_io sample_cenv sample_mf 8 False
      (snd (lookup_client_thrown 8 ([(7, Some 1)], [(7, Some 0)], sample_heap 0))) = Ret (Some a, [(7, Some 1)], gcl1, h1) \<and>
    mf_create_or_reinit bits_uuid_io sample_cenv sample_mf 8 False ([(7, Some 1)], gcl1, h1) = Crash"
proof -
  let ?st = "([(7, Some 1)], [(7, Some 0)], sample_heap 0)"
  have ok: "st_ok bits_uuid_io sample_mf ?st"
    using sample_clients_ok [of 0] by (simp add: st_ok_def mf_inv_def)
  have none: "om_find [(7 :: peer_id, Some (1 :: nat))] 8 = None" "om_find [(7 :: peer_id, Some (0 :: nat))] 8 = None"
    by simp_all
  have thrown: "lookup_client_thrown 8 ?st = (fst (lookup_client_thrown 8 ?st), snd (lookup_client_thrown 8 ?st))" by simp
  from throw_poisons_cache [OF ok none thrown, of sample_cenv sample_cenv False] show ?thesis by blast
qed

end
