(* ===== verification/Example_Programs.thy ===== *)
theory Example_Programs
  imports Example_App Connection Membership
begin

text \<open>
  The two programs of \<open>test_package\<close>: the client (\<open>example_client.cpp\<close>), which sends one
  request to a group and repeats it while the group is busy, and the server
  (\<open>example_server.cpp\<close>), which starts a manager and may create a group. Their options are
  those the command line parser hands over.
\<close>

definition guids :: "string list" where
  "guids = [''f0d3ec17-9075-429b-afa7-68d7542f7404'', ''aa2018b3-2556-4d8e-a575-0a90d360b0bc'',
     ''d22e63a2-4993-4f0e-b19d-bfa5ace64e88'', ''d68a6947-b976-4e78-9cf0-8cc6520ea267'',
     ''2da54edb-8e1d-4fc6-9ac3-4eade3aac0b5'']"

text \<open>An element of one of the two arrays; outside of the array anything may happen.\<close>

definition array_at :: "string list \<Rightarrow> u32 \<Rightarrow> string run" where
  "array_at xs i = (if unat i < length xs then Ret (xs ! unat i) else Crash)"

text \<open>\<open>string_generator\<close> throws on what is no UUID.\<close>

definition parse_uuid :: "uuid_io \<Rightarrow> string \<Rightarrow> uuid run" where
  "parse_uuid io s = (case string_generator io s of None \<Rightarrow> Runtime_error ''invalid uuid string'' | Some u \<Rightarrow> Ret u)"

section \<open>The client\<close>

definition lookupEndpoint :: "uuid_io \<Rightarrow> peer_id \<Rightarrow> string run" where
  "lookupEndpoint io client = lookup_from 0 uuids (to_string io client)"

definition example_factory_new :: "uuid_io \<Rightarrow> int \<Rightarrow> group_id \<Rightarrow> statics \<Rightarrow> group_factory \<times> statics" where
  "example_factory_new io threads name s = group_factory_new1 io threads name None [] s"

text \<open>
  \<open>std::move(sf).get()\<close>: the value of the future, once the request has completed. \<open>None\<close> is
  a request that never completes, and the exception of a broken promise is not caught.
\<close>

definition await ::
  "uuid_io \<Rightarrow> msg_types \<Rightarrow> entry_codec \<Rightarrow> world \<Rightarrow> mesg_factory \<Rightarrow> req_msg \<Rightarrow> async_result \<Rightarrow> mf_state
   \<Rightarrow> (null_result \<times> mf_state) run option" where
  "await io mt ec w mf req sf st =
     (case sf of
        Ready r \<Rightarrow> Some (Ret (r, st))
      | Broken_promise \<Rightarrow> Some Crash
      | In_flight ctx m gm \<Rightarrow>
          map_option (\<lambda>res. run_bind res (\<lambda>(ctx', st'). run_bind (deref (cc_promise ctx')) (\<lambda>r. Ret (r, st'))))
            (case on_reply io mt ec w mf 0 ctx req m gm st of
               Ret (Completed ctx', st') \<Rightarrow> Some (Ret (ctx', st'))
             | Ret (Forwarded ctx' a req', st') \<Rightarrow> request_loop io mt ec w mf 1 ctx' a req' st'
             | Runtime_error e \<Rightarrow> Some (Runtime_error e)
             | Crash \<Rightarrow> Some Crash))"

text \<open>
  The loop of \<open>send_message\<close>, \<open>add_new_server\<close> and \<open>remove_server\<close>: \<open>attempt k\<close> is its body
  in the \<open>k\<close>-th round. The exit code is returned.
\<close>

definition retry_again :: "null_result \<Rightarrow> bool" where
  "retry_again r = (case r of Inl e \<Rightarrow> e = SERVER_IS_JOINING \<or> e = CONFIG_CHANGING | Inr _ \<Rightarrow> False)"

partial_function (option) retry_loop ::
  "(nat \<Rightarrow> 's \<Rightarrow> (null_result \<times> 's) run option) \<Rightarrow> nat \<Rightarrow> null_result \<Rightarrow> 's \<Rightarrow> int run option" where
  "retry_loop attempt k r st =
     (if retry_again r then
        (case attempt k st of
           None \<Rightarrow> None
         | Some res \<Rightarrow>
             (case res of
                Ret v \<Rightarrow> retry_loop attempt (Suc k) (fst v) (snd v)
              | Runtime_error e \<Rightarrow> Some (Runtime_error e)
              | Crash \<Rightarrow> Some Crash))
      else Some (Ret (case r of Inr _ \<Rightarrow> 0 | Inl _ \<Rightarrow> -1)))"

text \<open>
  The attempts of the three functions; \<open>ws k\<close> is what surrounds the \<open>k\<close>-th one and
  \<open>default_priority\<close> that of a \<open>srv_config\<close>. A message becomes the bytes of a C string.
\<close>

definition dest_config :: "i32 \<Rightarrow> u32 \<Rightarrow> srv_config run" where
  "dest_config default_priority leader =
     run_bind (array_at uuids leader) (\<lambda>u. Ret (srv_config_new leader 0 u [] False default_priority))"

definition get_result where
  "get_result io mt ec w mf payload addr res =
     (case res of
        Ret (sf, st) \<Rightarrow> await io mt ec w mf (createMessage io mt ec payload addr) sf st
      | Runtime_error e \<Rightarrow> Some (Runtime_error e)
      | Crash \<Rightarrow> Some Crash)"

definition c_string :: "string \<Rightarrow> buffer" where
  "c_string s = map of_char s @ [0]"

definition empty_caches :: mf_state where
  "empty_caches = ([], [], \<lparr>h_counter = 0, h_objs = []\<rparr>)"

definition send_message where
  "send_message io mt ec ws default_priority leader gid message s =
     (let (g_factory, s1) = example_factory_new io 2 gid s;
          ((f, mf), s2) = mesg_factory_new io gid ''test_package'' s1 in
      case dest_config default_priority leader of
        Ret dest_cfg \<Rightarrow>
          (let buf = c_string message in
           retry_loop (\<lambda>k st. get_result io mt ec (ws k) mf (Append_entry buf) 0
               (append_entry io mt ec (w_env (ws k) 0) mf buf dest_cfg st)) 0 (Inl SERVER_IS_JOINING) empty_caches)
      | Runtime_error e \<Rightarrow> Some (Runtime_error e)
      | Crash \<Rightarrow> Some Crash)"

definition add_new_server where
  "add_new_server io mt ec ws default_priority leader srv_id gid s =
     (let (g_factory, s1) = example_factory_new io 2 gid s;
          ((f, mf), s2) = mesg_factory_new io gid ''test_package'' s1 in
      case dest_config default_priority leader of
        Ret dest_cfg \<Rightarrow>
          retry_loop (\<lambda>k st.
              case run_bind (array_at uuids srv_id) (parse_uuid io) of
                Ret srv_addr \<Rightarrow> get_result io mt ec (ws k) mf (Add_server srv_id) srv_addr
                  (add_server io mt ec (w_env (ws k) 0) mf srv_id srv_addr dest_cfg st)
              | Runtime_error e \<Rightarrow> Some (Runtime_error e)
              | Crash \<Rightarrow> Some Crash) 0 (Inl SERVER_IS_JOINING) empty_caches
      | Runtime_error e \<Rightarrow> Some (Runtime_error e)
      | Crash \<Rightarrow> Some Crash)"

definition remove_server where
  "remove_server io mt ec ws default_priority leader gid srv_id s =
     (let (g_factory, s1) = example_factory_new io 2 gid s;
          ((f, mf), s2) = mesg_factory_new io gid ''test_package'' s1 in
      case dest_config default_priority leader of
        Ret dest_cfg \<Rightarrow>
          retry_loop (\<lambda>k st. get_result io mt ec (ws k) mf (Rem_server srv_id) 0
              (rem_server io mt ec (w_env (ws k) 0) mf srv_id dest_cfg st)) 0 (Inl SERVER_IS_JOINING) empty_caches
      | Runtime_error e \<Rightarrow> Some (Runtime_error e)
      | Crash \<Rightarrow> Some Crash)"

record client_options =
  op_clean :: bool
  op_group :: u32
  op_server :: u32
  op_echo :: "string option"
  op_add :: "u32 option"
  op_remove :: "u32 option"

text \<open>\<open>main\<close>: the exit code and the shell commands of \<open>cleanup\<close>. An invalid group is caught here.\<close>

definition cleanup :: "string \<Rightarrow> string" where
  "cleanup prefix = ''rm -rf '' @ prefix"

definition with_no_commands :: "int run option \<Rightarrow> (int \<times> string list) run option" where
  "with_no_commands = map_option (\<lambda>r. run_bind r (\<lambda>code. Ret (code, [])))"

definition client_main where
  "client_main io mt ec ws default_priority opts s =
     (if op_clean opts then Some (Ret (0, map cleanup [''group*'', ''jungle*'', ''server_*'', ''*_log'']))
      else case array_at guids (op_group opts) of
        Ret guid_str \<Rightarrow>
          (case string_generator io guid_str of
             None \<Rightarrow> Some (Ret (-1, []))
           | Some gid \<Rightarrow>
               (case op_echo opts of
                  Some message \<Rightarrow>
                    with_no_commands (send_message io mt ec ws default_priority (op_server opts) gid message s)
                | None \<Rightarrow>
                    (case op_add opts of
                       Some srv_id \<Rightarrow>
                         with_no_commands (add_new_server io mt ec ws default_priority (op_server opts) srv_id gid s)
                     | None \<Rightarrow>
                         (case op_remove opts of
                            Some srv_id \<Rightarrow>
                              with_no_commands (remove_server io mt ec ws default_priority (op_server opts) gid srv_id s)
                          | None \<Rightarrow> Some (Ret (0, []))))))
      | _ \<Rightarrow> Some Crash)"

section \<open>The server\<close>

text \<open>The constants, and the parameters of the RAFT library that the server sets.\<close>

definition rpc_backoff :: i32 where "rpc_backoff = 50"

definition heartbeat_period :: i32 where "heartbeat_period = 100"

definition elect_to_low :: i32 where "elect_to_low = heartbeat_period * 2"

definition elect_to_high :: i32 where "elect_to_high = elect_to_low * 2"

record raft_params =
  rp_election_timeout_lower :: i32
  rp_election_timeout_upper :: i32
  rp_hb_interval :: i32
  rp_max_append_size :: i32
  rp_rpc_failure_backoff :: i32
  rp_auto_forwarding :: bool
  rp_snapshot_enabled :: i32

text \<open>The signal handler, on the flag \<open>k_stop\<close>; \<open>SIGINT\<close> is 2 and \<open>SIGTERM\<close> is 15.\<close>

definition handle :: "int \<Rightarrow> bool \<Rightarrow> bool" where
  "handle signal k_stop = (if signal = 2 \<or> signal = 15 then True else k_stop)"

text \<open>\<open>Application\<close>; its manager is the node.\<close>

record Application =
  ap_port :: u32
  ap_id :: peer_id

definition Application_new :: "peer_id \<Rightarrow> u32 \<Rightarrow> Application" where
  "Application_new name port = \<lparr>ap_port = port, ap_id = name\<rparr>"

definition create_state_mgr :: "uuid_io \<Rightarrow> Application \<Rightarrow> i32 \<Rightarrow> group_id \<Rightarrow> simple_state_mgr" where
  "create_state_mgr io a srv_id gid = simple_state_mgr_new io srv_id (ap_id a) gid"

text \<open>
  The application as the manager sees it, while it is alive: a state manager is always made,
  of which the manager uses the base class.
\<close>

definition as_application :: "uuid_io \<Rightarrow> Application \<Rightarrow> application" where
  "as_application io a =
     \<lparr>app_alive = True,
      app_create_state_mgr = (\<lambda>srv_id gid. Some mesg_state_mgr_new),
      app_lookup_peer = (\<lambda>p. case lookup_peer io p of Ret e \<Rightarrow> e | _ \<Rightarrow> [])\<rparr>"

definition start_params :: "params \<Rightarrow> Application \<Rightarrow> params" where
  "start_params ps a = ps\<lparr>server_uuid := ap_id a, mesg_port := ucast (ap_port a), default_group_type := ''test_package''\<rparr>"

definition server_raft_params :: "'a raft_params_scheme \<Rightarrow> 'a raft_params_scheme" where
  "server_raft_params rp =
     rp\<lparr>rp_election_timeout_lower := elect_to_low, rp_election_timeout_upper := elect_to_high,
        rp_hb_interval := heartbeat_period, rp_max_append_size := 10, rp_rpc_failure_backoff := rpc_backoff,
        rp_auto_forwarding := True, rp_snapshot_enabled := 0\<rparr>"

text \<open>\<open>Application::start\<close>, with the parameters of \<open>init_messaging\<close>; \<open>rp\<close> and \<open>ps\<close> are the defaults.\<close>

definition application_start where
  "application_start io uuid_hasher env made metrics_enabled ps rp a =
     (let params = start_params ps a in
      case init_messaging uuid_hasher env made (as_application io a) (server_uuid params) (default_group_type params)
             metrics_enabled False of
        (Ret _, n) \<Rightarrow> (Ret (), register_mgr_type (default_group_type params) (server_raft_params rp) n)
      | r \<Rightarrow> r)"

text \<open>
  \<open>main\<close>: \<open>create\<close> is the group to create, if one is given. The future of \<open>create_group\<close> is
  dropped, so its wait for the leader does not take place. Returning destroys the application and
  with it the manager. An exception that leaves \<open>main\<close> ends the process.
\<close>

definition with_node :: "'a run \<times> 'n \<Rightarrow> ('a \<times> 'n) run" where
  "with_node rn = run_bind (fst rn) (\<lambda>v. Ret (v, snd rn))"

definition server_main where
  "server_main io uuid_hasher env made metrics_enabled ps rp api offset_id create =
     run_bind (run_bind (array_at uuids offset_id) (parse_uuid io)) (\<lambda>server_uuid.
     let a = Application_new server_uuid (9000 + offset_id) in
     run_bind (with_node (application_start io uuid_hasher env made metrics_enabled ps rp a)) (\<lambda>(_, n).
     run_bind
       (case create of
          None \<Rightarrow> Ret n
        | Some g \<Rightarrow>
            run_bind (run_bind (array_at guids g) (parse_uuid io)) (\<lambda>gid.
            run_bind (with_node (create_group api (as_application io a) gid ''test_package'' [] n)) (\<lambda>(_, n1). Ret n1)))
       (\<lambda>n1. run_bind (with_node (manager_dtor api n1)) (\<lambda>(_, n2). Ret (0 :: int, n2)))))"

section \<open>One attempt\<close>

text \<open>Waiting for the request is running it from its first message.\<close>

lemma await_request_loop:
  assumes "client_send io (st_heap st) a req = Ret (On_wire m gm)"
    and "request_loop io mt ec w mf 0 ctx a req st = Some (Ret (ctx', st'))" and "cc_promise ctx' = Some r"
  shows "await io mt ec w mf req (In_flight ctx m gm) st = Some (Ret (r, st'))"
  using assms
  by (subst (asm) request_loop.simps)
    (auto simp: await_def one_hop_def split: run.splits handled.splits prod.splits)

text \<open>
  In the given surroundings the group answers a request sent to \<open>p\<close> with \<open>c\<close>, through any
  number of redirections, and every server on the way can be reached.
\<close>

definition attempt_answered :: "uuid_io \<Rightarrow> world \<Rightarrow> (peer_id \<Rightarrow> i32) \<Rightarrow> peer_id \<Rightarrow> cmd_result_code \<Rightarrow> bool" where
  "attempt_answered io w sid p c \<longleftrightarrow>
     (\<exists>qs. leads_to io w sid c qs p \<and> (\<forall>n. \<forall>q \<in> set (p # qs). reachable (w_env w n) q))"

lemma attempt_law:
  assumes "uuid_io_ok io" and "st_ok io mf st" and "attempt_answered io w sid p c"
    and "sc_endpoint cfg = to_string io p" and "sc_id cfg = sid p"
  shows "\<exists>st'. get_result io mt ec w mf payload addr (start_request io mt ec (w_env w 0) mf payload addr cfg st) =
    Some (Ret (null_result_of c, st')) \<and> st_ok io mf st'"
proof -
  from assms(3) obtain qs where qs: "leads_to io w sid c qs p" "\<And>n q. q \<in> set (p # qs) \<Longrightarrow> reachable (w_env w n) q"
    unfolding attempt_answered_def by blast
  have "reachable (w_env w 0) p" using qs(2) by simp
  from start_request_reachable [OF assms(1,2) this assms(4), of mt ec payload addr]
  obtain a m gm st1 where s: "start_request io mt ec (w_env w 0) mf payload addr cfg st =
        Ret (In_flight (client_ctx_new payload (sc_id cfg) addr) m gm, st1)"
      "st_ok io mf st1" "mf_proper io mf (snd st1) p a"
      "client_send io (st_heap st1) a (createMessage io mt ec payload addr) = Ret (On_wire m gm)"
    by blast
  have "\<exists>ctx' st'. request_loop io mt ec w mf 0 (client_ctx_new payload (sc_id cfg) addr) a
      (createMessage io mt ec payload addr) st1 = Some (Ret (ctx', st')) \<and>
      cc_promise ctx' = Some (null_result_of c) \<and> st_ok io mf st'"
    using qs assms(5) by (intro request_chain [OF assms(1) s(2,3)]) (auto simp: client_ctx_new_def)
  then obtain ctx' st' where l: "request_loop io mt ec w mf 0 (client_ctx_new payload (sc_id cfg) addr) a
      (createMessage io mt ec payload addr) st1 = Some (Ret (ctx', st'))"
      "cc_promise ctx' = Some (null_result_of c)" "st_ok io mf st'"
    by blast
  from await_request_loop [OF s(4) l(1,2)] l(3) show ?thesis by (simp add: get_result_def s(1))
qed

section \<open>The loop\<close>

definition busy :: "cmd_result_code \<Rightarrow> bool" where
  "busy c \<longleftrightarrow> c = SERVER_IS_JOINING \<or> c = CONFIG_CHANGING"

lemma busy_iff [simp]: "retry_again (null_result_of c) = busy c"
  by (auto simp: retry_again_def busy_def null_result_of_def result_codes)

lemma exit_code: "(case null_result_of c of Inr _ \<Rightarrow> 0 | Inl _ \<Rightarrow> -1) = (if c = OK then 0 else -1 :: int)"
  by (simp add: null_result_of_def)

lemma retry_loop_returns:
  assumes "\<And>i c st. i < j \<Longrightarrow> Q st \<Longrightarrow> \<exists>c st'. attempt (k + i) st = Some (Ret (null_result_of c, st')) \<and> busy c \<and> Q st'"
    and "\<And>st. Q st \<Longrightarrow> \<exists>st'. attempt (k + j) st = Some (Ret (null_result_of c, st'))" and "\<not> busy c"
    and "retry_again r" and "Q st"
  shows "retry_loop attempt k r st = Some (Ret (if c = OK then 0 else -1))"
  using assms
proof (induction j arbitrary: k r st)
  case 0
  from 0(2) [OF 0(5)] obtain st' where "attempt k st = Some (Ret (null_result_of c, st'))" by auto
  moreover have "retry_loop attempt (Suc k) (null_result_of c) st' = Some (Ret (if c = OK then 0 else -1))"
    using 0(3) by (subst retry_loop.simps) (simp add: exit_code)
  ultimately show ?case using 0(4) by (subst retry_loop.simps) simp
next
  case (Suc j)
  from Suc.prems(1) [of 0, OF _ Suc.prems(5)] obtain c' st'
    where a: "attempt k st = Some (Ret (null_result_of c', st'))" "busy c'" "Q st'" by auto
  have "retry_loop attempt (Suc k) (null_result_of c') st' = Some (Ret (if c = OK then 0 else -1))"
  proof (rule Suc.IH)
    show "\<exists>c st'. attempt (Suc k + i) st = Some (Ret (null_result_of c, st')) \<and> busy c \<and> Q st'"
      if "i < j" "Q st" for i st
      using Suc.prems(1) [of "Suc i" st] that by simp
    show "\<exists>st'. attempt (Suc k + j) st = Some (Ret (null_result_of c, st'))" if "Q st" for st
      using Suc.prems(2) [OF that] by simp
  qed (use Suc.prems a in simp_all)
  with a(1) Suc.prems(4) show ?case by (subst retry_loop.simps) simp
qed

text \<open>The three functions have one outcome.\<close>

definition group_answers ::
  "uuid_io \<Rightarrow> (nat \<Rightarrow> world) \<Rightarrow> (peer_id \<Rightarrow> i32) \<Rightarrow> peer_id \<Rightarrow> nat \<Rightarrow> cmd_result_code \<Rightarrow> bool" where
  "group_answers io ws sid p j c \<longleftrightarrow>
     (\<forall>k < j. \<exists>b. busy b \<and> attempt_answered io (ws k) sid p b) \<and> attempt_answered io (ws j) sid p c \<and> \<not> busy c"

lemma attempts_return:
  assumes "uuid_io_ok io" and "group_answers io ws sid p j c"
    and "sc_endpoint cfg = to_string io p" and "sc_id cfg = sid p"
  shows "retry_loop (\<lambda>k st. get_result io mt ec (ws k) mf payload addr
      (start_request io mt ec (w_env (ws k) 0) mf payload addr cfg st)) 0 (Inl SERVER_IS_JOINING) empty_caches =
    Some (Ret (if c = OK then 0 else -1))"
proof (rule retry_loop_returns [where Q = "st_ok io mf" and j = j])
  note one = attempt_law [where sid = sid, OF assms(1) _ _ assms(3,4)]
  show "\<exists>c st'. get_result io mt ec (ws (0 + i)) mf payload addr
      (start_request io mt ec (w_env (ws (0 + i)) 0) mf payload addr cfg st) = Some (Ret (null_result_of c, st')) \<and>
      busy c \<and> st_ok io mf st'" if "i < j" "st_ok io mf st" for i st
  proof -
    from assms(2) that(1) obtain b where b: "busy b" "attempt_answered io (ws i) sid p b"
      unfolding group_answers_def by blast
    from one [OF that(2) b(2)] b(1) show ?thesis by (metis add_0)
  qed
  show "\<exists>st'. get_result io mt ec (ws (0 + j)) mf payload addr
      (start_request io mt ec (w_env (ws (0 + j)) 0) mf payload addr cfg st) = Some (Ret (null_result_of c, st'))"
    if "st_ok io mf st" for st
    using one [OF that] assms(2) by (metis add_0 group_answers_def)
qed (use assms(2) in \<open>simp_all add: group_answers_def retry_again_def st_ok_def mf_inv_def empty_caches_def\<close>)

lemma client_functions_return:
  assumes "uuid_io_ok io" and "group_answers io ws sid p j c"
    and "unat leader < length uuids" and "uuids ! unat leader = to_string io p" and "sid p = leader"
  shows "send_message io mt ec ws pr leader g message s = Some (Ret (if c = OK then 0 else -1))"
    and "remove_server io mt ec ws pr leader g srv s = Some (Ret (if c = OK then 0 else -1))"
    and "unat srv < length uuids \<Longrightarrow> string_generator io (uuids ! unat srv) \<noteq> None \<Longrightarrow>
      add_new_server io mt ec ws pr leader srv g s = Some (Ret (if c = OK then 0 else -1))"
proof -
  let ?cfg = "srv_config_new leader 0 (uuids ! unat leader) [] False pr"
  have cfg: "dest_config pr leader = Ret ?cfg" using assms(3) by (simp add: dest_config_def array_at_def)
  have "sc_endpoint ?cfg = to_string io p" "sc_id ?cfg = sid p"
    using assms(4,5) by (simp_all add: srv_config_new_def)
  note r = attempts_return [OF assms(1,2) this]
  show "send_message io mt ec ws pr leader g message s = Some (Ret (if c = OK then 0 else -1))"
    by (simp add: send_message_def cfg append_entry_def r case_prod_unfold Let_def)
  show "remove_server io mt ec ws pr leader g srv s = Some (Ret (if c = OK then 0 else -1))"
    by (simp add: remove_server_def cfg rem_server_def r case_prod_unfold Let_def)
  assume "unat srv < length uuids" "string_generator io (uuids ! unat srv) \<noteq> None"
  then obtain q where "run_bind (array_at uuids srv) (parse_uuid io) = Ret q"
    by (auto simp: array_at_def parse_uuid_def)
  then show "add_new_server io mt ec ws pr leader srv g s = Some (Ret (if c = OK then 0 else -1))"
    by (simp add: add_new_server_def cfg add_server_def r case_prod_unfold Let_def)
qed

section \<open>The client returns\<close>


text \<open>Server 0 is peer 7 and the first group is 9; the group is busy once, then accepts.\<close>

definition sample_uuid_io :: uuid_io where
  "sample_uuid_io =
     \<lparr>to_string = (\<lambda>u. if u = 7 then uuids ! 0 else if u = 9 then guids ! 0 else to_string bits_uuid_io u),
      string_generator = (\<lambda>s. if s = uuids ! 0 then Some 7 else if s = guids ! 0 then Some 9
         else string_generator bits_uuid_io s)\<rparr>"

lemma sample_uuid_io_ok: "uuid_io_ok sample_uuid_io"
proof -
  have "to_string bits_uuid_io u \<noteq> uuids ! 0" "to_string bits_uuid_io u \<noteq> guids ! 0" for u
  proof -
    have "length (to_string bits_uuid_io u) = 128" by (simp add: bits_uuid_io_def)
    moreover have "length (uuids ! 0) = 36" "length (guids ! 0) = 36" by (simp_all add: uuids_def guids_def)
    ultimately show "to_string bits_uuid_io u \<noteq> uuids ! 0" "to_string bits_uuid_io u \<noteq> guids ! 0" by auto
  qed
  then show ?thesis
    using bits_uuid_io_ok by (auto simp: uuid_io_ok_def sample_uuid_io_def, auto simp: uuids_def guids_def)
qed

definition sample_busy :: "nat \<Rightarrow> world" where
  "sample_busy k =
     \<lparr>w_env = (\<lambda>n. \<lparr>ce_lookup_endpoint = (\<lambda>p. ''host''), ce_make_fails = (\<lambda>e. None), ce_ready = (\<lambda>a. True)\<rparr>),
      w_reply = (\<lambda>n gm. (if k = 0 then sample_reply False 0 CONFIG_CHANGING [] else sample_reply True 0 OK [], Status_OK))\<rparr>"


section \<open>The server does not stay\<close>

definition started_node where
  "started_node h u metrics srv rp =
     (manager_new h u ''test_package'' metrics)\<lparr>nd_started := True, nd_grpc_server := srv,
       nd_state_mgr_types := [(''test_package'', server_raft_params rp)]\<rparr>"

lemma started_server:
  "register_async_service_ok env \<Longrightarrow> register_rpc_ok env \<Longrightarrow>
    application_start io h env (Ret True) metrics ps rp a = (Ret (), started_node h (ap_id a) metrics
      (Some (grpc_srv_new\<lparr>gs_async_service := True, gs_running := True, gs_raft_step := True\<rparr>)) rp)"
  "application_start io h env (Ret False) metrics ps rp a = (Ret (), started_node h (ap_id a) metrics None rp)"
  "application_start io h env (Runtime_error e) metrics ps rp a = (Ret (), started_node h (ap_id a) metrics None rp)"
  by (simp_all add: application_start_def start_params_def as_application_def init_messaging_def start_def msg_service_new_def restart_server_def
      proto_associate_def svc_associate_def proto_bind_def svc_bind_def manager_new_def register_mgr_type_def
      om_emplace_def data_service_new_def started_node_def Let_def)

text \<open>At most one group, whose server is the only one.\<close>

definition single_group :: "bool \<Rightarrow> ('p, 'srv, 'h) node \<Rightarrow> bool" where
  "single_group created n \<longleftrightarrow>
     (if created then \<exists>g w x. nd_raft_servers n = [(g, w)] \<and> nd_servers n = [x] \<and> w_server w = 0
      else nd_raft_servers n = [] \<and> nd_servers n = [])"

lemma created_group:
  "\<exists>n1. create_group api (as_application io a) g ''test_package'' [] (started_node h u metrics srv rp) =
      (Ret (Inl CANCELLED), n1) \<and>
    nd_started n1 \<and> nd_grpc_server n1 = srv \<and> single_group True n1"
  by (simp add: create_group_def touch_leader_def joinRaftGroup_def join_check_def group_init_def group_state_mgr_def
      join_commit_def om_emplace_def ready_state_mgr_def make_repl_ctx_def cell_defs Let_def as_application_def
      manager_new_def started_node_def single_group_def)

lemma dtor_stops:
  assumes "nd_started n" and "nd_grpc_server n = Some srv" and "single_group created n"
  shows "\<exists>n'. manager_dtor api n = (Ret (), n') \<and> nd_grpc_server n' = Some (srv\<lparr>gs_running := False\<rparr>) \<and>
    nd_servers n' = map (\<lambda>x. api_shutdown api (api_stop_server api x)) (nd_servers n) \<and>
    length (nd_servers n) = of_bool created"
  using assms
  by (auto simp: manager_dtor_def svc_shutdown_def stop_entry_def shutdown_for_def upd_server_def single_group_def Let_def
      split: if_splits)

lemma dtor_crashes: "nd_started n \<Longrightarrow> nd_grpc_server n = None \<Longrightarrow> fst (manager_dtor api n) = Crash"
  by (simp add: manager_dtor_def svc_shutdown_def svc_shutdown_keeps_server Let_def)

lemma server_main_end:
  fixes api :: "('p raft_params_scheme, 'srv) raft_api" and srv :: "'h grpc_srv option"
  assumes "unat offset_id < length uuids" and "string_generator io (uuids ! unat offset_id) \<noteq> None"
    and "\<And>g. create = Some g \<Longrightarrow> unat g < length guids \<and> string_generator io (guids ! unat g) \<noteq> None"
    and "\<And>a. application_start io h env made metrics ps rp a =
      (Ret (), started_node h (ap_id a) metrics srv rp :: ('p raft_params_scheme, 'srv, 'h) node)"
  shows "\<exists>n. server_main io h env made metrics ps rp api offset_id create =
      run_bind (with_node (manager_dtor api n)) (\<lambda>(_, n'). Ret (0, n')) \<and>
    nd_started n \<and> nd_grpc_server n = srv \<and> single_group (create \<noteq> None) n"
proof -
  obtain u where u: "run_bind (array_at uuids offset_id) (parse_uuid io) = Ret u"
    using assms(1,2) by (auto simp: array_at_def parse_uuid_def)
  let ?a = "Application_new u (9000 + offset_id)"
  show ?thesis
  proof (cases create)
    case None
    then show ?thesis
      by (intro exI [of _ "started_node h (ap_id ?a) metrics srv rp :: ('p raft_params_scheme, 'srv, 'h) node"])
        (simp add: server_main_def u assms(4) with_node_def Let_def, simp add: started_node_def manager_new_def single_group_def)
  next
    case (Some g)
    then obtain gid where gid: "run_bind (array_at guids g) (parse_uuid io) = Ret gid"
      using assms(3) by (auto simp: array_at_def parse_uuid_def)
    obtain n1 where "create_group api (as_application io ?a) gid ''test_package'' [] (started_node h (ap_id ?a) metrics srv rp) =
        (Ret (Inl CANCELLED), n1)"
        "nd_started n1" "nd_grpc_server n1 = srv" "single_group True n1"
      using created_group by blast
    with Some show ?thesis
      by (intro exI [of _ n1]) (simp add: server_main_def u gid assms(4) with_node_def Let_def)
  qed
qed

text \<open>
  C40: The example server does not stay. When the gRPC server can be made and accepts its
  registrations, \<open>main\<close> returns 0 without waiting for anything: the gRPC server that was started
  is shut down, and the group it was asked to create, and has just created, is stopped before
  it can elect a leader. When the gRPC server cannot be made, the process crashes in the
  manager's destructor instead.
\<close>

theorem server_main_does_not_wait:
  fixes api :: "('p raft_params_scheme, 'srv) raft_api"
  assumes "unat offset_id < length uuids" and "string_generator io (uuids ! unat offset_id) \<noteq> None"
    and "\<And>g. create = Some g \<Longrightarrow> unat g < length guids \<and> string_generator io (guids ! unat g) \<noteq> None"
    and "register_async_service_ok env" and "register_rpc_ok env"
  shows "(\<exists>(n :: ('p raft_params_scheme, 'srv, 'h) node) srv.
      server_main io h env (Ret True) metrics ps rp api offset_id create = Ret (0, n) \<and>
      nd_grpc_server n = Some srv \<and> \<not> gs_running srv \<and>
      length (nd_servers n) = (if create = None then 0 else 1) \<and>
      (\<forall>s \<in> set (nd_servers n). \<exists>x. s = api_shutdown api (api_stop_server api x))) \<and>
    server_main io h env (Ret False) metrics ps rp api offset_id create =
      (Crash :: (int \<times> ('p raft_params_scheme, 'srv, 'h) node) run) \<and>
    server_main io h env (Runtime_error e) metrics ps rp api offset_id create =
      (Crash :: (int \<times> ('p raft_params_scheme, 'srv, 'h) node) run)"
proof -
  let ?result = "\<lambda>made. server_main io h env made metrics ps rp api offset_id create
    :: (int \<times> ('p raft_params_scheme, 'srv, 'h) node) run"
  note ends = server_main_end [OF assms(1-3), where api = api and create = create]
  obtain n where n: "?result (Ret True) = run_bind (with_node (manager_dtor api n)) (\<lambda>(_, n'). Ret (0, n'))"
      "nd_started n" "nd_grpc_server n \<noteq> None" "single_group (create \<noteq> None) n"
    using ends [where made = "Ret True", OF _ started_server(1) [OF assms(4,5)]] by (metis option.distinct(1))
  then obtain n' srv where "manager_dtor api n = (Ret (), n')" "nd_grpc_server n' = Some (srv\<lparr>gs_running := False\<rparr>)"
      "nd_servers n' = map (\<lambda>x. api_shutdown api (api_stop_server api x)) (nd_servers n)"
      "length (nd_servers n) = of_bool (create \<noteq> None)"
    using dtor_stops [of n _ "create \<noteq> None" api] by blast
  with n(1) have "\<exists>n srv. ?result (Ret True) = Ret (0, n) \<and>
      nd_grpc_server n = Some srv \<and> \<not> gs_running srv \<and>
      length (nd_servers n) = (if create = None then 0 else 1) \<and>
      (\<forall>s \<in> set (nd_servers n). \<exists>x. s = api_shutdown api (api_stop_server api x))"
    by (auto simp: with_node_def)
  moreover have "?result made = Crash"
    if "\<And>a. application_start io h env made metrics ps rp a =
      (Ret (), started_node h (ap_id a) metrics None rp :: ('p raft_params_scheme, 'srv, 'h) node)" for made
    using ends [OF _ that] by (auto simp: with_node_def dtor_crashes)
  ultimately show ?thesis using started_server(2,3) by blast
qed

definition sample_raft_params :: raft_params where
  "sample_raft_params =
     \<lparr>rp_election_timeout_lower = 250, rp_election_timeout_upper = 500, rp_hb_interval = 125, rp_max_append_size = 100,
      rp_rpc_failure_backoff = 25, rp_auto_forwarding = False, rp_snapshot_enabled = 1\<rparr>"

definition sample_server_api :: "(raft_params, nat) raft_api" where
  "sample_server_api =
     \<lparr>api_new_server = (\<lambda>_. 1), api_process_req = (\<lambda>r srv. (Ret None, srv)),
      api_add_srv = (\<lambda>_ srv. (Crash, srv)), api_remove_srv = (\<lambda>_ srv. (Crash, srv)),
      api_append_entries = (\<lambda>_ srv. (Crash, srv)), api_request_leadership = (\<lambda>srv. (Ret True, srv)),
      api_yield_leadership = (\<lambda>_ _ srv. srv), api_get_srv_config_all = (\<lambda>_. Ret []),
      api_get_srv_config = (\<lambda>_ i. None), api_config_servers = (\<lambda>_. []), api_config_server = (\<lambda>_ i. None),
      api_get_leader = (\<lambda>_. -1), api_is_leader = (\<lambda>_. False), api_get_id = (\<lambda>_. 1), api_get_last_log_idx = (\<lambda>_. 0),
      api_get_peer_info_all = (\<lambda>_. []), api_stop_server = (\<lambda>srv. 0), api_shutdown = (\<lambda>srv. srv),
      api_shutdown_releases = (\<lambda>_. True), api_dtor_releases = True\<rparr>"

theorem server_main_does_not_wait_witness:
  "\<exists>n :: (raft_params, nat, nat) node. server_main sample_uuid_io (\<lambda>_. 0) sample_env (Ret True) False
     (params_default 0 0) sample_raft_params sample_server_api 0 (Some 0) = Ret (0, n) \<and> nd_servers n = [0]"
proof -
  have valid: "unat (0 :: u32) < length uuids" "string_generator sample_uuid_io (uuids ! unat (0 :: u32)) \<noteq> None"
      "\<And>g. Some (0 :: u32) = Some g \<Longrightarrow> unat g < length guids \<and> string_generator sample_uuid_io (guids ! unat g) \<noteq> None"
      "register_async_service_ok sample_env" "register_rpc_ok sample_env"
    by (simp_all add: sample_uuid_io_def sample_env_def uuids_def guids_def)
  note main = server_main_does_not_wait [where create = "Some 0" and h = "\<lambda>_. 0" and metrics = False
    and ps = "params_default 0 0" and rp = sample_raft_params and api = sample_server_api, OF valid(1,2) _ valid(4,5)]
  obtain n :: "(raft_params, nat, nat) node" where "server_main sample_uuid_io (\<lambda>_. 0) sample_env (Ret True) False
       (params_default 0 0) sample_raft_params sample_server_api 0 (Some 0) = Ret (0, n)"
      "length (nd_servers n) = 1" "\<forall>s \<in> set (nd_servers n). \<exists>x. s = api_shutdown sample_server_api (api_stop_server sample_server_api x)"
    using main valid(3) by fastforce
  then show ?thesis by (auto simp: length_Suc_conv sample_server_api_def)
qed

end
