(* ===== verification/Spec2Isabelle.thy ===== *)
theory Spec2Isabelle
  imports Data_Channel Client_Types Metrics Locking Process Log_Limiter Flatb Logger Example_Programs
begin

text \<open>
  Verification of \<open>nuraft_mesg\<close>, the gRPC messaging layer that runs many NuRaft groups in
  one process. All paths below are under \<open>src/\<close>.

  \<^bold>\<open>The program.\<close> A process has one \<open>ManagerImpl\<close> (\<open>src/lib/manager_impl.cpp\<close>). The
  application registers group types with it and creates, joins and leaves groups; it keeps
  a state manager per group and what it believes to lead. The manager owns a message service
  (\<open>src/lib/service.cpp\<close>) with a RAFT server per hosted group. \<open>src/proto/proto_service.cpp\<close>
  is the server end of the protocol: \<open>raftStep\<close> checks an incoming message, makes the node
  join the group if it is a join request, and posts it to one of two thread pools, whose
  threads hand it to the RAFT server and send the answer. \<open>src/lib/factory.cpp\<close> and
  \<open>src/proto/proto_mesg_factory.cpp\<close> are the client end: a cache of connections shared by
  all groups, a cache of wrappers per group, the requests a client sends and redirects to
  the leader, and the data channel, whose server end is \<open>src/lib/data_service_grpc.cpp\<close>.
  \<open>src/lib/repl_service_ctx.cpp\<close> is the view of a group a state manager works with.
  \<open>test_package\<close> is an example application with a log store in memory, a server program and
  a client program.

  \<^bold>\<open>The theories.\<close>
  \<^item> \<open>Prelude\<close>: machine types, the result of a C++ call (\<open>Ret\<close>, \<open>Runtime_error\<close> for a
    \<open>std::runtime_error\<close>, \<open>Crash\<close> for a failed \<open>RELEASE_ASSERT\<close> or a null dereference),
    the result codes of \<open>src/flatb/raft_types.fbs\<close>, UUIDs, generic lemmas.
  \<^item> \<open>Std_Map\<close>: \<open>std::map\<close> as a sorted association list, with the contract of an associative
    container as a locale; \<open>Refinement\<close>: the contract between a step relation and its
    specification as a locale; \<open>Byte_Codec\<close>: words as bytes, for concrete instances.
  \<^item> \<open>Wire\<close>: the messages of \<open>src/proto/*.proto\<close> and their translations in both directions;
    \<open>Flatb\<close>: the translations of the FlatBuffers client, which agree with them.
  \<^item> \<open>Data_Service\<close>: registration of handlers of the data channel.
  \<^item> \<open>Raft_Api\<close>, \<open>Node\<close>: the interfaces of NuRaft, the application and the gRPC server; the
    wrapper \<open>src/lib/grpc_server.cpp\<close>; the record \<open>node\<close> of a process, which holds the
    fields of \<open>ManagerImpl\<close> and \<open>msg_service\<close>.
  \<^item> \<open>Msg_Service\<close>, \<open>Proto_Service\<close>, \<open>Manager\<close>: \<open>service.cpp\<close> with \<open>group_init\<close>, the
    protocol service, and the manager's operations, one definition per function.
  \<^item> \<open>Client_Factory\<close>, \<open>Client_Requests\<close>, \<open>Log_Limiter\<close>: the caches, with the identity of
    the client objects on a heap; requests with promise and redirection, and the data
    requests; the limiter on log lines.
  \<^item> \<open>Client_Types\<close>: all factories of a process with the completions of their requests as one
    step relation, and what class of object a pointer may have.
  \<^item> \<open>Connection\<close>: settings, start parameters, the constructors of factories and clients
    (\<open>src/lib/client.hpp\<close>), and the caches after an exception.
  \<^item> \<open>Repl_Ctx\<close>: destinations, status and data requests of the replication context;
    \<open>Data_Channel\<close>: both ends of the data channel.
  \<^item> \<open>Metrics\<close>: the metrics the service and its groups register. \<open>Logger\<close>: the logger of the
    RAFT servers (\<open>src/lib/logger.hpp\<close>).
  \<^item> \<open>Log_Store\<close>, \<open>Example_App\<close>, \<open>Example_Programs\<close>: the log in memory; the state manager with
    its files, the state machine and the peer table; the server and the client program.
  \<^item> \<open>Membership\<close>: the specification of the manager. \<open>Samples\<close>: concrete inputs.
  \<^item> \<open>Process\<close>: all threads of a process - the application's calls, requests, events, the two
    halves of every join, the pools - as one step relation.
  \<^item> \<open>Locking\<close>: what every function locks on each of its paths, and threads that run these
    functions as a step relation on the locks.

  \<^bold>\<open>What the theorems show.\<close>
  \<^item> Manager: any sequence of interface calls, remote joins and RAFT events keeps the node
    well-formed and has the effect of the specification on the registered types and the
    kept, hosted and led groups (\<open>manager_refines_membership\<close>); outcomes and errors of the
    single operations on every branch.
  \<^item> Process: in every interleaving all pointers stay valid, also those of requests queued for a
    group that has been left, and every call is in exactly one place (\<open>process_safe\<close>); from
    every state reached all calls can be answered (\<open>process_answers_all\<close>). Threads that make
    any calls never deadlock (\<open>no_deadlock\<close>).
  \<^item> Protocol service: a call is refused, queued or joined as its fields say, and a blocked
    I/O pool does not hold up fast messages.
  \<^item> Clients: the caches never hold or give out a null client, bad connections are replaced
    in place, forced clients have new ids. Requests complete their promise, and reach the
    leader through any number of redirections. Whatever the factories do, a pointer of a
    cache is of the class the code casts it to (\<open>client_types_sound\<close>); a connection has the
    parameters of the process's factory (\<open>connection_parameters\<close>).
  \<^item> Both ends together: a request reaches the RAFT server of its group unchanged and the
    client sees that server's answer (\<open>request_end_to_end\<close>, below); a join request makes the
    addressed node host the group first (\<open>join_end_to_end\<close>, below); a data request reaches
    the handler bound for its name and group and brings back its response, before and after
    a restart of the server (\<open>data_request_end_to_end\<close>).
  \<^item> Metrics: no scrape aborts the process, in any run of the service.
  \<^item> Log store: refinement to a list, all reads, size-limited reads, packing and applying,
    and when \<open>compact\<close> returns. State manager: what is saved is loaded. The client program
    returns the group's answer; the server program does not wait.
  \<^item> Some theorems state where the code goes wrong: two concurrent joins lose a group, a
    failed join drops a state manager, a left group still counts as led, a destructor uses
    a null server, a redirection without an address uses a null client, the result of a
    request that fails at once is lost, redirections may go round for ever, an exception
    leaves a null client in the cache, a factory with one thread count makes no connection,
    a group left while it is joined cannot be left again, a restart of the server can block.
\<close>

text \<open>
  \<^bold>\<open>Parameters.\<close> NuRaft, gRPC through \<open>sisl\<close>, UUID text, JSON text and the file system are
  records of functions passed to the definitions. What the theorems rely on are named
  predicates: \<open>uuid_io_ok\<close> (parsing gives back what printing wrote, the empty string is no
  UUID, and no UUID contains a bar), \<open>msg_types_ok\<close> (the message types are distinct),
  \<open>make_ids_ok\<close> (a failed connection uses up one id at most), \<open>shutdown_releases_ok\<close> (a shut-down
  RAFT server gives up its listener), \<open>log_codec_ok\<close> (the format of a log entry can be
  read back), \<open>json_io_ok\<close> (the same of JSON text), \<open>stubs_need_workers\<close> (a stub is made exactly
  when its worker has been created), \<open>reporter_ok\<close> (what makes two metrics one series, and that
  a counter must not go down), \<open>callbacks_ok\<close> (what is called with a lock held takes only locks
  above it). Each has a concrete instance, used by the witnesses.

  \<^bold>\<open>Loops and bounds.\<close> Loops over containers are structural recursions. Three loops may
  not end and are partial functions with \<open>None\<close> for not returning: \<open>compact_loop\<close>,
  \<open>request_loop\<close> (the chain of redirections) and \<open>retry_loop\<close> (the example client); for
  each it is proved when it returns. Log indices, terms and sizes are 64-bit words, server
  ids and codes 32-bit words, with their wrap-around. Timed waits see an arbitrary finite
  sequence of states, so no bound on time is assumed. No fuel is used.

  \<^bold>\<open>Concurrency.\<close> Each function of the manager and the caches is one step, as its locks
  make it; where a lock is released in between and it matters, in \<open>joinRaftGroup\<close>, the two
  halves \<open>join_check\<close> and \<open>join_commit\<close> are separate, and \<open>Process\<close> interleaves them with
  everything else. The locks themselves are \<open>Locking\<close>: their order is RAFT server, manager,
  then the data service's or a group's factory, then the shared factory, then locks of the
  application; a thread of the gRPC server counts as a lock below all of them. Which path a
  function takes is left open there, so the result is for all paths. Client requests are
  asynchronous: the remote side and the state of the connections may change at every hop.

  \<^bold>\<open>Not modelled.\<close> The text of log messages and the values of histograms and gauges, which
  nothing reads back; the generated accessors of the settings (\<open>nuraft_mesg_config.hpp\<close>); channels,
  stubs and worker threads of gRPC, which are \<open>sisl\<close>'s; the byte encoding of protobuf and
  FlatBuffers, which is generated, and \<open>src/flatb/utils.hpp\<close>, which is commented out; option
  parsing, sleeping and the delivery of signals in the example programs; memory-model effects
  below the level of the locks and the concurrent map; class and function
  declarations, whose definitions are modelled; the tests with their wrapper of the Jungle
  database; build files.
\<close>

section \<open>A request from one node to another\<close>

text \<open>
  What the client's RAFT library sees of a response of the server's: an empty context is
  no context, and the leader's address comes with a refusal under \<open>NOT_LEADER\<close> only, from
  the configuration of the server after it has processed the request.
\<close>

definition client_view :: "('p, 'srv) raft_api \<Rightarrow> 'srv \<Rightarrow> resp_msg \<Rightarrow> grpc_resp" where
  "client_view api srv resp =
     \<lparr>m_term = m_term resp, m_type = m_type resp, m_src = m_src resp, m_dst = m_dst resp, next_idx = next_idx resp,
      accepted = accepted resp, resp_ctx = (if resp_ctx resp = Some [] then None else resp_ctx resp),
      next_batch_size_hint = next_batch_size_hint resp, result_code = result_code resp,
      dest_addr = (if result_code resp = NOT_LEADER \<and> \<not> accepted resp
        then (case api_get_srv_config api srv (m_dst resp) of None \<Rightarrow> [] | Some c \<Rightarrow> sc_endpoint c) else [])\<rparr>"

lemma toResponse_step_reply: "toResponse (step_reply api srv resp) = Some (client_view api srv resp)"
  by (auto simp: toResponse_def step_reply_def client_view_def fromBaseRequest_def fromRCResponse_def Let_def
      split: option.splits)

text \<open>What a group's wrapper puts on the wire, as its peer reads it.\<close>

lemma wire_message:
  assumes "uuid_io_ok io" and "mf_proper io mf (gcl, h) p a" and "client_send io h a req = Ret (On_wire m gm)"
  shows "string_generator io (gm_group_id gm) = Some (mf_group_id mf)" "string_generator io (gm_intended_addr gm) = Some p"
    "toRequest (gm_msg gm) = Ret req" "gm_group_type gm = mf_group_type mf"
    "pb_type (rm_base (gm_msg gm)) = m_type req" "pb_dest (rm_base (gm_msg gm)) = m_dst req"
proof -
  have gm: "gm = group_msg io (to_string io p) (mf_group_id mf) (mf_group_type mf) (grpc_request req)"
    using assms(2,3) by (auto simp: client_send_def mf_proper_obj)
  then show "string_generator io (gm_group_id gm) = Some (mf_group_id mf)" "string_generator io (gm_intended_addr gm) = Some p"
    "toRequest (gm_msg gm) = Ret req" "gm_group_type gm = mf_group_type mf"
    by (simp_all add: group_msg_def uuid_parse_print [OF assms(1)])
  show "pb_type (rm_base (gm_msg gm)) = m_type req" "pb_dest (rm_base (gm_msg gm)) = m_dst req"
    by (simp_all add: gm group_msg_def grpc_request_def fromBaseRequest_def)
qed

text \<open>A closure hands the request to its server, and the client sees the server's answer.\<close>

lemma execute_step_answer:
  assumes "toRequest (gm_msg (rpc_request (tk_rpc t))) = Ret req"
    and "api_process_req api req (nd_servers n ! tk_server t) = (Ret (Some resp), srv')"
  shows "\<exists>r n'. execute_step api mt t n = (Ret r, n') \<and> nd_servers n' = (nd_servers n)[tk_server t := srv'] \<and>
    gm_group_id (rpc_response r) = gm_group_id (rpc_request (tk_rpc t)) \<and>
    send_complete req (gm_msg (rpc_response r)) (rpc_status r) = (Some (client_view api srv' resp), None)"
proof -
  have "send_complete req (step_reply api srv' resp) Status_OK = (Some (client_view api srv' resp), None)"
    by (simp add: send_complete_def status_ok_def Status_OK_def toResponse_step_reply)
  then show ?thesis
    using assms by (simp add: execute_step_def step_def Let_def cell_defs split: option.split)
qed

text \<open>
  C4: A request goes from client to server and back unchanged. The message that a group's
  wrapper for a peer puts on the wire is, at that peer, queued for the RAFT server of the
  same group; the closure hands that server exactly the request that was sent and sends
  its answer; and the client's handler gets exactly the response the server gave, in the
  form \<open>client_view\<close>, and no error.
\<close>

theorem request_end_to_end:
  assumes "uuid_io_ok io" and "mf_proper io mf (gcl, h) (nd_service_address n) a"
    and "client_send io h a req = Ret (On_wire m gm)"
    and "om_find (nd_raft_servers n) (mf_group_id mf) = Some w" and "w_server w < length (nd_servers n)"
    and "api_process_req api req (nd_servers n ! w_server w) = (Ret (Some resp), srv')"
    and "rpc = rpc_new i gm" and "t = \<lparr>tk_server = w_server w, tk_metrics = w_metrics w, tk_rpc = rpc\<rparr>"
  shows "\<exists>ps' r n'. raftStep io mt api app rpc (n, ps) = (Ret False, rpc, n, ps') \<and>
      t \<in> set (pl_queue (raft_pool ps') @ pl_queue (io_pool ps')) \<and>
      execute_step api mt t n = (Ret r, n') \<and> nd_servers n' = (nd_servers n)[w_server w := srv'] \<and>
      gm_group_id (rpc_response r) = gm_group_id gm \<and>
      send_complete req (gm_msg (rpc_response r)) (rpc_status r) = (Some (client_view api srv' resp), None)"
proof -
  note msg = wire_message [OF assms(1-3)]
  have join: "\<exists>c. joinRaftGroup api app d (mf_group_id mf) gt n = (Ret c, n)" for d gt
    using assms(4) by (simp add: joinRaftGroup_def join_check_def)
  then obtain c where c: "joinRaftGroup api app (m_dst req) (mf_group_id mf) (mf_group_type mf) n = (Ret c, n)" by blast
  then have queued: "raftStep io mt api app rpc (n, ps) = (Ret False, rpc, n, route_to_pool mt (m_type req) t ps)"
    using msg assms(4) by (simp add: raftStep_def Let_def assms(7,8) rpc_new_def)
  moreover have "t \<in> set (pl_queue (raft_pool (route_to_pool mt ty t ps)) @ pl_queue (io_pool (route_to_pool mt ty t ps)))" for ty
    by (simp add: route_to_pool_def pool_post_def)
  moreover have "\<exists>r n'. execute_step api mt t n = (Ret r, n') \<and> nd_servers n' = (nd_servers n)[w_server w := srv'] \<and>
      gm_group_id (rpc_response r) = gm_group_id gm \<and>
      send_complete req (gm_msg (rpc_response r)) (rpc_status r) = (Some (client_view api srv' resp), None)"
    using execute_step_answer [of t req api n resp srv' mt] msg(3) assms(6) by (simp add: assms(7,8) rpc_new_def)
  ultimately show ?thesis by metis
qed

theorem request_end_to_end_witness:
  "\<exists>m gm r n'. client_send bits_uuid_io
      \<lparr>h_counter = 2, h_objs = [Messaging_client 0 ''host'' 0, Proto_client 1 (Some 0) (to_string bits_uuid_io 5) 7 ''t'']\<rparr>
      1 (single_entry_request 5 1 sample_dummy) = Ret (On_wire m gm) \<and>
    execute_step sample_api sample_mt \<lparr>tk_server = 0, tk_metrics = Some 0, tk_rpc = rpc_new 4 gm\<rparr> sample_served = (Ret r, n') \<and>
    nd_servers n' = [[single_entry_request 5 1 sample_dummy]]"
proof -
  let ?h = "\<lparr>h_counter = 2, h_objs = [Messaging_client 0 ''host'' 0, Proto_client 1 (Some 0) (to_string bits_uuid_io 5) 7 ''t'']\<rparr>"
  let ?req = "single_entry_request 5 1 sample_dummy" and ?mf = "\<lparr>mf_group_id = 7, mf_group_type = ''t''\<rparr>"
  obtain m gm where send: "client_send bits_uuid_io ?h 1 ?req = Ret (On_wire m gm)"
    by (simp add: client_send_def obj_at_def)
  have proper: "mf_proper bits_uuid_io ?mf ([], ?h) (nd_service_address sample_served) 1"
    by (simp add: mf_proper_obj obj_at_def is_messaging_iff sample_served_facts)
  have req: "api_process_req sample_api ?req (nd_servers sample_served ! 0) = (Ret (Some (sample_resp ?req)), [?req])"
    by (simp add: sample_api_def sample_served_facts)
  obtain r n' where "execute_step sample_api sample_mt \<lparr>tk_server = 0, tk_metrics = Some 0, tk_rpc = rpc_new 4 gm\<rparr> sample_served = (Ret r, n')"
      "nd_servers n' = (nd_servers sample_served)[0 := [?req]]"
    using request_end_to_end [OF bits_uuid_io_ok proper send, where w = "\<lparr>w_metrics = Some 0, w_server = 0\<rparr>"
        and api = sample_api and resp = "sample_resp ?req" and srv' = "[?req]" and rpc = "rpc_new 4 gm" and i = 4
        and t = "\<lparr>tk_server = 0, tk_metrics = Some 0, tk_rpc = rpc_new 4 gm\<rparr>" and mt = sample_mt and app = sample_app
        and ps = "proto_service_new 2 0"]
      req sample_served_facts by auto
  with send show ?thesis by (auto simp: sample_served_facts)
qed

text \<open>C5:
  A join request brings a group to a new member. When the leader's client sends a join request
  to a node that does not host the group yet, under the group's type, and the node has that type
  registered, the node makes a RAFT server for exactly that group, with the parameters
  registered for the type, hosts the group and keeps its state manager; the request is queued
  for that server, which is handed exactly the request that was sent; and the client gets
  exactly its answer. All other groups of the node are as before.
\<close>

theorem join_end_to_end:
  assumes "uuid_io_ok io" and "msg_types_ok mt" and "mf_proper io mf (gcl, h) (nd_service_address n) a"
    and "client_send io h a req = Ret (On_wire m gm)" and "m_type req = join_cluster_request mt"
    and "node_inv n" and "nd_manager_alive n" and "om_find (nd_raft_servers n) (mf_group_id mf) = None"
    and "om_find (nd_state_mgr_types n) (effective_type (mf_group_type mf) n) = Some params"
    and "app_alive app" and "app_create_state_mgr app (m_dst req) (mf_group_id mf) = Some sm"
    and "rpc = rpc_new i gm"
  shows "\<exists>n' ps' ctx t. raftStep io mt api app rpc (n, ps) = (Ret False, rpc, n', ps') \<and> node_inv n' \<and>
    cx_group ctx = mf_group_id mf \<and> cx_group_type ctx = effective_type (mf_group_type mf) n \<and> cx_params ctx = params \<and>
    nd_servers n' = nd_servers n @ [api_new_server api (ctx\<lparr>cx_listener := Some (mf_group_id mf)\<rparr>)] \<and>
    (\<forall>g. om_find (nd_raft_servers n') g =
       (if g = mf_group_id mf then Some \<lparr>w_metrics = cx_metrics ctx, w_server = length (nd_servers n)\<rparr>
        else om_find (nd_raft_servers n) g)) \<and>
    om_find (nd_state_managers n') (mf_group_id mf) = Some (Some (cx_state_mgr ctx)) \<and>
    pl_queue (raft_pool ps') = pl_queue (raft_pool ps) @ [t] \<and> io_pool ps' = io_pool ps \<and>
    (\<forall>resp srv'. api_process_req api req (api_new_server api (ctx\<lparr>cx_listener := Some (mf_group_id mf)\<rparr>)) = (Ret (Some resp), srv') \<longrightarrow>
       (\<exists>r n''. execute_step api mt t n' = (Ret r, n'') \<and> nd_servers n'' = nd_servers n @ [srv'] \<and>
          send_complete req (gm_msg (rpc_response r)) (rpc_status r) = (Some (client_view api srv' resp), None)))"
proof -
  let ?g = "mf_group_id mf" and ?t = "mf_group_type mf"
  have parse: "string_generator io (gm_group_id (rpc_request rpc)) = Some ?g"
      "string_generator io (gm_intended_addr (rpc_request rpc)) = Some (nd_service_address n)"
      "toRequest (gm_msg (rpc_request rpc)) = Ret req" "gm_group_type (rpc_request rpc) = ?t"
      "pb_type (rm_base (gm_msg (rpc_request rpc))) = m_type req" "pb_dest (rm_base (gm_msg (rpc_request rpc))) = m_dst req"
    using wire_message [OF assms(1,3,4)] by (simp_all add: assms(12) rpc_new_def)
  obtain ctx n1 where jc: "join_check app (m_dst req) ?g ?t n = (Ret (Inr ctx), n1)"
    using join_check_new [OF assms(6-11)] by blast
  note ck = join_check_Inr [OF assms(6) jc]
  define n' where "n' = join_commit api ctx n1"
  have inv: "node_inv n'" unfolding n'_def using ck by (intro join_commit_inv) auto
  have cm: "om_find (nd_raft_servers n') g = (if g = ?g then Some \<lparr>w_metrics = cx_metrics ctx, w_server = length (nd_servers n)\<rparr>
        else om_find (nd_raft_servers n) g)"
      "nd_servers n' = nd_servers n @ [api_new_server api (ctx\<lparr>cx_listener := Some ?g\<rparr>)]"
      "nd_state_managers n' = nd_state_managers n1" for g
    using ck join_commit_new [of n1 ctx] by (simp_all add: n'_def)
  define t where "t = \<lparr>tk_server = length (nd_servers n), tk_metrics = cx_metrics ctx, tk_rpc = rpc\<rparr>"
  have "\<not> is_slow_message mt (join_cluster_request mt)" using assms(2) by (auto simp: is_slow_message_def msg_types_ok_def)
  then have "route_request mt rpc ?g n' ps = (False, rpc, ps\<lparr>raft_pool := pool_post t (raft_pool ps)\<rparr>)"
    using cm(1) [of ?g] assms(5) by (simp add: route_request_def parse t_def route_to_pool_def)
  then have step: "raftStep io mt api app rpc (n, ps) = (Ret False, rpc, n', ps\<lparr>raft_pool := pool_post t (raft_pool ps)\<rparr>)"
    using raftStep_halves [of rpc mt io ?g n app ctx n1 api ps] jc assms(5) by (simp add: parse n'_def)
  have "\<exists>r n''. execute_step api mt t n' = (Ret r, n'') \<and> nd_servers n'' = nd_servers n @ [srv'] \<and>
      send_complete req (gm_msg (rpc_response r)) (rpc_status r) = (Some (client_view api srv' resp), None)"
    if "api_process_req api req (api_new_server api (ctx\<lparr>cx_listener := Some ?g\<rparr>)) = (Ret (Some resp), srv')" for resp srv'
    using execute_step_answer [of t req api n' resp srv' mt] that parse(3) by (auto simp: t_def cm(2))
  then show ?thesis
    using step inv ck cm assms(9) by (intro exI [of _ n'] exI [of _ "ps\<lparr>raft_pool := pool_post t (raft_pool ps)\<rparr>"] exI [of _ ctx] exI [of _ t])
      (simp add: pool_post_def)
qed

theorem join_end_to_end_witness:
  "\<exists>m gm n' ps'. client_send bits_uuid_io
      \<lparr>h_counter = 2, h_objs = [Messaging_client 0 ''host'' 0, Proto_client 1 (Some 0) (to_string bits_uuid_io 5) 7 ''t'']\<rparr>
      1 (single_entry_request 12 1 sample_dummy) = Ret (On_wire m gm) \<and>
    raftStep bits_uuid_io sample_mt sample_api sample_app (rpc_new 4 gm) (sample_node, proto_service_new 2 0)
      = (Ret False, rpc_new 4 gm, n', ps') \<and>
    om_find (nd_raft_servers n') 7 \<noteq> None \<and> nd_servers n' = [[]] \<and> length (pl_queue (raft_pool ps')) = 1"
proof -
  let ?h = "\<lparr>h_counter = 2, h_objs = [Messaging_client 0 ''host'' 0, Proto_client 1 (Some 0) (to_string bits_uuid_io 5) 7 ''t'']\<rparr>"
  let ?req = "single_entry_request 12 1 sample_dummy" and ?mf = "\<lparr>mf_group_id = 7, mf_group_type = ''t''\<rparr>"
  obtain m gm where send: "client_send bits_uuid_io ?h 1 ?req = Ret (On_wire m gm)"
    by (simp add: client_send_def obj_at_def)
  have proper: "mf_proper bits_uuid_io ?mf ([], ?h) (nd_service_address sample_node) 1"
    by (simp add: mf_proper_obj obj_at_def is_messaging_iff sample_fields)
  have type: "m_type ?req = join_cluster_request sample_mt" by (simp add: single_entry_request_def sample_fields)
  have node: "om_find (nd_raft_servers sample_node) (mf_group_id ?mf) = None"
      "om_find (nd_state_mgr_types sample_node) (effective_type (mf_group_type ?mf) sample_node) = Some 42"
    by (simp_all add: sample_fields effective_type_def)
  obtain n' ps' where "raftStep bits_uuid_io sample_mt sample_api sample_app (rpc_new 4 gm) (sample_node, proto_service_new 2 0)
      = (Ret False, rpc_new 4 gm, n', ps')" "om_find (nd_raft_servers n') 7 \<noteq> None" "nd_servers n' = [[]]"
      "length (pl_queue (raft_pool ps')) = 1"
    using join_end_to_end [OF bits_uuid_io_ok sample_mt_ok proper send type sample_node_inv _ node, of sample_app
        mesg_state_mgr_new "rpc_new 4 gm" 4 sample_api "proto_service_new 2 0"]
    by (auto simp: sample_fields sample_api_def proto_service_new_def pool_new_def)
  with send show ?thesis by blast
qed

end
